(* ===== verification/Prelude.thy ===== *)
theory Prelude
  imports Main
begin

text \<open>
  The vocabulary every component shares: the result type of the fallible Rust code
  (an \<open>anyhow\<close> error chain or a panic on the left, the value on the right), the
  state-passing form of the \<open>async\<close> functions that talk to the outside world, and
  the folds and association lists the loops of the sources become. The collections
  \<open>result_simps\<close> and \<open>io_simps\<close> hold the rules that run code written with
  these combinators; component proofs start from them.
\<close>

named_theorems result_simps \<open>equations of the result combinators\<close>
named_theorems io_simps \<open>equations of the world-passing combinators\<close>

section \<open>Results\<close>

text \<open>
  An \<open>anyhow::Error\<close> is the chain of its messages, the outermost context first.
  A panic is not an \<open>Err\<close>: it is kept apart, so that a property can say that
  code does not panic.
\<close>

datatype error = Anyhow "string list" | Panic string

type_synonym 'a result = "error + 'a"

definition bail :: "string \<Rightarrow> 'a result" where
  "bail msg = Inl (Anyhow [msg])"

definition panic :: "string \<Rightarrow> 'a result" where
  "panic msg = Inl (Panic msg)"

text \<open>The \<open>?\<close> operator: go on with the value, or return the error.\<close>

fun and_then :: "'a result \<Rightarrow> ('a \<Rightarrow> 'b result) \<Rightarrow> 'b result" where
  "and_then (Inl e) f = Inl e"
| "and_then (Inr x) f = f x"

text \<open>\<open>.context(msg)\<close> on a \<open>Result\<close>: a new head of the chain; panics are not errors.\<close>

fun with_context :: "string \<Rightarrow> 'a result \<Rightarrow> 'a result" where
  "with_context msg (Inl (Anyhow chain)) = Inl (Anyhow (msg # chain))"
| "with_context msg r = r"

text \<open>A library error becomes an \<open>anyhow\<close> error when \<open>?\<close> converts it.\<close>

fun from_lib :: "string + 'a \<Rightarrow> 'a result" where
  "from_lib (Inl msg) = Inl (Anyhow [msg])"
| "from_lib (Inr x) = Inr x"

text \<open>\<open>Option::context(msg)\<close> and \<open>Option::ok_or_else\<close>.\<close>

fun ok_or :: "string \<Rightarrow> 'a option \<Rightarrow> 'a result" where
  "ok_or msg None = Inl (Anyhow [msg])"
| "ok_or msg (Some x) = Inr x"

lemmas result_combinators [result_simps] =
  and_then.simps with_context.simps from_lib.simps ok_or.simps bail_def panic_def

lemma and_then_Inr [result_simps]:
  "and_then r f = Inr y \<longleftrightarrow> (\<exists>x. r = Inr x \<and> f x = Inr y)"
  by (cases r) auto

lemma with_context_Inr [result_simps]: "with_context msg r = Inr y \<longleftrightarrow> r = Inr y"
  by (cases "(msg, r)" rule: with_context.cases) auto

lemma with_context_Inl_not_Inr: "with_context msg (Inl e) \<noteq> Inr y"
  by (cases e) auto

lemma from_lib_Inr [result_simps]: "from_lib r = Inr y \<longleftrightarrow> r = Inr y"
  by (cases r) auto

lemma ok_or_Inr [result_simps]: "ok_or msg v = Inr y \<longleftrightarrow> v = Some y"
  by (cases v) auto

section \<open>Code with effects\<close>

text \<open>
  An \<open>async\<close> function awaits calls of code outside the repository (the CLN socket,
  the broker, the storage client, the clock). It takes the state of that outside world
  and returns its result with the world after it; an error leaves the world as the calls
  made so far left it.
\<close>

type_synonym ('w, 'a) io = "'w \<Rightarrow> 'a result \<times> 'w"

definition io_return :: "'a \<Rightarrow> ('w, 'a) io" where
  "io_return x w = (Inr x, w)"

definition io_lift :: "'a result \<Rightarrow> ('w, 'a) io" where
  "io_lift r w = (r, w)"

definition io_bind :: "('w, 'a) io \<Rightarrow> ('a \<Rightarrow> ('w, 'b) io) \<Rightarrow> ('w, 'b) io" where
  "io_bind m f w = (case m w of (Inl e, w') \<Rightarrow> (Inl e, w') | (Inr x, w') \<Rightarrow> f x w')"

text \<open>A call whose failure is handled (\<open>if let Err(e) = ...\<close> or \<open>match\<close>).\<close>

definition io_catch :: "('w, 'a) io \<Rightarrow> ('a result \<Rightarrow> ('w, 'b) io) \<Rightarrow> ('w, 'b) io" where
  "io_catch m f w = (case m w of (r, w') \<Rightarrow> f r w')"

definition io_context :: "string \<Rightarrow> ('w, 'a) io \<Rightarrow> ('w, 'a) io" where
  "io_context msg m w = (case m w of (r, w') \<Rightarrow> (with_context msg r, w'))"

text \<open>A library call with an error type of its own, under \<open>?\<close>.\<close>

definition io_lib :: "('w \<Rightarrow> (string + 'a) \<times> 'w) \<Rightarrow> ('w, 'a) io" where
  "io_lib m w = (case m w of (r, w') \<Rightarrow> (from_lib r, w'))"

text \<open>A reading that cannot fail (the clock, a random identifier).\<close>

definition io_read :: "('w \<Rightarrow> 'a \<times> 'w) \<Rightarrow> ('w, 'a) io" where
  "io_read m w = (case m w of (x, w') \<Rightarrow> (Inr x, w'))"

lemma io_return_eq [io_simps]: "io_return x w = (Inr x, w)"
  by (simp add: io_return_def)

lemma io_lift_eq [io_simps]: "io_lift r w = (r, w)"
  by (simp add: io_lift_def)

lemma io_bind_run [io_simps]:
  "m w = (Inr x, w') \<Longrightarrow> io_bind m f w = f x w'"
  "m w = (Inl e, w') \<Longrightarrow> io_bind m f w = (Inl e, w')"
  by (simp_all add: io_bind_def)

lemma io_bind_Inr [io_simps]:
  "io_bind m f w = (Inr y, w2) \<longleftrightarrow> (\<exists>x w1. m w = (Inr x, w1) \<and> f x w1 = (Inr y, w2))"
  by (auto simp: io_bind_def split: prod.splits sum.splits)

lemma io_context_Inr [io_simps]: "io_context msg m w = (Inr y, w') \<longleftrightarrow> m w = (Inr y, w')"
  by (auto simp: io_context_def result_simps split: prod.splits)

lemma io_lib_Inr [io_simps]: "io_lib m w = (Inr y, w') \<longleftrightarrow> m w = (Inr y, w')"
  by (auto simp: io_lib_def result_simps split: prod.splits)

lemma io_read_Inr [io_simps]: "io_read m w = (Inr y, w') \<longleftrightarrow> m w = (y, w')"
  by (auto simp: io_read_def split: prod.splits)

lemma io_context_run [io_simps]:
  "m w = (Inr x, w') \<Longrightarrow> io_context msg m w = (Inr x, w')"
  by (simp add: io_context_def)

text \<open>The next step of a call that is known to succeed, to run code one call at a time.\<close>

lemma io_next:
  "m w = (Inr x, w') \<Longrightarrow> io_bind (io_lib m) f w = f x w'"
  "io_bind (io_lift (Inr x)) f w = f x w"
  by (simp_all add: io_bind_def io_lib_def io_lift_def)

section \<open>Loops that may stop with an error\<close>

fun fold_result :: "('s \<Rightarrow> 'a \<Rightarrow> 's result) \<Rightarrow> 's \<Rightarrow> 'a list \<Rightarrow> 's result" where
  "fold_result f s [] = Inr s"
| "fold_result f s (x # xs) = and_then (f s x) (\<lambda>s'. fold_result f s' xs)"

lemma fold_result_append:
  "fold_result f s (xs @ ys) = and_then (fold_result f s xs) (\<lambda>s'. fold_result f s' ys)"
proof (induction xs arbitrary: s)
  case (Cons x xs)
  then show ?case by (cases "f s x") simp_all
qed simp

text \<open>The same step on every element, the results in order.\<close>

fun map_result :: "('a \<Rightarrow> 'b result) \<Rightarrow> 'a list \<Rightarrow> 'b list result" where
  "map_result f [] = Inr []"
| "map_result f (x # xs) = and_then (f x) (\<lambda>y. and_then (map_result f xs) (\<lambda>ys. Inr (y # ys)))"

lemma map_result_Inr: "map_result f xs = Inr ys \<longleftrightarrow> list_all2 (\<lambda>x y. f x = Inr y) xs ys"
  by (induction xs arbitrary: ys) (auto simp: result_simps list_all2_Cons1)

lemma map_result_total: "(\<And>x. x \<in> set xs \<Longrightarrow> \<exists>y. f x = Inr y) \<Longrightarrow> \<exists>ys. map_result f xs = Inr ys"
proof (induction xs)
  case (Cons x xs)
  then obtain y ys where "f x = Inr y" "map_result f xs = Inr ys" by (metis list.set_intros)
  then show ?case by simp
qed simp

section \<open>The first success of a search\<close>

text \<open>\<open>Iterator::find_map\<close>.\<close>

fun find_map :: "('a \<Rightarrow> 'b option) \<Rightarrow> 'a list \<Rightarrow> 'b option" where
  "find_map f [] = None"
| "find_map f (x # xs) = (case f x of Some y \<Rightarrow> Some y | None \<Rightarrow> find_map f xs)"

lemma find_map_SomeI:
  "f x = Some y \<Longrightarrow> (\<forall>u\<in>set us. f u = None) \<Longrightarrow> find_map f (us @ x # vs) = Some y"
  by (induction us) auto

lemma find_map_SomeE:
  assumes "find_map f xs = Some y"
  obtains us x vs where "xs = us @ x # vs" "f x = Some y" "\<forall>u\<in>set us. f u = None"
  using assms
proof (induction xs arbitrary: thesis)
  case (Cons x xs)
  show ?case
  proof (cases "f x")
    case None
    with Cons.prems(2) have "find_map f xs = Some y" by simp
    then obtain us x' vs where "xs = us @ x' # vs" "f x' = Some y" "\<forall>u\<in>set us. f u = None"
      using Cons.IH by blast
    with None show ?thesis by (intro Cons.prems(1) [of "x # us" x' vs]) auto
  next
    case (Some z)
    with Cons.prems show ?thesis by (intro Cons.prems(1) [of "[]" x xs]) auto
  qed
qed simp

lemma find_map_None: "find_map f xs = None \<longleftrightarrow> (\<forall>x\<in>set xs. f x = None)"
  by (induction xs) (auto split: option.splits)

lemma find_map_cong [fundef_cong]:
  "xs = ys \<Longrightarrow> (\<And>x. x \<in> set ys \<Longrightarrow> f x = g x) \<Longrightarrow> find_map f xs = find_map g ys"
  by (induction ys arbitrary: xs) (auto split: option.split)

lemma find_map_set: "find_map f xs = Some y \<Longrightarrow> \<exists>x\<in>set xs. f x = Some y"
  by (auto elim: find_map_SomeE)

section \<open>Pointwise related lists\<close>

lemma map_eq_of_list_all2:
  "list_all2 R xs ys \<Longrightarrow> (\<And>x y. R x y \<Longrightarrow> f x = g y) \<Longrightarrow> map f xs = map g ys"
  by (induction rule: list_all2_induct) auto

lemma list_all2_of_map_eq:
  "map f xs = map g ys \<Longrightarrow> (\<And>x y. x \<in> set xs \<Longrightarrow> f x = g y \<Longrightarrow> R x y) \<Longrightarrow> list_all2 R xs ys"
proof (induction xs arbitrary: ys)
  case (Cons x xs)
  then obtain y zs where "ys = y # zs" "f x = g y" "map f xs = map g zs" by (cases ys) auto
  with Cons show ?case by simp
qed simp

end
