(* ===== verification/RustStr.thy ===== *)
theory RustStr
  imports Prelude "HOL-Library.Sublist" "HOL-Library.Word"
begin

text \<open>
  Rust's \<open>str\<close> and the \<open>std\<close> string operations the plugins use. A string is
  its UTF-8 encoding, one \<open>char\<close> of HOL per byte, so that \<open>len\<close>,
  \<open>as_bytes\<close>, \<open>contains\<close>, \<open>strip_prefix\<close> and \<open>split\<close> at an ASCII
  separator are the list operations. \<open>trim\<close> knows the encodings of Unicode's white
  space; \<open>to_lowercase\<close> is exact on ASCII and takes the Unicode table of \<open>std\<close>
  for everything else as an argument.
\<close>

named_theorems str_simps \<open>equations of the string operations\<close>

type_synonym u8 = "8 word"

section \<open>Bytes\<close>

definition as_bytes :: "string \<Rightarrow> u8 list" where
  "as_bytes s = map of_char s"

lemma length_as_bytes [simp]: "length (as_bytes s) = length s"
  by (simp add: as_bytes_def)

lemma unat_of_char_u8: "unat (of_char c :: u8) = of_char c"
proof -
  have "unat (of_nat (of_char c) :: u8) = of_char c"
    by (subst unat_of_nat) (simp add: take_bit_eq_mod)
  then show ?thesis by (simp add: of_nat_of_char)
qed

lemma of_char_u8_inject: "(of_char c :: u8) = of_char d \<longleftrightarrow> c = d"
  by (metis unat_of_char_u8 of_char_eq_iff)

lemma as_bytes_inject [simp]: "as_bytes s = as_bytes t \<longleftrightarrow> s = t"
proof
  assume "as_bytes s = as_bytes t"
  then show "s = t"
    unfolding as_bytes_def
    by (rule map_injective) (auto simp: inj_def of_char_u8_inject)
qed simp

definition is_ascii :: "string \<Rightarrow> bool" where
  "is_ascii s \<longleftrightarrow> (\<forall>c\<in>set s. (of_char c :: nat) < 128)"

section \<open>UTF-8 validity\<close>

definition cont_byte :: "nat \<Rightarrow> bool" where
  "cont_byte b \<longleftrightarrow> 0x80 \<le> b \<and> b \<le> 0xBF"

text \<open>
  The well-formed sequences of \<open>core::str::from_utf8\<close>: no overlong forms, no
  surrogates, nothing above U+10FFFF.
\<close>

fun utf8_valid :: "nat list \<Rightarrow> bool" where
  "utf8_valid [] = True"
| "utf8_valid (b # bs) =
    (if b < 0x80 then utf8_valid bs
     else if 0xC2 \<le> b \<and> b \<le> 0xDF then
       (case bs of c1 # r \<Rightarrow> cont_byte c1 \<and> utf8_valid r | _ \<Rightarrow> False)
     else if 0xE0 \<le> b \<and> b \<le> 0xEF then
       (case bs of c1 # c2 # r \<Rightarrow>
          (if b = 0xE0 then 0xA0 \<le> c1 \<and> c1 \<le> 0xBF
           else if b = 0xED then 0x80 \<le> c1 \<and> c1 \<le> 0x9F
           else cont_byte c1) \<and> cont_byte c2 \<and> utf8_valid r
        | _ \<Rightarrow> False)
     else if 0xF0 \<le> b \<and> b \<le> 0xF4 then
       (case bs of c1 # c2 # c3 # r \<Rightarrow>
          (if b = 0xF0 then 0x90 \<le> c1 \<and> c1 \<le> 0xBF
           else if b = 0xF4 then 0x80 \<le> c1 \<and> c1 \<le> 0x8F
           else cont_byte c1) \<and> cont_byte c2 \<and> cont_byte c3 \<and> utf8_valid r
        | _ \<Rightarrow> False)
     else False)"

definition from_utf8 :: "u8 list \<Rightarrow> string option" where
  "from_utf8 bs =
    (if utf8_valid (map unat bs) then Some (map (\<lambda>b. char_of (unat b)) bs) else None)"

lemma utf8_valid_ascii: "\<forall>b\<in>set bs. b < 0x80 \<Longrightarrow> utf8_valid bs"
  by (induction bs) auto

lemma from_utf8_as_bytes: "is_ascii s \<Longrightarrow> from_utf8 (as_bytes s) = Some s"
  by (auto simp: from_utf8_def as_bytes_def is_ascii_def unat_of_char_u8 comp_def
      intro!: utf8_valid_ascii map_idI)

lemma from_utf8_length: "from_utf8 bs = Some s \<Longrightarrow> length s = length bs"
  by (auto simp: from_utf8_def split: if_splits)

section \<open>Searching and splitting\<close>

text \<open>\<open>haystack.contains(needle)\<close> is \<open>sublist needle haystack\<close> of the library.\<close>

definition strip_prefix :: "string \<Rightarrow> string \<Rightarrow> string option" where
  "strip_prefix pat s = (if prefix pat s then Some (drop (length pat) s) else None)"

lemma strip_prefix_Some [str_simps]: "strip_prefix pat s = Some r \<longleftrightarrow> s = pat @ r"
  by (auto simp: strip_prefix_def prefix_def)

lemma strip_prefix_append [simp]: "strip_prefix pat (pat @ r) = Some r"
  by (simp add: str_simps)

text \<open>\<open>s.split(p)\<close> for a predicate on ASCII characters: always at least one piece.\<close>

fun split_on :: "(char \<Rightarrow> bool) \<Rightarrow> string \<Rightarrow> string list" where
  "split_on p [] = [[]]"
| "split_on p (c # cs) =
    (if p c then [] # split_on p cs
     else (case split_on p cs of [] \<Rightarrow> [[c]] | w # ws \<Rightarrow> (c # w) # ws))"

lemma split_on_nonempty [simp]: "split_on p s \<noteq> []"
  by (induction s) (auto split: list.split)

lemma split_on_none: "\<forall>c\<in>set s. \<not> p c \<Longrightarrow> split_on p s = [s]"
  by (induction s) auto

lemma split_on_append_sep:
  "\<forall>c\<in>set w. \<not> p c \<Longrightarrow> p d \<Longrightarrow> split_on p (w @ d # s) = w # split_on p s"
  by (induction w) auto

lemma split_on_pieces: "w \<in> set (split_on p s) \<Longrightarrow> c \<in> set w \<Longrightarrow> \<not> p c \<and> c \<in> set s"
proof (induction s arbitrary: w)
  case (Cons a s)
  then show ?case
    by (cases "split_on p s") (fastforce split: if_splits)+
qed simp

lemma split_on_sublist: "w \<in> set (split_on p s) \<Longrightarrow> sublist w s"
proof (induction s arbitrary: w)
  case (Cons a s)
  obtain v vs where v: "split_on p s = v # vs" by (cases "split_on p s") auto
  have pre: "prefix v s"
    using v by (induction s arbitrary: v vs) (auto split: if_splits list.splits)
  have tl: "sublist u (a # s)" if "u \<in> set (v # vs)" for u
    using Cons.IH [of u] that v by (simp add: sublist_Cons_right)
  show ?case
  proof (cases "p a")
    case True
    with Cons.prems v tl show ?thesis by auto
  next
    case False
    with Cons.prems v have "w = a # v \<or> w \<in> set vs" by simp
    then show ?thesis
      using pre tl by (auto simp: sublist_Cons_right)
  qed
qed simp

text \<open>\<open>lines.join(sep)\<close>.\<close>

fun join :: "string \<Rightarrow> string list \<Rightarrow> string" where
  "join sep [] = []"
| "join sep [x] = x"
| "join sep (x # y # ys) = x @ sep @ join sep (y # ys)"

lemma split_on_join:
  assumes "xs \<noteq> []" and "\<forall>x\<in>set xs. \<forall>c\<in>set x. \<not> p c" and "p d"
  shows "split_on p (join [d] xs) = xs"
  using assms(1,2)
proof (induction "[d]" xs rule: join.induct)
  case (3 x y ys)
  then show ?case using assms(3) by (simp add: split_on_append_sep)
qed (auto simp: split_on_none)

section \<open>Trimming\<close>

text \<open>The UTF-8 encodings of the characters with Unicode's property White\_Space.\<close>

definition white_space :: "string list" where
  "white_space =
    [[CHR 0x09], [CHR 0x0A], [CHR 0x0B], [CHR 0x0C], [CHR 0x0D], [CHR 0x20],
     [CHR 0xC2, CHR 0x85], [CHR 0xC2, CHR 0xA0], [CHR 0xE1, CHR 0x9A, CHR 0x80],
     [CHR 0xE2, CHR 0x80, CHR 0x80], [CHR 0xE2, CHR 0x80, CHR 0x81],
     [CHR 0xE2, CHR 0x80, CHR 0x82], [CHR 0xE2, CHR 0x80, CHR 0x83],
     [CHR 0xE2, CHR 0x80, CHR 0x84], [CHR 0xE2, CHR 0x80, CHR 0x85],
     [CHR 0xE2, CHR 0x80, CHR 0x86], [CHR 0xE2, CHR 0x80, CHR 0x87],
     [CHR 0xE2, CHR 0x80, CHR 0x88], [CHR 0xE2, CHR 0x80, CHR 0x89],
     [CHR 0xE2, CHR 0x80, CHR 0x8A], [CHR 0xE2, CHR 0x80, CHR 0xA8],
     [CHR 0xE2, CHR 0x80, CHR 0xA9], [CHR 0xE2, CHR 0x80, CHR 0xAF],
     [CHR 0xE2, CHR 0x81, CHR 0x9F], [CHR 0xE3, CHR 0x80, CHR 0x80]]"

text \<open>Drop, from the front, every word of a list as long as one of them is there.\<close>

function drop_words :: "string list \<Rightarrow> string \<Rightarrow> string" where
  "drop_words ws s =
    (case find (\<lambda>w. w \<noteq> [] \<and> prefix w s) ws of
       None \<Rightarrow> s
     | Some w \<Rightarrow> (if w \<noteq> [] \<and> prefix w s then drop_words ws (drop (length w) s) else s))"
  by pat_completeness auto
termination
  by (relation "measure (\<lambda>(ws, s). length s)") (auto simp: prefix_def)

declare drop_words.simps [simp del]

definition trim_start :: "string \<Rightarrow> string" where
  "trim_start s = drop_words white_space s"

definition trim_end :: "string \<Rightarrow> string" where
  "trim_end s = rev (drop_words (map rev white_space) (rev s))"

definition trim :: "string \<Rightarrow> string" where
  "trim s = trim_end (trim_start s)"

text \<open>A string is trimmed when it neither starts nor ends with white space.\<close>

definition trimmed :: "string \<Rightarrow> bool" where
  "trimmed s \<longleftrightarrow> (\<forall>w\<in>set white_space. \<not> prefix w s \<and> \<not> suffix w s)"

lemma white_space_nonempty: "w \<in> set white_space \<Longrightarrow> w \<noteq> []"
  by (auto simp: white_space_def)

lemma drop_words_None:
  "find (\<lambda>w. w \<noteq> [] \<and> prefix w s) ws = None \<Longrightarrow> drop_words ws s = s"
  by (subst drop_words.simps) simp

lemma drop_words_Some:
  assumes "find (\<lambda>w. w \<noteq> [] \<and> prefix w s) ws = Some v"
  shows "drop_words ws s = drop_words ws (drop (length v) s)" and "v \<noteq> []" and "prefix v s"
proof -
  show "v \<noteq> []" and "prefix v s" using assms by (auto simp: find_Some_iff)
  then show "drop_words ws s = drop_words ws (drop (length v) s)"
    by (subst drop_words.simps) (simp add: assms)
qed

lemma drop_words_stop:
  "\<forall>w\<in>set ws. w \<noteq> [] \<longrightarrow> \<not> prefix w s \<Longrightarrow> drop_words ws s = s"
  by (rule drop_words_None) (auto simp: find_None_iff)

lemma drop_words_done: "w \<in> set ws \<Longrightarrow> w \<noteq> [] \<Longrightarrow> \<not> prefix w (drop_words ws s)"
proof (induction ws s rule: drop_words.induct)
  case (1 ws s)
  show ?case
  proof (cases "find (\<lambda>w. w \<noteq> [] \<and> prefix w s) ws")
    case None
    with "1.prems" show ?thesis by (auto simp: find_None_iff drop_words_None)
  next
    case (Some v)
    note v = drop_words_Some [OF Some]
    have "\<not> prefix w (drop_words ws (drop (length v) s))"
      using "1.IH" [OF Some] v(2,3) "1.prems" by blast
    then show ?thesis by (subst v(1))
  qed
qed

lemma drop_words_suffix: "suffix (drop_words ws s) s"
proof (induction ws s rule: drop_words.induct)
  case (1 ws s)
  show ?case
  proof (cases "find (\<lambda>w. w \<noteq> [] \<and> prefix w s) ws")
    case None
    then show ?thesis by (simp add: drop_words_None)
  next
    case (Some v)
    note v = drop_words_Some [OF Some]
    have "suffix (drop_words ws (drop (length v) s)) (drop (length v) s)"
      using "1.IH" [OF Some] v(2,3) by blast
    then show ?thesis unfolding v(1)
      by (rule suffix_order.trans) (rule suffix_drop)
  qed
qed

lemma trim_start_trimmed: "\<forall>w\<in>set white_space. \<not> prefix w s \<Longrightarrow> trim_start s = s"
  by (simp add: trim_start_def drop_words_stop)

lemma trim_end_trimmed: "\<forall>w\<in>set white_space. \<not> suffix w s \<Longrightarrow> trim_end s = s"
  by (auto simp: trim_end_def drop_words_stop suffix_to_prefix)

lemma trim_trimmed [simp]: "trimmed s \<Longrightarrow> trim s = s"
  by (simp add: trim_def trimmed_def trim_start_trimmed trim_end_trimmed)

lemma trim_sublist: "sublist (trim s) s"
proof -
  have "prefix (trim_end t) t" for t
    using drop_words_suffix [of "map rev white_space" "rev t"]
    by (simp add: trim_end_def suffix_to_prefix)
  moreover have "suffix (trim_start s) s"
    by (simp add: trim_start_def drop_words_suffix)
  ultimately show ?thesis
    unfolding trim_def by (metis sublist_appendI prefixE suffixE append_assoc)
qed

text \<open>
  Trimming leaves no white space at either end: dropping it at the end cannot uncover any
  at the front, since what remains is a prefix of a string without it.
\<close>

lemma trimmed_trim [simp]: "trimmed (trim s)"
proof -
  let ?t = "trim_start s"
  have front: "\<not> prefix w ?t" if "w \<in> set white_space" for w
    using drop_words_done that white_space_nonempty by (simp add: trim_start_def)
  have pre: "prefix (trim_end ?t) ?t"
    using drop_words_suffix [of "map rev white_space" "rev ?t"]
    by (simp add: trim_end_def suffix_to_prefix)
  have rear: "\<not> suffix w (trim_end ?t)" if "w \<in> set white_space" for w
  proof -
    from that white_space_nonempty have "rev w \<in> set (map rev white_space)" "rev w \<noteq> []" by auto
    then have "\<not> prefix (rev w) (drop_words (map rev white_space) (rev ?t))"
      by (rule drop_words_done)
    then show ?thesis by (simp add: trim_end_def suffix_to_prefix)
  qed
  have "\<not> prefix w (trim_end ?t)" if "w \<in> set white_space" for w
    using front [OF that] pre prefix_order.trans by blast
  with rear show ?thesis by (simp add: trimmed_def trim_def)
qed

text \<open>Blanks around a word with no white space at its ends are trimmed away.\<close>

lemma drop_words_blanks:
  assumes "find (\<lambda>w. w \<noteq> [] \<and> prefix w (CHR '' '' # s)) ws = Some [CHR '' '']"
  shows "drop_words ws (CHR '' '' # s) = drop_words ws s"
  using drop_words_Some(1) [OF assms] by simp

lemma trim_start_blanks: "trim_start (replicate n (CHR '' '') @ s) = trim_start s"
  unfolding trim_start_def
  by (induction n) (simp_all add: drop_words_blanks white_space_def)

lemma trim_end_blanks: "trim_end (s @ replicate n (CHR '' '')) = trim_end s"
proof -
  have "drop_words (map rev white_space) (replicate n (CHR '' '') @ t)
      = drop_words (map rev white_space) t" for t
    by (induction n) (simp_all add: drop_words_blanks white_space_def)
  then show ?thesis by (simp add: trim_end_def)
qed

lemma white_space_blank: "w @ [CHR '' ''] \<in> set white_space \<Longrightarrow> w = []"
  by (auto simp: white_space_def append_eq_Cons_conv)

lemma trim_padded:
  assumes "trimmed m" and "m \<noteq> []"
  shows "trim (replicate a (CHR '' '') @ m @ replicate b (CHR '' '')) = m"
proof -
  have "\<not> prefix w (m @ replicate b (CHR '' ''))" if w: "w \<in> set white_space" for w
  proof
    assume "prefix w (m @ replicate b (CHR '' ''))"
    then consider "prefix w m" | us where "w = m @ us" "us \<noteq> []" "prefix us (replicate b (CHR '' ''))"
      unfolding prefix_append by (metis append_Nil2 prefix_order.refl)
    then show False
    proof cases
      case 1
      with assms(1) w show False by (simp add: trimmed_def)
    next
      case (2 us)
      then have "last us = CHR '' ''"
        using set_mono_prefix [OF 2(3)] last_in_set [OF 2(2)] by (auto dest!: subsetD split: if_splits)
      then have "w = (m @ butlast us) @ [CHR '' '']"
        using 2(1,2) by (metis append_assoc append_butlast_last_id)
      with white_space_blank w have "m @ butlast us = []" by metis
      with assms(2) show False by simp
    qed
  qed
  then have "trim_start (m @ replicate b (CHR '' '')) = m @ replicate b (CHR '' '')"
    by (intro trim_start_trimmed) blast
  then show ?thesis
    using assms(1) by (simp add: trim_def trim_start_blanks trim_end_blanks trimmed_def trim_end_trimmed)
qed

section \<open>Lower case\<close>

text \<open>
  \<open>str::to_lowercase\<close>. On an ASCII byte it is \<open>ascii_lower\<close>. For the bytes of any
  other character it asks a table, which is given the bytes before and after: the table
  emits the lower-case form at the first byte of a character and nothing at the others, and
  the context is what \<open>std\<close> looks at for the final sigma. Every property is proved for
  all tables, hence for the one of \<open>std\<close>.
\<close>

type_synonym lower_table = "string \<Rightarrow> char \<Rightarrow> string \<Rightarrow> string"

definition ascii_lower :: "char \<Rightarrow> char" where
  "ascii_lower c =
    (if 65 \<le> (of_char c :: nat) \<and> (of_char c :: nat) \<le> 90
     then char_of ((of_char c :: nat) + 32) else c)"

fun lower_from :: "lower_table \<Rightarrow> string \<Rightarrow> string \<Rightarrow> string" where
  "lower_from tbl before [] = []"
| "lower_from tbl before (c # after) =
    (if (of_char c :: nat) < 128 then [ascii_lower c] else tbl before c after)
      @ lower_from tbl (before @ [c]) after"

definition to_lowercase :: "lower_table \<Rightarrow> string \<Rightarrow> string" where
  "to_lowercase tbl s = lower_from tbl [] s"

lemma eq_char_of_iff: "c = char_of n \<longleftrightarrow> take_bit 8 n = of_char c"
  by (metis char_of_eq_iff)

lemmas char_eval = char_of_eq_iff eq_char_of_iff

lemma lower_from_ascii: "is_ascii s \<Longrightarrow> lower_from tbl b s = map ascii_lower s"
  by (induction s arbitrary: b) (auto simp: is_ascii_def)

lemma to_lowercase_ascii: "is_ascii s \<Longrightarrow> to_lowercase tbl s = map ascii_lower s"
  by (simp add: to_lowercase_def lower_from_ascii)

lemma lower_from_ascii_append:
  "is_ascii n \<Longrightarrow> lower_from tbl b (n @ t) = map ascii_lower n @ lower_from tbl (b @ n) t"
  by (induction n arbitrary: b) (auto simp: is_ascii_def)

lemma lower_from_split: "\<exists>u. lower_from tbl b (p @ s) = u @ lower_from tbl (b @ p) s"
proof (induction p arbitrary: b)
  case (Cons c p)
  obtain u where "lower_from tbl (b @ [c]) (p @ s) = u @ lower_from tbl (b @ [c] @ p) s"
    using Cons.IH [of "b @ [c]"] by auto
  then show ?case by simp
qed simp

text \<open>An ASCII word inside a string is there, in lower case, after \<open>to_lowercase\<close>.\<close>

lemma sublist_to_lowercase:
  assumes "is_ascii n" and "sublist n s"
  shows "sublist (map ascii_lower n) (to_lowercase tbl s)"
proof -
  obtain p q where s: "s = p @ n @ q" using assms(2) by (auto simp: sublist_def)
  obtain u where "to_lowercase tbl s = u @ lower_from tbl p (n @ q)"
    using lower_from_split [of tbl "[]" p "n @ q"] by (auto simp: s to_lowercase_def)
  then show ?thesis
    by (simp add: lower_from_ascii_append [OF assms(1)] sublist_appendI)
qed

end
