(* ===== verification/Json.thy ===== *)
theory Json
  imports RustStr
begin

text \<open>
  JSON documents as the plugins hold them: the public enum \<open>serde_json::Value\<close>.
  No crate of the workspace turns on \<open>preserve_order\<close>, so a \<open>serde_json::Map\<close>
  is a B-tree: a list of entries in the order it is iterated, each key once
  (\<open>json_wf\<close>). A place inside a document is a path of keys and indices; the
  properties of the rewriting and searching functions are stated over paths.
\<close>

datatype number = PosInt "64 word" | NegInt "64 word" | Float "64 word"

datatype json =
    JNull
  | JBool bool
  | JNumber number
  | JString string
  | JArray "json list"
  | JObject "(string \<times> json) list"

text \<open>\<open>cln_rpc::primitives::JsonObjectOrArray\<close>, the type of an RPC's parameters.\<close>

datatype json_object_or_array = Object "(string \<times> json) list" | Array "json list"

fun to_value :: "json_object_or_array \<Rightarrow> json" where
  "to_value (Object m) = JObject m"
| "to_value (Array xs) = JArray xs"

text \<open>\<open>json!({"result": "continue"})\<close>, the answer that lets lightningd go on.\<close>

definition json_continue :: json where
  "json_continue = JObject [(''result'', JString ''continue'')]"

section \<open>Termination of recursions over documents\<close>

lemma size_object_entry [termination_simp]:
  "(k, v) \<in> set m \<Longrightarrow> size v < Suc (size_list (size_prod (\<lambda>x. 0) size) m)"
proof (induction m)
  case (Cons e m)
  then show ?case by (cases e) auto
qed simp

lemma size_array_entry [termination_simp]: "v \<in> set xs \<Longrightarrow> size v < Suc (size_list size xs)"
  by (induction xs) auto

section \<open>Paths\<close>

datatype path_step = Key string | Idx nat

fun json_at :: "path_step list \<Rightarrow> json \<Rightarrow> json option" where
  "json_at [] j = Some j"
| "json_at (Key k # p) (JObject m) = (case map_of m k of None \<Rightarrow> None | Some v \<Rightarrow> json_at p v)"
| "json_at (Idx i # p) (JArray xs) = (if i < length xs then json_at p (xs ! i) else None)"
| "json_at _ _ = None"

lemma json_at_Cons:
  "json_at (s # p) j = (case json_at [s] j of None \<Rightarrow> None | Some v \<Rightarrow> json_at p v)"
  by (cases s; cases j) (auto split: option.split)

text \<open>Every object of the document has each key once.\<close>

fun json_wf :: "json \<Rightarrow> bool" where
  "json_wf (JArray xs) = (\<forall>v\<in>set xs. json_wf v)"
| "json_wf (JObject m) = (distinct (map fst m) \<and> (\<forall>(k, v)\<in>set m. json_wf v))"
| "json_wf _ = True"

text \<open>The name under which a function that recurses over a document sees the value at a path.\<close>

fun step_key :: "path_step \<Rightarrow> string" where
  "step_key (Key k) = k"
| "step_key (Idx i) = []"

definition final_key :: "string \<Rightarrow> path_step list \<Rightarrow> string" where
  "final_key key p = (if p = [] then key else step_key (last p))"

lemma final_key_simps [simp]:
  "final_key key [] = key"
  "final_key key (s # p) = final_key (step_key s) p"
  by (simp_all add: final_key_def)

text \<open>No name on the way to the end of a path (the end itself apart) satisfies a predicate.\<close>

fun open_path :: "(string \<Rightarrow> bool) \<Rightarrow> string \<Rightarrow> path_step list \<Rightarrow> bool" where
  "open_path P key [] = True"
| "open_path P key (s # p) = (\<not> P key \<and> open_path P (step_key s) p)"

lemma json_wf_at: "json_wf j \<Longrightarrow> json_at p j = Some v \<Longrightarrow> json_wf v"
proof (induction p j rule: json_at.induct)
  case (2 k p m)
  then show ?case by (auto split: option.splits dest!: map_of_SomeD)
next
  case (3 i p xs)
  then show ?case by (auto split: if_splits)
qed auto

text \<open>An induction that follows the recursion of the JSON functions: one case per constructor.\<close>

lemma json_induct [case_names JNull JBool JNumber JString JArray JObject]:
  assumes "P JNull" and "\<And>b. P (JBool b)" and "\<And>n. P (JNumber n)" and "\<And>s. P (JString s)"
    and "\<And>xs. (\<And>v. v \<in> set xs \<Longrightarrow> P v) \<Longrightarrow> P (JArray xs)"
    and "\<And>m. (\<And>k v. (k, v) \<in> set m \<Longrightarrow> P v) \<Longrightarrow> P (JObject m)"
  shows "P j"
proof (induction j rule: measure_induct_rule [where f = size])
  case (less j)
  show ?case
  proof (cases j)
    case (JArray xs)
    have "P v" if "v \<in> set xs" for v
      using less.IH [of v] size_array_entry [OF that] JArray by simp
    with assms(5) show ?thesis by (simp add: JArray)
  next
    case (JObject m)
    have "P v" if "(k, v) \<in> set m" for k v
      using less.IH [of v] size_object_entry [OF that] JObject by simp
    with assms(6) show ?thesis by (simp add: JObject)
  qed (use assms in simp_all)
qed

text \<open>
  The recursion all these functions share, as an interface: a key-directed rewriting keeps
  the shape of a document outside the keys it decides to overwrite. Its client lemmas say
  what is found at each path of the rewritten document.
\<close>

locale key_rewriting =
  fixes overwrite :: "string \<Rightarrow> bool"
    and mask :: json
    and rewrite :: "string \<Rightarrow> json \<Rightarrow> json"
  assumes mask_leaf: "\<And>s p. json_at (s # p) mask = None"
    and rewrite_hit: "\<And>key j. overwrite key \<Longrightarrow> rewrite key j = mask"
    and rewrite_object:
      "\<And>key m. \<not> overwrite key \<Longrightarrow> rewrite key (JObject m) = JObject (map (\<lambda>(k, v). (k, rewrite k v)) m)"
    and rewrite_array:
      "\<And>key xs. \<not> overwrite key \<Longrightarrow> rewrite key (JArray xs) = JArray (map (rewrite []) xs)"
    and rewrite_leaf:
      "\<And>key j. \<not> overwrite key \<Longrightarrow> (\<forall>m. j \<noteq> JObject m) \<Longrightarrow> (\<forall>xs. j \<noteq> JArray xs) \<Longrightarrow> rewrite key j = j"
begin

lemma map_of_rewrite: "map_of (map (\<lambda>(k, v). (k, rewrite k v)) m) k = map_option (rewrite k) (map_of m k)"
  by (induction m) auto

lemma rewrite_step:
  assumes "\<not> overwrite key"
  shows "json_at [s] (rewrite key j) = map_option (rewrite (step_key s)) (json_at [s] j)"
proof (cases "(\<exists>m. j = JObject m) \<or> (\<exists>xs. j = JArray xs)")
  case True
  then show ?thesis
    using assms by (cases s) (auto simp: rewrite_object rewrite_array map_of_rewrite split: option.split)
next
  case False
  then have "rewrite key j = j" using assms by (intro rewrite_leaf) auto
  moreover have "json_at [s] j = None" using False by (cases j; cases s) auto
  ultimately show ?thesis by simp
qed

text \<open>Where no key before the last one is overwritten, a path leads to the rewritten value.\<close>

lemma rewrite_at:
  "open_path overwrite key p \<Longrightarrow>
     json_at p (rewrite key j) = map_option (rewrite (final_key key p)) (json_at p j)"
proof (induction p arbitrary: key j)
  case (Cons s p)
  then have "\<not> overwrite key" and p: "open_path overwrite (step_key s) p" by simp_all
  then show ?case
    unfolding json_at_Cons [of s p] rewrite_step [OF \<open>\<not> overwrite key\<close>]
    using Cons.IH [OF p] by (simp split: option.split)
qed simp

text \<open>What stands under an overwritten key, wherever that is, is the mask.\<close>

lemma rewrite_masked:
  "overwrite (final_key key p) \<Longrightarrow> json_at p (rewrite key j) = Some v \<Longrightarrow> v = mask"
proof (induction p arbitrary: key j)
  case Nil
  then show ?case by (simp add: rewrite_hit)
next
  case (Cons s p)
  show ?case
  proof (cases "overwrite key")
    case True
    with Cons.prems show ?thesis by (simp add: rewrite_hit mask_leaf)
  next
    case False
    obtain u where u: "json_at [s] (rewrite key j) = Some u" "json_at p u = Some v"
      using Cons.prems(2) unfolding json_at_Cons [of s p] by (auto split: option.splits)
    from rewrite_step [OF False, of s j] u(1)
    have "map_option (rewrite (step_key s)) (json_at [s] j) = Some u" by simp
    then obtain w where "u = rewrite (step_key s) w" by auto
    with Cons.IH [of "step_key s" w] Cons.prems(1) u(2) show ?thesis by simp
  qed
qed

end

end
