(* ===== verification/Rune.thy ===== *)
theory Rune
  imports RustStr
begin

text \<open>
  \<open>rpc-log-plugin/src/rune.rs\<close>: the operator tag in a rune. A rune is base64; after
  its 32-byte authentication code come the restrictions, separated by \<open>&\<close> and
  \<open>|\<close>. The decoder is the crate \<open>base64\<close>, an argument of the model.
\<close>

type_synonym b64_decoder = "string \<Rightarrow> string + u8 list"

definition OPERATOR_RUNE_TAG :: string where
  "OPERATOR_RUNE_TAG = ''operator#''"

definition RUNE_PREFIX_BYTES :: nat where
  "RUNE_PREFIX_BYTES = 32"

definition rune_sep :: "char \<Rightarrow> bool" where
  "rune_sep c \<longleftrightarrow> c = CHR ''&'' \<or> c = CHR ''|''"

text \<open>\<open>decoded.get(32..)\<close>: nothing when the slice would start past the end.\<close>

definition get_from :: "nat \<Rightarrow> 'a list \<Rightarrow> 'a list option" where
  "get_from n xs = (if n \<le> length xs then Some (drop n xs) else None)"

definition rune_tag :: "b64_decoder \<Rightarrow> string \<Rightarrow> string option result" where
  "rune_tag decode rune =
    and_then (with_context ''invalid rune'' (from_lib (decode rune))) (\<lambda>decoded.
    and_then (ok_or ''invalid rune metadata''
      (Option.bind (get_from RUNE_PREFIX_BYTES decoded) from_utf8)) (\<lambda>metadata.
    Inr (find_map (strip_prefix OPERATOR_RUNE_TAG) (split_on rune_sep metadata))))"

section \<open>What a rune carries\<close>

text \<open>The restrictions of a decoded rune: the text after the authentication code.\<close>

definition rune_metadata :: "u8 list \<Rightarrow> string option" where
  "rune_metadata bs = Option.bind (get_from RUNE_PREFIX_BYTES bs) from_utf8"

lemma rune_tag_Some:
  assumes "rune_tag decode rune = Inr (Some op)"
  obtains bs meta where "decode rune = Inr bs" "rune_metadata bs = Some meta"
    "OPERATOR_RUNE_TAG @ op \<in> set (split_on rune_sep meta)"
proof -
  obtain bs meta where 1: "decode rune = Inr bs" "rune_metadata bs = Some meta"
    and fm: "find_map (strip_prefix OPERATOR_RUNE_TAG) (split_on rune_sep meta) = Some op"
    using assms by (auto simp: rune_tag_def result_simps rune_metadata_def)
  from find_map_set [OF fm]
  have "OPERATOR_RUNE_TAG @ op \<in> set (split_on rune_sep meta)"
    by (auto simp: str_simps)
  with 1 show thesis by (rule that)
qed

lemma rune_tag_metadata:
  "decode rune = Inr bs \<Longrightarrow> rune_metadata bs = Some meta \<Longrightarrow>
     rune_tag decode rune =
       Inr (find_map (strip_prefix OPERATOR_RUNE_TAG) (split_on rune_sep meta))"
  by (simp add: rune_tag_def rune_metadata_def result_simps)

lemma rune_metadata_prefix:
  "length pre = RUNE_PREFIX_BYTES \<Longrightarrow> rune_metadata (pre @ bs) = from_utf8 bs"
  by (simp add: rune_metadata_def get_from_def)

text \<open>The pieces of a text that is written as pieces, each followed by its separator.\<close>

lemma split_on_pieces_written:
  "\<forall>(p, d)\<in>set ps. sep d \<and> (\<forall>c\<in>set p. \<not> sep c) \<Longrightarrow>
     split_on sep (concat (map (\<lambda>(p, d). p @ [d]) ps) @ s) = map fst ps @ split_on sep s"
  by (induction ps) (auto simp: split_on_append_sep)

lemma split_on_first:
  "\<forall>c\<in>set w. \<not> sep c \<Longrightarrow> s = [] \<or> sep (hd s) \<Longrightarrow> \<exists>ws. split_on sep (w @ s) = w # ws"
  by (cases s) (auto simp: split_on_append_sep split_on_none)



text \<open>
  The tag says nothing about the authentication code: two runes that decode to the same
  restrictions behind different 32-byte codes give the same result, error or value.
\<close>

theorem rune_tag_hides_code:
  assumes "length code_a = RUNE_PREFIX_BYTES" and "length code_b = RUNE_PREFIX_BYTES"
    and "decode rune_a = Inr (code_a @ rest)" and "decode rune_b = Inr (code_b @ rest)"
  shows "rune_tag decode rune_a = rune_tag decode rune_b"
  using assms by (simp add: rune_tag_def result_simps get_from_def)

lemma rune_tag_hides_code_witness:
  "rune_tag (\<lambda>s. Inr (replicate 32 (if s = ''a'' then 1 else 2) @ as_bytes ''operator#x'')) ''a'' =
   rune_tag (\<lambda>s. Inr (replicate 32 (if s = ''a'' then 1 else 2) @ as_bytes ''operator#x'')) ''b''"
  by (rule rune_tag_hides_code [where code_a = "replicate 32 1" and code_b = "replicate 32 2"
        and rest = "as_bytes ''operator#x''"])
     (simp_all add: RUNE_PREFIX_BYTES_def)

text \<open>
  The three outcomes. A rune the decoder refuses, one shorter than its authentication
  code and one whose restrictions are not UTF-8 are errors; for every other rune the
  function succeeds.
\<close>

theorem rune_tag_outcome:
  "rune_tag decode rune =
    (case decode rune of
       Inl e \<Rightarrow> Inl (Anyhow [''invalid rune'', e])
     | Inr bs \<Rightarrow>
         (if RUNE_PREFIX_BYTES \<le> length bs \<and> utf8_valid (map unat (drop RUNE_PREFIX_BYTES bs))
          then Inr (find_map (strip_prefix OPERATOR_RUNE_TAG)
                 (split_on rune_sep (map (\<lambda>b. char_of (unat b)) (drop RUNE_PREFIX_BYTES bs))))
          else Inl (Anyhow [''invalid rune metadata''])))"
  by (auto simp: rune_tag_def result_simps get_from_def from_utf8_def not_less split: sum.split)

end
