(* ===== verification/Sanitize.thy ===== *)
theory Sanitize
  imports Json Rune
begin

text \<open>
  The redaction of \<open>rpc-log-plugin/src/main.rs\<close>: which keys are sensitive, the
  recursive rewriting of a request's parameters, and the search for the operator tag of a
  rune among them.
\<close>

section \<open>Sensitive keys\<close>

definition RUNE_KEY :: string where
  "RUNE_KEY = ''rune''"

definition DANGER_FIELDS :: "string list" where
  "DANGER_FIELDS =
    [''rune'', ''hsmsecret'', ''passphrase'', ''preimage'', ''payment_preimage'',
     ''payment_secret'', ''session_key'', ''shared_secrets'', ''payer_metadata'', ''secret'',
     ''private_key'', ''seed'', ''mnemonic'']"

definition is_sensitive_key :: "lower_table \<Rightarrow> string \<Rightarrow> bool" where
  "is_sensitive_key tbl key_to_check \<longleftrightarrow>
     (\<exists>key\<in>set DANGER_FIELDS. sublist key (to_lowercase tbl key_to_check))"

lemma not_sensitive_empty [simp]: "\<not> is_sensitive_key tbl []"
  by (simp add: is_sensitive_key_def DANGER_FIELDS_def to_lowercase_def)

lemma danger_lower: "d \<in> set DANGER_FIELDS \<Longrightarrow> is_ascii d \<and> map ascii_lower d = d"
  by (auto simp: DANGER_FIELDS_def is_ascii_def ascii_lower_def)

text \<open>
  A key is recognised whatever the case of its letters and whatever surrounds the
  sensitive word: any string that has, somewhere, an ASCII word whose lower-case form is in
  the list is sensitive.
\<close>

theorem sensitive_any_case:
  assumes "is_ascii word" and "map ascii_lower word \<in> set DANGER_FIELDS" and "sublist word key"
  shows "is_sensitive_key tbl key"
  using sublist_to_lowercase [OF assms(1,3), of tbl] assms(2)
  by (auto simp: is_sensitive_key_def)

lemma sensitive_any_case_witness: "is_sensitive_key (\<lambda>b c a. []) ''my_HsmSecret_2''"
  by (rule sensitive_any_case [where word = "''HsmSecret''"])
     (simp_all add: is_ascii_def ascii_lower_def DANGER_FIELDS_def sublist_Cons_right char_eval)

text \<open>The words of the list that contain no other: checking them is enough.\<close>

definition minimal_danger :: "string list" where
  "minimal_danger =
    [''rune'', ''passphrase'', ''preimage'', ''session_key'', ''payer_metadata'', ''secret'',
     ''private_key'', ''seed'', ''mnemonic'']"

lemma minimal_danger_covers: "d \<in> set DANGER_FIELDS \<Longrightarrow> \<exists>m\<in>set minimal_danger. sublist m d"
  by (auto simp: DANGER_FIELDS_def minimal_danger_def sublist_code)

text \<open>
  The list of thirteen words decides the same keys as the nine that contain no other:
  \<open>hsmsecret\<close>, \<open>payment_secret\<close>, \<open>shared_secrets\<close> are covered by \<open>secret\<close> and
  \<open>payment_preimage\<close> by \<open>preimage\<close>.
\<close>

theorem sensitive_minimal:
  "is_sensitive_key tbl key \<longleftrightarrow> (\<exists>m\<in>set minimal_danger. sublist m (to_lowercase tbl key))"
proof
  assume "is_sensitive_key tbl key"
  then obtain d where "d \<in> set DANGER_FIELDS" "sublist d (to_lowercase tbl key)"
    by (auto simp: is_sensitive_key_def)
  then show "\<exists>m\<in>set minimal_danger. sublist m (to_lowercase tbl key)"
    using minimal_danger_covers by (meson sublist_order.order_trans)
next
  have "set minimal_danger \<subseteq> set DANGER_FIELDS"
    by (simp add: minimal_danger_def DANGER_FIELDS_def)
  then show "\<exists>m\<in>set minimal_danger. sublist m (to_lowercase tbl key) \<Longrightarrow> is_sensitive_key tbl key"
    by (auto simp: is_sensitive_key_def)
qed

section \<open>Redaction\<close>

definition redacted :: json where
  "redacted = JString ''***''"

fun sanitize_json_value :: "lower_table \<Rightarrow> string \<Rightarrow> json \<Rightarrow> json" where
  "sanitize_json_value tbl key value =
    (if is_sensitive_key tbl key then redacted
     else case value of
       JObject m \<Rightarrow> JObject (map (\<lambda>(k, v). (k, sanitize_json_value tbl k v)) m)
     | JArray arr \<Rightarrow> JArray (map (\<lambda>v. sanitize_json_value tbl [] v) arr)
     | other \<Rightarrow> other)"

declare sanitize_json_value.simps [simp del]

fun sanitize_json_array :: "lower_table \<Rightarrow> json_object_or_array \<Rightarrow> json_object_or_array" where
  "sanitize_json_array tbl (Object m) = Object (map (\<lambda>(k, v). (k, sanitize_json_value tbl k v)) m)"
| "sanitize_json_array tbl (Array arr) = Array (map (\<lambda>v. sanitize_json_value tbl [] v) arr)"

interpretation redact: key_rewriting "is_sensitive_key tbl" redacted "sanitize_json_value tbl" for tbl
proof unfold_locales
  show "\<not> is_sensitive_key tbl key \<Longrightarrow> \<forall>m. j \<noteq> JObject m \<Longrightarrow> \<forall>xs. j \<noteq> JArray xs \<Longrightarrow>
    sanitize_json_value tbl key j = j" for key j
    by (cases j) (simp_all add: sanitize_json_value.simps)
qed (simp_all add: redacted_def sanitize_json_value.simps)

lemma to_value_sanitize: "to_value (sanitize_json_array tbl p) = sanitize_json_value tbl [] (to_value p)"
  by (cases p) (simp_all add: sanitize_json_value.simps)

text \<open>A value that is neither an object nor an array.\<close>

definition leaf :: "json \<Rightarrow> bool" where
  "leaf j \<longleftrightarrow> (\<forall>m. j \<noteq> JObject m) \<and> (\<forall>xs. j \<noteq> JArray xs)"

lemma leaf_simps [simp]:
  "leaf JNull" "leaf (JBool b)" "leaf (JNumber n)" "leaf (JString s)"
  "\<not> leaf (JArray xs)" "\<not> leaf (JObject m)"
  by (simp_all add: leaf_def)

lemma sanitize_leaf: "\<not> is_sensitive_key tbl key \<Longrightarrow> leaf j \<Longrightarrow> sanitize_json_value tbl key j = j"
  by (simp add: leaf_def redact.rewrite_leaf)

text \<open>
  C30. Whatever the sanitized parameters hold under a sensitive key, at any depth, is the
  string \<open>***\<close>.
\<close>

theorem sanitize_redacts:
  assumes "json_at p (to_value (sanitize_json_array tbl params)) = Some v"
    and "is_sensitive_key tbl (final_key [] p)"
  shows "v = JString ''***''"
  using redact.rewrite_masked [OF assms(2)] assms(1) by (simp add: to_value_sanitize redacted_def)

lemma sanitize_redacts_witness:
  "json_at [Key ''a'', Idx 0, Key ''Seed''] (to_value (sanitize_json_array (\<lambda>b c a. [])
     (Object [(''a'', JArray [JObject [(''Seed'', JObject [])]])]))) = Some (JString ''***'')"
proof -
  have s: "is_sensitive_key (\<lambda>b c a. []) ''Seed''" "\<not> is_sensitive_key (\<lambda>b c a. []) ''a''"
    by (simp_all add: is_sensitive_key_def DANGER_FIELDS_def to_lowercase_def ascii_lower_def
        sublist_Cons_right char_eval)
  then obtain v where v: "json_at [Key ''a'', Idx 0, Key ''Seed''] (to_value (sanitize_json_array (\<lambda>b c a. [])
     (Object [(''a'', JArray [JObject [(''Seed'', JObject [])]])]))) = Some v"
    by (simp add: sanitize_json_value.simps)
  with s sanitize_redacts [OF v] show ?thesis by simp
qed

text \<open>
  C31. Nothing else is touched: along a path with no sensitive key, the sanitized parameters
  hold exactly what the request held, missing where it was missing, and every value that
  is not a container is the same.
\<close>

theorem sanitize_keeps:
  assumes "open_path (is_sensitive_key tbl) [] p" and "\<not> is_sensitive_key tbl (final_key [] p)"
  shows "(json_at p (to_value (sanitize_json_array tbl params)) = None \<longleftrightarrow> json_at p (to_value params) = None)
    \<and> (\<forall>v. leaf v \<longrightarrow>
          json_at p (to_value params) = Some v \<longrightarrow>
          json_at p (to_value (sanitize_json_array tbl params)) = Some v)"
  using redact.rewrite_at [OF assms(1), of "to_value params"] sanitize_leaf [OF assms(2)]
  by (auto simp: to_value_sanitize)

lemma sanitize_keeps_witness:
  "json_at [Key ''amount'', Idx 0] (to_value (sanitize_json_array (\<lambda>b c a. [])
     (Object [(''amount'', JArray [JNumber (PosInt 5)])]))) = Some (JNumber (PosInt 5))"
proof -
  have a: "\<not> is_sensitive_key (\<lambda>b c a. []) ''amount''"
    by (simp add: is_sensitive_key_def DANGER_FIELDS_def to_lowercase_def ascii_lower_def
        sublist_Cons_right char_eval)
  show ?thesis
    using a sanitize_keeps [where tbl = "\<lambda>b c a. []" and p = "[Key ''amount'', Idx 0]"
        and params = "Object [(''amount'', JArray [JNumber (PosInt 5)])]"] by simp
qed

text \<open>
  Two documents that differ only in what stands under sensitive keys. This is the
  specification of the sanitizer, written without it.
\<close>

inductive agree_outside :: "lower_table \<Rightarrow> string \<Rightarrow> json \<Rightarrow> json \<Rightarrow> bool" for tbl where
  hidden: "is_sensitive_key tbl key \<Longrightarrow> agree_outside tbl key a b"
| same: "agree_outside tbl key a a"
| arrays: "list_all2 (agree_outside tbl []) xs ys \<Longrightarrow> agree_outside tbl key (JArray xs) (JArray ys)"
| objects: "list_all2 (\<lambda>e f. fst e = fst f \<and> agree_outside tbl (fst e) (snd e) (snd f)) m n \<Longrightarrow>
    agree_outside tbl key (JObject m) (JObject n)"

lemma agree_sanitize: "agree_outside tbl key a b \<Longrightarrow> sanitize_json_value tbl key a = sanitize_json_value tbl key b"
proof (induction rule: agree_outside.induct)
  case (hidden key a b)
  then show ?case by (simp add: redact.rewrite_hit)
next
  case (arrays xs ys key)
  have "map (sanitize_json_value tbl []) xs = map (sanitize_json_value tbl []) ys"
    using arrays.IH by (rule map_eq_of_list_all2) simp
  then show ?case by (simp add: sanitize_json_value.simps)
next
  case (objects m n key)
  have "map (\<lambda>(k, v). (k, sanitize_json_value tbl k v)) m = map (\<lambda>(k, v). (k, sanitize_json_value tbl k v)) n"
    using objects.IH by (rule map_eq_of_list_all2) (auto simp: case_prod_beta)
  then show ?case by (simp add: sanitize_json_value.simps)
qed simp

lemma agree_leaf:
  assumes "leaf a" and "sanitize_json_value tbl key a = sanitize_json_value tbl key b"
  shows "agree_outside tbl key a b"
proof (cases "is_sensitive_key tbl key")
  case False
  then have a: "sanitize_json_value tbl key b = a" using assms by (simp add: sanitize_leaf)
  have "b = a"
    using a False assms(1) by (cases b) (auto simp: redact.rewrite_array redact.rewrite_object sanitize_leaf)
  then show ?thesis by (simp add: agree_outside.same)
qed (rule agree_outside.hidden)

lemma sanitize_agree: "sanitize_json_value tbl key a = sanitize_json_value tbl key b \<Longrightarrow> agree_outside tbl key a b"
proof (induction a arbitrary: key b rule: json_induct)
  case (JArray xs)
  show ?case
  proof (cases "is_sensitive_key tbl key")
    case False
    with JArray.prems obtain ys where b: "b = JArray ys"
      and eq: "map (sanitize_json_value tbl []) xs = map (sanitize_json_value tbl []) ys"
      by (cases b) (auto simp: redact.rewrite_array redact.rewrite_object redact.rewrite_leaf)
    have "list_all2 (agree_outside tbl []) xs ys"
      using eq by (rule list_all2_of_map_eq) (rule JArray.IH)
    then show ?thesis unfolding b by (rule agree_outside.arrays)
  qed (rule agree_outside.hidden)
next
  case (JObject m)
  show ?case
  proof (cases "is_sensitive_key tbl key")
    case False
    with JObject.prems obtain n where b: "b = JObject n"
      and eq: "map (\<lambda>(k, v). (k, sanitize_json_value tbl k v)) m = map (\<lambda>(k, v). (k, sanitize_json_value tbl k v)) n"
      by (cases b) (auto simp: redact.rewrite_array redact.rewrite_object redact.rewrite_leaf)
    have "list_all2 (\<lambda>e f. fst e = fst f \<and> agree_outside tbl (fst e) (snd e) (snd f)) m n"
      using eq by (rule list_all2_of_map_eq) (auto intro: JObject.IH)
    then show ?thesis unfolding b by (rule agree_outside.objects)
  qed (rule agree_outside.hidden)
qed (auto intro: agree_leaf)

lemma sanitize_params_eq:
  "agree_outside tbl [] (to_value params) (to_value params') \<Longrightarrow>
     sanitize_json_array tbl params = sanitize_json_array tbl params'"
  using agree_sanitize [of tbl "[]" "to_value params" "to_value params'"]
  by (cases params; cases params') (auto simp: sanitize_json_value.simps)

text \<open>
  C1. Exactly the values under sensitive keys are hidden: two requests have the same
  sanitized parameters if and only if they agree outside the sensitive keys. So a log
  entry carries no information about a redacted value, not even its type or size, and no
  information is lost anywhere else.
\<close>

theorem sanitize_information_flow:
  "sanitize_json_array tbl params = sanitize_json_array tbl params' \<longleftrightarrow>
     agree_outside tbl [] (to_value params) (to_value params')"
proof -
  have "sanitize_json_array tbl params = sanitize_json_array tbl params' \<longleftrightarrow>
      to_value (sanitize_json_array tbl params) = to_value (sanitize_json_array tbl params')"
    by (cases params; cases params') auto
  then show ?thesis
    unfolding to_value_sanitize using agree_sanitize sanitize_agree by blast
qed

lemma agree_single: "leaf j \<Longrightarrow> agree_outside tbl key (sanitize_json_value tbl key j) j"
  by (cases "is_sensitive_key tbl key") (auto simp: sanitize_leaf intro: agree_outside.intros)

text \<open>
  Sanitizing is idempotent: a body that was redacted already is stored as it is.
\<close>

theorem sanitize_idempotent:
  "sanitize_json_array tbl (sanitize_json_array tbl params) = sanitize_json_array tbl params"
proof -
  have agree: "agree_outside tbl key (sanitize_json_value tbl key j) j" for key j
  proof (induction j arbitrary: key rule: json_induct)
    case (JArray xs)
    then show ?case
      by (cases "is_sensitive_key tbl key")
         (auto simp: redact.rewrite_array list_all2_conv_all_nth intro: agree_outside.intros)
  next
    case (JObject m)
    have "agree_outside tbl (fst e) (sanitize_json_value tbl (fst e) (snd e)) (snd e)" if "e \<in> set m" for e
      using JObject.IH [of "fst e" "snd e"] that by simp
    then show ?case
      by (cases "is_sensitive_key tbl key")
         (auto simp: redact.rewrite_object list_all2_conv_all_nth case_prod_beta intro!: agree_outside.intros)
  qed (auto intro: agree_single)
  show ?thesis
    unfolding sanitize_information_flow to_value_sanitize by (rule agree)
qed

end
