(* ===== verification/Hook.thy ===== *)
theory Hook
  imports Json
begin

text \<open>
  What lightningd relies on from a hook handler of these plugins. They only observe: a
  handler that answers at all answers \<open>{"result": "continue"}\<close>, so it never rejects
  an HTLC or replaces an RPC call. Two plugins promise more: their handler answers
  whatever fails inside it. The handlers interpret these locales where they are defined.
\<close>

locale observing_hook =
  fixes handler :: "json \<Rightarrow> ('w, json) io"
  assumes only_continue: "\<And>v w r w'. handler v w = (Inr r, w') \<Longrightarrow> r = json_continue"
begin

lemma no_other_answer: "fst (handler v w) \<noteq> Inr r \<or> r = json_continue"
  by (cases "handler v w") (auto dest: only_continue)

end

locale infallible_hook = observing_hook +
  assumes answers: "\<And>v w. \<exists>r w'. handler v w = (Inr r, w')"
begin

lemma always_continue: "fst (handler v w) = Inr json_continue"
proof -
  obtain r w' where h: "handler v w = (Inr r, w')" using answers by blast
  with only_continue [OF h] show ?thesis by simp
qed

text \<open>A node that runs the hook on any sequence of payloads is never held up by it.\<close>

lemma every_call_continues:
  "fst (fold (\<lambda>v (rs, w). let (r, w') = handler v w in (rs @ [r], w')) vs (rs0, w0))
     = rs0 @ replicate (length vs) (Inr json_continue)"
proof (induction vs arbitrary: rs0 w0)
  case (Cons v vs)
  obtain r w1 where h: "handler v w0 = (r, w1)" by (cases "handler v w0")
  with always_continue [of v w0] have "r = Inr json_continue" by simp
  with Cons h show ?case by (simp add: replicate_append_same)
qed simp

end

end
