(* ===== verification/Options.thy ===== *)
theory Options
  imports Prelude
begin

text \<open>
  What a plugin declares to \<open>cln_plugin\<close> before it is configured, and the string options of \<open>cln_plugin\<close>: what a plugin declares (the builders
  \<open>new_str_no_default\<close> and \<open>new_str_with_default\<close>), and what \<open>configured.option(&OPTION)?\<close>
  gives. What lightningd was told under a name is an argument: an error when the plugin
  has not declared the name, nothing when the user has not set it.
\<close>

record plain_option =
  po_name :: string
  po_description :: string

record 'v default_option =
  dn_name :: string
  dn_default :: 'v
  dn_description :: string

text \<open>The calls on the \<open>Builder\<close>: the names of options, RPC methods, notifications and hooks, and \<open>dynamic()\<close>.\<close>

record declared_plugin =
  dp_options :: "string list"
  dp_rpcmethods :: "string list"
  dp_subscriptions :: "string list"
  dp_hooks :: "string list"
  dp_dynamic :: bool

type_synonym 'v user_options = "string \<Rightarrow> string + 'v option"

definition plain_value :: "'v user_options \<Rightarrow> plain_option \<Rightarrow> string + 'v option" where
  "plain_value user opt = user (po_name opt)"

definition default_value :: "'v user_options \<Rightarrow> 'v default_option \<Rightarrow> string + 'v" where
  "default_value user opt =
    (case user (dn_name opt) of
       Inl e \<Rightarrow> Inl e
     | Inr v \<Rightarrow> Inr (case v of Some s \<Rightarrow> s | None \<Rightarrow> dn_default opt))"

text \<open>The documentation of \<open>option\<close>: reading an option that the plugin has declared does not fail.\<close>

definition options_documented :: "declared_plugin \<Rightarrow> 'v user_options \<Rightarrow> bool" where
  "options_documented decl user \<longleftrightarrow> (\<forall>name\<in>set (dp_options decl). \<exists>v. user name = Inr v)"

lemma default_value_eqs [simp]:
  "user (dn_name opt) = Inr None \<Longrightarrow> default_value user opt = Inr (dn_default opt)"
  "user (dn_name opt) = Inr (Some s) \<Longrightarrow> default_value user opt = Inr s"
  by (simp_all add: default_value_def)

end
