(* ===== verification/RpcLog.thy ===== *)
theory RpcLog
  imports Sanitize Hook Options
begin

text \<open>
  The rest of \<open>rpc-log-plugin/src/main.rs\<close>: the search for the caller's tag, the
  \<open>rpc_command\<close> hook with the upload of the log entry, and the start-up. The clock,
  the random identifiers, the JSON printer and parser and the storage client are code
  outside the repository: fields of \<open>log_env\<close>, acting on the world \<open>'w\<close>.
\<close>

section \<open>The caller\<close>

definition rune_here :: "b64_decoder \<Rightarrow> lower_table \<Rightarrow> string \<Rightarrow> json \<Rightarrow> string option" where
  "rune_here decode tbl key value =
    (if sublist RUNE_KEY (to_lowercase tbl key)
     then (case value of
         JString rune \<Rightarrow> (case rune_tag decode rune of Inr (Some operator) \<Rightarrow> Some operator | _ \<Rightarrow> None)
       | _ \<Rightarrow> None)
     else None)"

fun rune_from_json_value :: "b64_decoder \<Rightarrow> lower_table \<Rightarrow> string \<Rightarrow> json \<Rightarrow> string option" where
  "rune_from_json_value decode tbl key value =
    (case rune_here decode tbl key value of
       Some operator \<Rightarrow> Some operator
     | None \<Rightarrow>
        (case value of
           JObject m \<Rightarrow> find_map (\<lambda>(k, v). rune_from_json_value decode tbl k v) m
         | JArray arr \<Rightarrow> find_map (\<lambda>v. rune_from_json_value decode tbl [] v) arr
         | _ \<Rightarrow> None))"

declare rune_from_json_value.simps [simp del]

fun rune_from_json_array :: "b64_decoder \<Rightarrow> lower_table \<Rightarrow> json_object_or_array \<Rightarrow> string option" where
  "rune_from_json_array decode tbl (Object m) =
     find_map (\<lambda>(k, v). rune_from_json_value decode tbl k v) m"
| "rune_from_json_array decode tbl (Array arr) =
     find_map (\<lambda>v. rune_from_json_value decode tbl [] v) arr"

lemma rune_here_empty [simp]: "rune_here decode tbl [] value = None"
  by (simp add: rune_here_def to_lowercase_def RUNE_KEY_def)

lemma rune_here_Some:
  "rune_here decode tbl key value = Some op \<longleftrightarrow>
     sublist RUNE_KEY (to_lowercase tbl key) \<and>
     (\<exists>rune. value = JString rune \<and> rune_tag decode rune = Inr (Some op))"
  by (auto simp: rune_here_def split: json.splits sum.splits option.splits)

lemma rune_from_containers:
  "rune_from_json_value decode tbl key (JObject m) =
     find_map (\<lambda>(k, v). rune_from_json_value decode tbl k v) m"
  "rune_from_json_value decode tbl key (JArray xs) =
     find_map (\<lambda>v. rune_from_json_value decode tbl [] v) xs"
  by (simp_all add: rune_from_json_value.simps [of _ _ key] rune_here_def)

lemma rune_from_string:
  "rune_from_json_value decode tbl key (JString s) = rune_here decode tbl key (JString s)"
  by (simp add: rune_from_json_value.simps split: option.split)

lemma rune_from_array_value:
  "rune_from_json_array decode tbl params = rune_from_json_value decode tbl [] (to_value params)"
  by (cases params) (simp_all add: rune_from_json_value.simps)

text \<open>
  The specification: somewhere in the document, under a key that names a rune, stands a
  rune with this tag.
\<close>

definition carries_tag :: "b64_decoder \<Rightarrow> lower_table \<Rightarrow> string \<Rightarrow> json \<Rightarrow> path_step list \<Rightarrow> string \<Rightarrow> bool" where
  "carries_tag decode tbl key j p op \<longleftrightarrow>
     sublist RUNE_KEY (to_lowercase tbl (final_key key p)) \<and>
     (\<exists>rune. json_at p j = Some (JString rune) \<and> rune_tag decode rune = Inr (Some op))"

lemma carries_tag_Nil: "carries_tag decode tbl key j [] op \<longleftrightarrow> rune_here decode tbl key j = Some op"
  by (auto simp: carries_tag_def rune_here_Some)

lemma carries_tag_Key:
  "carries_tag decode tbl key (JObject m) (Key k # p) op \<longleftrightarrow>
     (\<exists>v. map_of m k = Some v \<and> carries_tag decode tbl k v p op)"
  by (auto simp: carries_tag_def split: option.splits)

lemma carries_tag_Idx:
  "carries_tag decode tbl key (JArray xs) (Idx i # p) op \<longleftrightarrow>
     i < length xs \<and> carries_tag decode tbl [] (xs ! i) p op"
  by (auto simp: carries_tag_def)

lemma rune_from_sound:
  "json_wf j \<Longrightarrow> rune_from_json_value decode tbl key j = Some op \<Longrightarrow> \<exists>p. carries_tag decode tbl key j p op"
proof (induction j arbitrary: key rule: json_induct)
  case (JArray xs)
  then obtain v where v: "v \<in> set xs" "rune_from_json_value decode tbl [] v = Some op"
    by (auto simp: rune_from_containers dest!: find_map_set)
  obtain p where "carries_tag decode tbl [] v p op"
    using JArray.IH [OF v(1) _ v(2)] JArray.prems(1) v(1) by auto
  with v show ?case by (metis carries_tag_Idx in_set_conv_nth)
next
  case (JObject m)
  then obtain k v where v: "(k, v) \<in> set m" "rune_from_json_value decode tbl k v = Some op"
    by (auto simp: rune_from_containers dest!: find_map_set)
  with JObject.prems(1) have "map_of m k = Some v" "json_wf v" by auto
  with JObject.IH [OF v(1)] v(2) obtain p where "carries_tag decode tbl k v p op" by blast
  with \<open>map_of m k = Some v\<close> show ?case by (metis carries_tag_Key)
qed (auto simp: rune_from_json_value.simps carries_tag_Nil split: option.splits intro!: exI [of _ "[]"])

lemma rune_from_complete:
  "rune_from_json_value decode tbl key j = None \<Longrightarrow> \<not> carries_tag decode tbl key j p op"
proof (induction p arbitrary: key j)
  case Nil
  then show ?case by (auto simp: carries_tag_Nil rune_from_json_value.simps split: option.splits)
next
  case (Cons s p)
  show ?case
  proof
    assume c: "carries_tag decode tbl key j (s # p) op"
    show False
    proof (cases s)
      case (Key k)
      with c obtain m where j: "j = JObject m" by (cases j) (auto simp: carries_tag_def)
      with c Key obtain v where v: "map_of m k = Some v" "carries_tag decode tbl k v p op"
        by (auto simp: carries_tag_Key)
      from Cons.prems j have "rune_from_json_value decode tbl k v = None"
        using map_of_SomeD [OF v(1)]
        by (auto simp: rune_from_containers find_map_None)
      with Cons.IH v(2) show False by blast
    next
      case (Idx i)
      with c obtain xs where j: "j = JArray xs" by (cases j) (auto simp: carries_tag_def)
      with c Idx have i: "i < length xs" "carries_tag decode tbl [] (xs ! i) p op"
        by (auto simp: carries_tag_Idx)
      from Cons.prems j have "rune_from_json_value decode tbl [] (xs ! i) = None"
        using nth_mem [OF i(1)]
        by (auto simp: rune_from_containers find_map_None)
      with Cons.IH i(2) show False by blast
    qed
  qed
qed

lemma rune_key_sensitive: "sublist RUNE_KEY (to_lowercase tbl key) \<Longrightarrow> is_sensitive_key tbl key"
  by (auto simp: is_sensitive_key_def DANGER_FIELDS_def RUNE_KEY_def)

text \<open>Text that the stored body has was in the request, at the same place and under no sensitive key.\<close>

lemma sanitize_string_at:
  "json_at p (sanitize_json_value tbl key j) = Some (JString s) \<Longrightarrow> s \<noteq> ''***'' \<Longrightarrow>
     json_at p j = Some (JString s) \<and> open_path (is_sensitive_key tbl) key p \<and> \<not> is_sensitive_key tbl (final_key key p)"
proof (induction p arbitrary: key j)
  case Nil
  then show ?case
    by (cases j) (auto simp: sanitize_json_value.simps redacted_def split: if_splits)
next
  case (Cons st p)
  have key: "\<not> is_sensitive_key tbl key"
    using Cons.prems(1) by (auto simp: redact.rewrite_hit redacted_def)
  from Cons.prems(1) obtain v where v: "json_at [st] j = Some v"
    "json_at p (sanitize_json_value tbl (step_key st) v) = Some (JString s)"
    by (subst (asm) json_at_Cons) (auto simp: redact.rewrite_step [OF key] split: option.splits)
  with Cons.IH [OF v(2) Cons.prems(2)] key show ?case
    by (subst json_at_Cons) simp
qed

text \<open>
  C32. The caller of a log entry is the tag of a rune that stands in the request, at some
  path whose last key contains \<open>rune\<close>. At that path the stored body is missing or holds \<open>***\<close>;
  and if the body has the text of that rune anywhere, then the request itself had another
  copy of it there, under no sensitive key: the plugin adds no copy, and keeps none that
  stands under a sensitive key.
\<close>

theorem caller_from_redacted_rune:
  assumes "json_wf (to_value params)" and "rune_from_json_array decode tbl params = Some op"
  shows "\<exists>p rune. json_at p (to_value params) = Some (JString rune) \<and>
    sublist RUNE_KEY (to_lowercase tbl (final_key [] p)) \<and>
    rune_tag decode rune = Inr (Some op) \<and>
    json_at p (to_value (sanitize_json_array tbl params)) \<in> {None, Some (JString ''***'')} \<and>
    (rune \<noteq> ''***'' \<longrightarrow> (\<forall>q. json_at q (to_value (sanitize_json_array tbl params)) = Some (JString rune) \<longrightarrow>
       q \<noteq> p \<and> json_at q (to_value params) = Some (JString rune) \<and>
       open_path (is_sensitive_key tbl) [] q \<and> \<not> is_sensitive_key tbl (final_key [] q)))"
proof -
  obtain p where p: "carries_tag decode tbl [] (to_value params) p op"
    using rune_from_sound assms by (metis rune_from_array_value)
  then have sensitive: "is_sensitive_key tbl (final_key [] p)"
    by (auto simp: carries_tag_def intro: rune_key_sensitive)
  then have "json_at p (to_value (sanitize_json_array tbl params)) \<in> {None, Some (JString ''***'')}"
    using redact.rewrite_masked [of tbl "[]" p "to_value params"]
    by (cases "json_at p (to_value (sanitize_json_array tbl params))")
       (auto simp: to_value_sanitize redacted_def)
  moreover have "q \<noteq> p \<and> json_at q (to_value params) = Some (JString rune) \<and>
      open_path (is_sensitive_key tbl) [] q \<and> \<not> is_sensitive_key tbl (final_key [] q)"
    if "rune \<noteq> ''***''" "json_at q (to_value (sanitize_json_array tbl params)) = Some (JString rune)" for q rune
    using sanitize_string_at [OF that(2) [unfolded to_value_sanitize] that(1)] sensitive by auto
  ultimately show ?thesis using p unfolding carries_tag_def by blast
qed

lemma caller_from_redacted_rune_witness:
  "\<exists>p rune. json_at p (JObject [(''rune'', JString ''AA'')]) = Some (JString rune) \<and>
    rune_tag (\<lambda>_. Inr (replicate 32 0 @ as_bytes ''operator#Oleg'')) rune = Inr (Some ''Oleg'')"
proof -
  define dec where "dec = (\<lambda>_ :: string. Inr (replicate 32 0 @ as_bytes ''operator#Oleg'') :: string + u8 list)"
  have tag: "rune_tag dec ''AA'' = Inr (Some ''Oleg'')"
    using rune_tag_metadata [of dec "''AA''" "replicate 32 0 @ as_bytes ''operator#Oleg''" "''operator#Oleg''"]
    by (simp add: dec_def rune_metadata_prefix RUNE_PREFIX_BYTES_def from_utf8_as_bytes is_ascii_def
        OPERATOR_RUNE_TAG_def rune_sep_def strip_prefix_def)
  have "sublist RUNE_KEY (to_lowercase (\<lambda>b c a. []) ''rune'')"
    by (simp add: to_lowercase_def ascii_lower_def RUNE_KEY_def)
  then have "rune_from_json_array dec (\<lambda>b c a. []) (Object [(''rune'', JString ''AA'')]) = Some ''Oleg''"
    using tag by (simp add: rune_from_string rune_here_def)
  from caller_from_redacted_rune [OF _ this] show ?thesis by (auto simp: dec_def)
qed

text \<open>
  C33. The search is exhaustive: the entry has no caller exactly when no string under a key
  containing \<open>rune\<close>, at any depth, decodes to a rune with an operator tag.
\<close>

theorem no_caller_iff:
  "json_wf (to_value params) \<Longrightarrow>
     rune_from_json_array decode tbl params = None \<longleftrightarrow>
       (\<forall>p op. \<not> carries_tag decode tbl [] (to_value params) p op)"
  unfolding rune_from_array_value
  using rune_from_complete rune_from_sound by (metis not_None_eq)

lemma no_caller_iff_witness:
  "\<forall>p op. \<not> carries_tag (\<lambda>_. Inl ''bad'') (\<lambda>b c a. []) []
     (to_value (Object [(''rune'', JString ''AA'')])) p op"
  by (rule no_caller_iff [THEN iffD1])
     (simp_all add: rune_from_string rune_here_def to_lowercase_def ascii_lower_def
        RUNE_KEY_def rune_tag_outcome)

section \<open>State, environment and the log entry\<close>

definition GCS_RESOURCE_NAME_PREFIX :: string where
  "GCS_RESOURCE_NAME_PREFIX = ''projects/_/buckets/''"

record 'c log_state =
  bucket_name :: string
  client :: 'c
  rpc_list :: "string set"

definition method_in_log_list :: "'c log_state \<Rightarrow> string \<Rightarrow> bool" where
  "method_in_log_list st method = (if rpc_list st = {} then True else method \<in> rpc_list st)"

text \<open>\<open>cln_rpc::hooks::events::RpcCommandEvent\<close>, the part the handler reads.\<close>

record rpc_command =
  cmd_id :: json
  cmd_method :: string
  cmd_params :: json_object_or_array

record rpc_log =
  log_method :: string
  log_request_id :: json
  log_body :: json_object_or_array
  log_caller :: "string option"

text \<open>
  The derived \<open>Serialize\<close>: the fields in the order of the struct, \<open>caller\<close> left out
  when it is \<open>None\<close>.
\<close>

definition rpc_log_json :: "rpc_log \<Rightarrow> json" where
  "rpc_log_json log = JObject
    ([(''method'', JString (log_method log)),
      (''request_id'', log_request_id log),
      (''body'', to_value (log_body log))]
     @ (case log_caller log of None \<Rightarrow> [] | Some c \<Rightarrow> [(''caller'', JString c)]))"

record ('w, 'c, 't) log_env =
  b64_decode :: b64_decoder
  lower_tbl :: lower_table
  parse_event :: "json \<Rightarrow> string + rpc_command"
  now_utc :: "'w \<Rightarrow> 't \<times> 'w"
  new_v4 :: "'w \<Rightarrow> string \<times> 'w"
  format_rfc3339 :: "'t \<Rightarrow> string + string"
  json_to_string :: "json \<Rightarrow> string + string"
  write_object :: "'c \<Rightarrow> string \<Rightarrow> string \<Rightarrow> string \<Rightarrow> 'w \<Rightarrow> (string + unit) \<times> 'w"

section \<open>The hook\<close>

definition upload_rpc_log ::
  "('w, 'c, 't) log_env \<Rightarrow> 'c \<Rightarrow> string \<Rightarrow> rpc_log \<Rightarrow> ('w, string) io" where
  "upload_rpc_log env gcs bucket log =
    io_bind (io_read (now_utc env)) (\<lambda>timestamp.
    io_bind (io_read (new_v4 env)) (\<lambda>id.
    io_bind (io_lift (from_lib (format_rfc3339 env timestamp))) (\<lambda>stamp.
    let object_name = ''rpc/'' @ stamp @ ''-'' @ id @ ''.json'' in
    io_bind (io_lift (from_lib (json_to_string env (rpc_log_json log)))) (\<lambda>content.
    io_bind (io_lib (write_object env gcs bucket object_name content)) (\<lambda>_.
    io_return object_name)))))"

text \<open>The entry the hook builds for a command.\<close>

definition log_entry :: "('w, 'c, 't) log_env \<Rightarrow> rpc_command \<Rightarrow> rpc_log" where
  "log_entry env cmd =
    \<lparr>log_method = cmd_method cmd,
     log_request_id = cmd_id cmd,
     log_body = sanitize_json_array (lower_tbl env) (cmd_params cmd),
     log_caller = rune_from_json_array (b64_decode env) (lower_tbl env) (cmd_params cmd)\<rparr>"

definition on_hook_rpc_command ::
  "('w, 'c, 't) log_env \<Rightarrow> 'c log_state \<Rightarrow> json \<Rightarrow> ('w, json) io" where
  "on_hook_rpc_command env st v =
    io_bind (io_lift (from_lib (parse_event env v))) (\<lambda>cmd.
    io_bind
      (if method_in_log_list st (cmd_method cmd)
       then io_bind (upload_rpc_log env (client st) (bucket_name st) (log_entry env cmd))
              (\<lambda>_. io_return ())
       else io_return ())
      (\<lambda>_. io_return json_continue))"

interpretation rpc_command_hook: observing_hook "on_hook_rpc_command env st" for env st
  by unfold_locales (auto simp: on_hook_rpc_command_def io_simps split: if_splits)

lemma upload_Inr:
  "upload_rpc_log env gcs bucket log w = (Inr name, w') \<Longrightarrow>
     \<exists>t w1 id w2 stamp content.
       now_utc env w = (t, w1) \<and> new_v4 env w1 = (id, w2) \<and> format_rfc3339 env t = Inr stamp \<and>
       name = ''rpc/'' @ stamp @ ''-'' @ id @ ''.json'' \<and>
       json_to_string env (rpc_log_json log) = Inr content \<and>
       write_object env gcs bucket name content w2 = (Inr (), w')"
  by (auto simp: upload_rpc_log_def Let_def io_simps result_simps)

text \<open>
  C13. When the hook answers, it answers \<open>continue\<close>, and either the method was not to be
  logged and nothing happened outside, or exactly one object was written: to the
  configured bucket, named after the time and a fresh identifier, holding the entry whose
  body is sanitized.
\<close>

theorem hook_answer:
  assumes "on_hook_rpc_command env st v w = (Inr r, w')"
  shows "r = json_continue \<and>
    (\<exists>cmd. parse_event env v = Inr cmd \<and>
      (if method_in_log_list st (cmd_method cmd)
       then \<exists>t w1 id w2 stamp content.
          now_utc env w = (t, w1) \<and> new_v4 env w1 = (id, w2) \<and>
          format_rfc3339 env t = Inr stamp \<and>
          json_to_string env (JObject
            ([(''method'', JString (cmd_method cmd)), (''request_id'', cmd_id cmd),
              (''body'', to_value (sanitize_json_array (lower_tbl env) (cmd_params cmd)))]
             @ (case rune_from_json_array (b64_decode env) (lower_tbl env) (cmd_params cmd) of
                  None \<Rightarrow> [] | Some c \<Rightarrow> [(''caller'', JString c)]))) = Inr content \<and>
          write_object env (client st) (bucket_name st)
            (''rpc/'' @ stamp @ ''-'' @ id @ ''.json'') content w2 = (Inr (), w')
       else w' = w))"
proof -
  obtain cmd where cmd: "parse_event env v = Inr cmd"
    using assms by (auto simp: on_hook_rpc_command_def io_simps result_simps)
  have r: "r = json_continue" using assms by (rule rpc_command_hook.only_continue)
  show ?thesis
  proof (cases "method_in_log_list st (cmd_method cmd)")
    case True
    with assms cmd obtain name where
      "upload_rpc_log env (client st) (bucket_name st) (log_entry env cmd) w = (Inr name, w')"
      by (auto simp: on_hook_rpc_command_def io_simps result_simps)
    from upload_Inr [OF this] r cmd True show ?thesis
      by (auto simp: rpc_log_json_def log_entry_def)
  next
    case False
    with assms cmd r show ?thesis
      by (auto simp: on_hook_rpc_command_def io_simps result_simps)
  qed
qed

text \<open>An environment in which every call succeeds and the world is the list of stored objects.\<close>

definition sample_env :: "((string \<times> string \<times> string) list, unit, unit) log_env" where
  "sample_env =
    \<lparr>b64_decode = (\<lambda>_. Inl ''not base64''), lower_tbl = (\<lambda>b c a. [c]),
     parse_event = (\<lambda>v. Inr \<lparr>cmd_id = JNull, cmd_method = ''pay'', cmd_params = Object [(''seed'', v)]\<rparr>),
     now_utc = (\<lambda>w. ((), w)), new_v4 = (\<lambda>w. (''u'', w)), format_rfc3339 = (\<lambda>_. Inr ''t''),
     json_to_string = (\<lambda>j. case json_at [Key ''body'', Key ''seed''] j of Some (JString s) \<Rightarrow> Inr s | _ \<Rightarrow> Inr ''?''),
     write_object = (\<lambda>c b n s w. (Inr (), w @ [(b, n, s)]))\<rparr>"

lemma sample_sensitive: "is_sensitive_key (\<lambda>b c a. [c]) ''seed''"
  by (simp add: is_sensitive_key_def DANGER_FIELDS_def to_lowercase_def ascii_lower_def
      sublist_Cons_right)

lemma sample_hook:
  "on_hook_rpc_command sample_env \<lparr>bucket_name = ''B'', client = (), rpc_list = {''pay''}\<rparr> v w =
     (Inr json_continue, w @ [(''B'', ''rpc/t-u.json'', ''***'')])"
  by (simp add: on_hook_rpc_command_def upload_rpc_log_def Let_def sample_env_def io_bind_def
      io_lift_def io_read_def io_lib_def io_return_def method_in_log_list_def log_entry_def
      rpc_log_json_def redact.rewrite_hit [OF sample_sensitive] redacted_def)

lemma hook_answer_witness:
  "\<exists>cmd w'. parse_event sample_env JNull = Inr cmd \<and>
     write_object sample_env () ''B'' ''rpc/t-u.json'' ''***'' [] = (Inr (), w')"
  using hook_answer [OF sample_hook [of JNull "[]"]]
  by (auto simp: sample_env_def method_in_log_list_def redact.rewrite_hit [OF sample_sensitive] redacted_def)

text \<open>
  A call whose method is not selected is not observed: the hook answers \<open>continue\<close> and
  nothing happens outside, whatever the environment.
\<close>

theorem hook_skips_unselected:
  assumes "parse_event env v = Inr cmd" and "rpc_list st \<noteq> {}" and "cmd_method cmd \<notin> rpc_list st"
  shows "on_hook_rpc_command env st v w = (Inr json_continue, w)"
  using assms by (simp add: on_hook_rpc_command_def method_in_log_list_def io_bind_def io_lift_def io_return_def)

lemma hook_skips_unselected_witness:
  "on_hook_rpc_command sample_env \<lparr>bucket_name = ''B'', client = (), rpc_list = {''checkrune''}\<rparr> JNull [] =
     (Inr json_continue, [])"
  by (rule hook_skips_unselected [where cmd =
        "\<lparr>cmd_id = JNull, cmd_method = ''pay'', cmd_params = Object [(''seed'', JNull)]\<rparr>"])
     (simp_all add: sample_env_def)

section \<open>Start-up\<close>

text \<open>
  The declared options, and the calls of \<open>main\<close> and \<open>storage_client\<close> into the libraries.
  \<open>lg_configure\<close> gives what the user set, or nothing when lightningd ended the configuration.
\<close>

definition EMULATOR_OPTION :: plain_option where
  "EMULATOR_OPTION =
    \<lparr>po_name = ''log-emulator-host'',
     po_description = ''If specified - plugin will send logs to the local bucket emulator (see tests)''\<rparr>"

definition RPC_LIST_OPTION :: "string default_option" where
  "RPC_LIST_OPTION =
    \<lparr>dn_name = ''log-rpc-list'', dn_default = ''checkrune'',
     dn_description = ''A list of comma separated rpc commands to log''\<rparr>"

definition BUCKET_OPTION :: plain_option where
  "BUCKET_OPTION = \<lparr>po_name = ''log-bucket'', po_description = ''A GCS bucket to store logs in''\<rparr>"

definition log_plugin :: declared_plugin where
  "log_plugin =
    \<lparr>dp_options = [po_name BUCKET_OPTION, dn_name RPC_LIST_OPTION, po_name EMULATOR_OPTION],
     dp_rpcmethods = [], dp_subscriptions = [], dp_hooks = [''rpc_command''], dp_dynamic = True\<rparr>"

record ('w, 'c) log_main_env =
  lg_configure :: "declared_plugin \<Rightarrow> 'w \<Rightarrow> (string + string user_options option) \<times> 'w"
  build_anonymous :: "string \<Rightarrow> 'w \<Rightarrow> (string + 'c) \<times> 'w"
  build_default :: "'w \<Rightarrow> (string + 'c) \<times> 'w"
  lg_start :: "'c log_state \<Rightarrow> 'w \<Rightarrow> (string + unit) \<times> 'w"
  lg_join :: "'w \<Rightarrow> (string + unit) \<times> 'w"

definition parse_rpc_list :: "string \<Rightarrow> string set" where
  "parse_rpc_list s = set (filter (\<lambda>m. m \<noteq> []) (map trim (split_on (\<lambda>c. c = CHR '','') s)))"

definition storage_client :: "('w, 'c) log_main_env \<Rightarrow> string option \<Rightarrow> ('w, 'c) io" where
  "storage_client m emulator_endpoint =
    (case emulator_endpoint of
       Some endpoint \<Rightarrow> io_lib (build_anonymous m endpoint)
     | None \<Rightarrow> io_lib (build_default m))"

definition rpc_log_main :: "('w, 'c) log_main_env \<Rightarrow> ('w, unit) io" where
  "rpc_log_main m =
    io_bind (io_lib (lg_configure m log_plugin)) (\<lambda>configured.
    case configured of
      None \<Rightarrow> io_return ()
    | Some user \<Rightarrow>
        io_bind (io_lift (from_lib (default_value user RPC_LIST_OPTION))) (\<lambda>list.
        io_bind (io_lift (and_then (from_lib (plain_value user BUCKET_OPTION)) (ok_or ''No bucket name provided''))) (\<lambda>bucket.
        io_bind (io_lift (from_lib (plain_value user EMULATOR_OPTION))) (\<lambda>emulator.
        io_bind (storage_client m emulator) (\<lambda>cl.
        let st = \<lparr>bucket_name = GCS_RESOURCE_NAME_PREFIX @ bucket, client = cl,
                  rpc_list = parse_rpc_list list\<rparr> in
        io_bind (io_lib (lg_start m st)) (\<lambda>_.
        io_lib (lg_join m)))))))"

text \<open>
  The list option round-trips: method names written with commas between them and any
  number of blanks around them are exactly the methods that are logged.
\<close>

theorem parse_rpc_list_roundtrip:
  assumes "names \<noteq> []" and "\<forall>m\<in>set names. m \<noteq> [] \<and> trimmed m \<and> CHR '','' \<notin> set m"
  shows "method_in_log_list
      \<lparr>bucket_name = b, client = c, rpc_list = parse_rpc_list
         (join '','' (map (\<lambda>m. replicate l (CHR '' '') @ m @ replicate r (CHR '' '')) names))\<rparr> method
    \<longleftrightarrow> method \<in> set names"
proof -
  let ?pad = "\<lambda>m. replicate l (CHR '' '') @ m @ replicate r (CHR '' '')"
  have "split_on (\<lambda>c. c = CHR '','') (join '','' (map ?pad names)) = map ?pad names"
    using assms by (intro split_on_join) auto
  moreover have "map trim (map ?pad names) = names"
    using assms(2) by (simp add: trim_padded map_idI)
  ultimately have "parse_rpc_list (join '','' (map ?pad names)) = set (filter (\<lambda>m. m \<noteq> []) names)"
    by (simp only: parse_rpc_list_def)
  also have "filter (\<lambda>m. m \<noteq> []) names = names" using assms(2) by (simp add: filter_id_conv)
  finally show ?thesis using assms(1) by (simp add: method_in_log_list_def)
qed

lemma parse_rpc_list_roundtrip_witness:
  "method_in_log_list \<lparr>bucket_name = [], client = (), rpc_list = parse_rpc_list '' pay , commando ''\<rparr> ''pay'' \<and>
   \<not> method_in_log_list \<lparr>bucket_name = [], client = (), rpc_list = parse_rpc_list '' pay , commando ''\<rparr> ''stop''"
  using parse_rpc_list_roundtrip [where names = "[''pay'', ''commando'']" and l = 1 and r = 1
      and b = "[]" and c = "()"]
  by (simp add: trimmed_def white_space_def suffix_to_prefix)

end
