(* ===== verification/RpcSession.thy ===== *)
theory RpcSession
  imports RpcLog
begin

text \<open>
  Properties of \<open>rpc-log-plugin\<close> over more than one call: its start-up, the documents it stores,
  and what the storage can learn from a whole session.
\<close>

section \<open>Start-up\<close>

text \<open>
  C38. What an operator gets who sets only the bucket. The options the plugin reads are the
  ones it declared, so reading them does not fail; without a bucket the plugin stops with an
  error before it has built a client or started. With a bucket and nothing else it uses the
  default credentials, starts with the full resource name of that bucket, and logs
  \<open>checkrune\<close> and no other method.
\<close>

theorem rpc_log_defaults:
  assumes "lg_configure m log_plugin w = (Inr (Some user), w1)" and "options_documented log_plugin user"
  shows "(user ''log-bucket'' = Inr None \<longrightarrow>
      rpc_log_main m w = (Inl (Anyhow [''No bucket name provided'']), w1)) \<and>
    (\<forall>bucket cl w2. user ''log-bucket'' = Inr (Some bucket) \<and> user ''log-rpc-list'' = Inr None \<and>
      user ''log-emulator-host'' = Inr None \<and> build_default m w1 = (Inr cl, w2) \<longrightarrow>
      (\<exists>st. bucket_name st = ''projects/_/buckets/'' @ bucket \<and> client st = cl \<and>
        (\<forall>method. method_in_log_list st method \<longleftrightarrow> method = ''checkrune'') \<and>
        rpc_log_main m w = io_bind (io_lib (lg_start m st)) (\<lambda>_. io_lib (lg_join m)) w2))"
proof -
  have list: "\<exists>l. default_value user RPC_LIST_OPTION = Inr l"
    using assms(2) by (auto simp: options_documented_def log_plugin_def default_value_def RPC_LIST_OPTION_def)
  then have none: "rpc_log_main m w = (Inl (Anyhow [''No bucket name provided'']), w1)"
    if "user ''log-bucket'' = Inr None"
    using assms(1) that
    by (auto simp: rpc_log_main_def io_bind_def io_lib_def io_lift_def plain_value_def BUCKET_OPTION_def)
  have parsed: "parse_rpc_list ''checkrune'' = {''checkrune''}" by code_simp
  show ?thesis
  proof (intro conjI impI allI, rule none, assumption)
    fix bucket cl w2
    assume user: "user ''log-bucket'' = Inr (Some bucket) \<and> user ''log-rpc-list'' = Inr None \<and>
      user ''log-emulator-host'' = Inr None \<and> build_default m w1 = (Inr cl, w2)"
    let ?st = "\<lparr>bucket_name = ''projects/_/buckets/'' @ bucket, client = cl, rpc_list = {''checkrune''}\<rparr>"
    have "rpc_log_main m w = io_bind (io_lib (lg_start m ?st)) (\<lambda>_. io_lib (lg_join m)) w2"
      using assms(1) user parsed
      by (simp add: rpc_log_main_def io_bind_def io_lib_def io_lift_def plain_value_def default_value_def
          BUCKET_OPTION_def RPC_LIST_OPTION_def EMULATOR_OPTION_def storage_client_def
          GCS_RESOURCE_NAME_PREFIX_def Let_def)
    moreover have "\<forall>method. method_in_log_list ?st method \<longleftrightarrow> method = ''checkrune''"
      by (simp add: method_in_log_list_def)
    ultimately show "\<exists>st. bucket_name st = ''projects/_/buckets/'' @ bucket \<and> client st = cl \<and>
        (\<forall>method. method_in_log_list st method \<longleftrightarrow> method = ''checkrune'') \<and>
        rpc_log_main m w = io_bind (io_lib (lg_start m st)) (\<lambda>_. io_lib (lg_join m)) w2"
      by (intro exI [of _ ?st]) simp
  qed
qed

text \<open>An operator who sets only the bucket; the world counts the calls.\<close>

definition bucket_only :: "string user_options" where
  "bucket_only name = Inr (if name = ''log-bucket'' then Some ''node-logs'' else None)"

definition starting_env :: "string user_options \<Rightarrow> (nat, unit) log_main_env" where
  "starting_env user =
    \<lparr>lg_configure = (\<lambda>decl w. (Inr (Some user), w + 1)), build_anonymous = (\<lambda>endpoint w. (Inr (), w + 1)),
     build_default = (\<lambda>w. (Inr (), w + 1)), lg_start = (\<lambda>st w. (Inr (), w + 1)), lg_join = (\<lambda>w. (Inr (), w + 1))\<rparr>"

lemma rpc_log_defaults_witness:
  "rpc_log_main (starting_env bucket_only) 0 = (Inr (), 4) \<and>
   rpc_log_main (starting_env (\<lambda>name. Inr None)) 0 = (Inl (Anyhow [''No bucket name provided'']), 1)"
proof -
  let ?m = "starting_env bucket_only" and ?none = "starting_env (\<lambda>name. Inr None)"
  have conf: "lg_configure ?m log_plugin 0 = (Inr (Some bucket_only), 1)"
    "lg_configure ?none log_plugin 0 = (Inr (Some (\<lambda>name. Inr None)), 1)"
    by (simp_all add: starting_env_def)
  have doc: "options_documented log_plugin bucket_only" "options_documented log_plugin (\<lambda>name. Inr None)"
    by (simp_all add: options_documented_def bucket_only_def)
  have "bucket_only ''log-bucket'' = Inr (Some ''node-logs'') \<and> bucket_only ''log-rpc-list'' = Inr None \<and>
      bucket_only ''log-emulator-host'' = Inr None \<and> build_default ?m 1 = (Inr (), 2)"
    by (simp add: bucket_only_def starting_env_def)
  with rpc_log_defaults [OF conf(1) doc(1)] obtain st where
    "rpc_log_main ?m 0 = io_bind (io_lib (lg_start ?m st)) (\<lambda>_. io_lib (lg_join ?m)) 2" by blast
  then have "rpc_log_main ?m 0 = (Inr (), 4)" by (simp add: starting_env_def io_bind_def io_lib_def)
  with rpc_log_defaults [OF conf(2) doc(2)] show ?thesis by simp
qed

section \<open>The stored document\<close>

lemma sanitize_wf: "json_wf j \<Longrightarrow> json_wf (sanitize_json_value tbl key j)"
proof (induction j arbitrary: key rule: json_induct)
  case (JArray xs)
  then show ?case
    by (cases "is_sensitive_key tbl key")
       (auto simp: redact.rewrite_hit redact.rewrite_array redacted_def)
next
  case (JObject m)
  have keys: "map fst (map (\<lambda>(k, v). (k, sanitize_json_value tbl k v)) m) = map fst m"
    by (simp add: case_prod_beta comp_def)
  have "json_wf (JObject (map (\<lambda>(k, v). (k, sanitize_json_value tbl k v)) m))"
    unfolding json_wf.simps(2) keys using JObject by fastforce
  then show ?case
    by (cases "is_sensitive_key tbl key") (simp_all add: redact.rewrite_hit redact.rewrite_object redacted_def)
qed (simp_all add: sanitize_json_value.simps redacted_def)

text \<open>
  C39. The stored document is well formed: for a command whose own values are (the identifier
  and the parameters have each key once in every object), so is the document the hook stores,
  and its keys are \<open>method\<close>, \<open>request_id\<close>, \<open>body\<close> and, exactly when some rune of the request has
  an operator tag, \<open>caller\<close>. There is never another key, in particular no \<open>peer_id\<close>.
\<close>

theorem stored_document_wf:
  assumes "json_wf (cmd_id cmd)" and "json_wf (to_value (cmd_params cmd))"
  shows "json_wf (rpc_log_json (log_entry env cmd)) \<and>
    (\<exists>m. rpc_log_json (log_entry env cmd) = JObject m \<and>
      set (map fst m) = {''method'', ''request_id'', ''body''} \<union>
        (if \<exists>p op. carries_tag (b64_decode env) (lower_tbl env) [] (to_value (cmd_params cmd)) p op
         then {''caller''} else {}))"
proof -
  have caller: "(\<exists>p op. carries_tag (b64_decode env) (lower_tbl env) [] (to_value (cmd_params cmd)) p op)
      \<longleftrightarrow> log_caller (log_entry env cmd) \<noteq> None"
    unfolding log_entry_def rune_from_array_value using rune_from_complete rune_from_sound [OF assms(2)]
    by (metis not_None_eq rpc_log.select_convs(4))
  have "json_wf (to_value (log_body (log_entry env cmd)))" "json_wf (log_request_id (log_entry env cmd))"
    using assms sanitize_wf [OF assms(2)] by (simp_all add: log_entry_def to_value_sanitize)
  then show ?thesis
    unfolding caller by (auto simp: rpc_log_json_def split: option.split)
qed

lemma stored_document_wf_witness:
  "json_wf (rpc_log_json (log_entry sample_env
     \<lparr>cmd_id = JString ''cli:1'', cmd_method = ''pay'', cmd_params = Object [(''seed'', JNull)]\<rparr>))"
  using stored_document_wf [of "\<lparr>cmd_id = JString ''cli:1'', cmd_method = ''pay'', cmd_params = Object [(''seed'', JNull)]\<rparr>" sample_env]
  by simp

section \<open>A session\<close>

text \<open>
  The hook is one call per command; lightningd waits for the answer before the command runs.
  A session is the answers to the commands in the order they come, with the world they leave.
\<close>

fun serve_commands ::
  "('w, 'c, 't) log_env \<Rightarrow> 'c log_state \<Rightarrow> json list \<Rightarrow> 'w \<Rightarrow> json result list \<times> 'w" where
  "serve_commands env st [] w = ([], w)"
| "serve_commands env st (v # vs) w =
    (case on_hook_rpc_command env st v w of
       (answer, w1) \<Rightarrow> (case serve_commands env st vs w1 of (answers, w2) \<Rightarrow> (answer # answers, w2)))"

text \<open>
  Two payloads that differ only in what must stay secret: neither is a command, for the same
  reason; or both call the same method, and that is not logged, or they have the same
  identifier, the same caller, and parameters that agree outside the sensitive keys.
\<close>

definition same_to_log :: "('w, 'c, 't) log_env \<Rightarrow> 'c log_state \<Rightarrow> json \<Rightarrow> json \<Rightarrow> bool" where
  "same_to_log env st v v' \<longleftrightarrow>
    (case (parse_event env v, parse_event env v') of
       (Inl e, Inl e') \<Rightarrow> e = e'
     | (Inr cmd, Inr cmd') \<Rightarrow>
         cmd_method cmd' = cmd_method cmd \<and>
         (method_in_log_list st (cmd_method cmd) \<longrightarrow>
            cmd_id cmd' = cmd_id cmd \<and>
            agree_outside (lower_tbl env) [] (to_value (cmd_params cmd)) (to_value (cmd_params cmd')) \<and>
            rune_from_json_array (b64_decode env) (lower_tbl env) (cmd_params cmd') =
              rune_from_json_array (b64_decode env) (lower_tbl env) (cmd_params cmd))
     | _ \<Rightarrow> False)"

lemma same_to_log_hook:
  assumes "same_to_log env st v v'"
  shows "on_hook_rpc_command env st v' w = on_hook_rpc_command env st v w"
proof (cases "parse_event env v")
  case (Inl e)
  with assms show ?thesis
    by (cases "parse_event env v'") (auto simp: same_to_log_def on_hook_rpc_command_def)
next
  case (Inr cmd)
  with assms obtain cmd' where cmd': "parse_event env v' = Inr cmd'"
    by (cases "parse_event env v'") (auto simp: same_to_log_def)
  with Inr assms have same: "cmd_method cmd' = cmd_method cmd"
    and entry: "method_in_log_list st (cmd_method cmd) \<Longrightarrow> log_entry env cmd' = log_entry env cmd"
    using sanitize_params_eq by (auto simp: same_to_log_def log_entry_def)
  show ?thesis
  proof (cases "method_in_log_list st (cmd_method cmd)")
    case True
    with same entry Inr cmd' show ?thesis by (simp add: on_hook_rpc_command_def io_bind_def io_lift_def)
  next
    case False
    with same Inr cmd' show ?thesis by (simp add: on_hook_rpc_command_def io_bind_def io_lift_def)
  qed
qed

text \<open>
  C5. The storage learns from a session only what is meant for it. Take two sessions that agree,
  call by call, in the method and, for the calls that are logged, in the identifier, in everything
  outside the sensitive keys and in the operator tag (the name that the first tagged
  rune carries, which is logged on purpose); they may differ in every value under a sensitive
  key, as long as the tag is the same, and in all else of a call that is not logged. Then the
  hook makes the same calls to the clock, the random source and the storage, with the same
  arguments, and gives the same answers, whatever those calls answer.
\<close>

theorem session_noninterference:
  assumes "list_all2 (same_to_log env st) vs vs'"
  shows "serve_commands env st vs' w = serve_commands env st vs w"
  using assms
proof (induction arbitrary: w rule: list_all2_induct)
  case (Cons v vs v' vs')
  then show ?case by (simp add: same_to_log_hook [OF Cons.hyps(1)])
qed simp

lemma session_noninterference_witness:
  "serve_commands sample_env \<lparr>bucket_name = ''B'', client = (), rpc_list = {}\<rparr> [JString ''b'', JNull] [] =
   serve_commands sample_env \<lparr>bucket_name = ''B'', client = (), rpc_list = {}\<rparr> [JString ''a'', JBool True] []"
proof (rule session_noninterference)
  have "agree_outside (\<lambda>b c a. [c]) [] (JObject [(''seed'', v)]) (JObject [(''seed'', v')])" for v v'
    by (intro agree_outside.objects) (simp add: agree_outside.hidden [OF sample_sensitive])
  moreover have "rune_from_json_value (\<lambda>_. Inl ''not base64'') (\<lambda>b c a. [c]) ''seed'' v = None"
    if "leaf v" for v
    using that
    by (cases v) (simp_all add: rune_from_json_value.simps rune_here_def rune_tag_outcome)
  ultimately have "same_to_log sample_env \<lparr>bucket_name = ''B'', client = (), rpc_list = {}\<rparr> v v'"
    if "leaf v" "leaf v'" for v v'
    using that by (simp add: same_to_log_def sample_env_def)
  then show "list_all2 (same_to_log sample_env \<lparr>bucket_name = ''B'', client = (), rpc_list = {}\<rparr>)
    [JString ''a'', JBool True] [JString ''b'', JNull]" by simp
qed

end
