(* ===== verification/RustInt.thy ===== *)
theory RustInt
  imports RustStr
begin

text \<open>
  Rust's fixed-width integers. \<open>u64\<close> and \<open>i64\<close> are the same 64-bit words, so
  \<open>as i64\<close> and \<open>as u64\<close> keep the bits; the signed reading is \<open>sint\<close>, the unsigned
  one \<open>unat\<close>. Addition depends on how the crate was built: with overflow checks (the
  \<open>dev\<close> profile) it panics where the signed sum does not fit, without them (the
  \<open>release\<close> profile) it wraps. The last section sums lists of amounts: two interfaces,
  interpreted wherever a loop of the plugins accumulates millisatoshis.
\<close>

type_synonym u32 = "32 word"
type_synonym u64 = "64 word"
type_synonym i64 = "64 word"

datatype profile = Debug | Release

definition as_i64 :: "u64 \<Rightarrow> i64" where
  "as_i64 x = x"

definition as_u64 :: "i64 \<Rightarrow> u64" where
  "as_u64 x = x"

lemma as_i64_u64 [simp]: "as_u64 (as_i64 x) = x" "as_i64 (as_u64 x) = x"
  by (simp_all add: as_i64_def as_u64_def)

definition fits_i64 :: "int \<Rightarrow> bool" where
  "fits_i64 x \<longleftrightarrow> - (2 ^ 63) \<le> x \<and> x < 2 ^ 63"

definition add_i64 :: "profile \<Rightarrow> i64 \<Rightarrow> i64 \<Rightarrow> i64 result" where
  "add_i64 prof a b =
    (if prof = Debug \<and> \<not> fits_i64 (sint a + sint b) then panic ''attempt to add with overflow''
     else Inr (a + b))"

text \<open>\<open>Iterator::sum\<close> over \<open>i64\<close>.\<close>

definition sum_i64 :: "profile \<Rightarrow> i64 list \<Rightarrow> i64 result" where
  "sum_i64 prof xs = fold_result (add_i64 prof) 0 xs"

lemma sint_small: "unat (a :: i64) < 2 ^ 63 \<Longrightarrow> sint a = uint a"
proof -
  assume "unat a < 2 ^ 63"
  then have "int (unat a) < int (2 ^ 63)" by (simp only: of_nat_less_iff)
  then have "uint a < 2 ^ 63" by simp
  moreover have "- (2 ^ 63) \<le> uint a" by (rule order_trans [of _ 0]) simp_all
  ultimately show ?thesis
    unfolding sint_uint by (intro signed_take_bit_int_eq_self) simp_all
qed

lemma add_i64_Release [simp]: "add_i64 Release a b = Inr (a + b)"
  by (simp add: add_i64_def)

lemma add_i64_Inr: "add_i64 prof a b = Inr c \<Longrightarrow> c = a + b"
  by (auto simp: add_i64_def panic_def split: if_splits)

text \<open>Below \<open>2 ^ 63\<close> the sum is exact, and no build panics.\<close>

lemma add_i64_exact:
  assumes "unat a + unat b < 2 ^ 63"
  shows "add_i64 prof a b = Inr (a + b)" and "unat (a + b) = unat a + unat b"
proof -
  show "unat (a + b) = unat a + unat b"
    using assms by (simp add: unat_plus_if')
  have "fits_i64 (sint a + sint b)"
  proof -
    have "int (unat a + unat b) < int (2 ^ 63)" using assms by (simp only: of_nat_less_iff)
    then have "uint a + uint b < 2 ^ 63" by simp
    moreover have "0 \<le> uint a" "0 \<le> uint b" by simp_all
    ultimately have "- (2 ^ 63) \<le> uint a + uint b \<and> uint a + uint b < 2 ^ 63" by linarith
    then show ?thesis using assms by (simp add: fits_i64_def sint_small)
  qed
  then show "add_i64 prof a b = Inr (a + b)" by (simp add: add_i64_def)
qed

section \<open>Printing\<close>

definition digit :: "nat \<Rightarrow> char" where
  "digit d = ''0123456789'' ! d"

fun show_nat :: "nat \<Rightarrow> string" where
  "show_nat n = (if n < 10 then [digit n] else show_nat (n div 10) @ [digit (n mod 10)])"

declare show_nat.simps [simp del]

definition show_i64 :: "i64 \<Rightarrow> string" where
  "show_i64 x = (if sint x < 0 then CHR ''-'' # show_nat (nat (- sint x)) else show_nat (nat (sint x)))"

definition digit_value :: "char \<Rightarrow> nat" where
  "digit_value c = of_char c - 48"

definition read_nat :: "string \<Rightarrow> nat" where
  "read_nat s = foldl (\<lambda>v c. 10 * v + digit_value c) 0 s"

lemma digit_value_digit: "d < 10 \<Longrightarrow> digit_value (digit d) = d"
  by (simp add: digit_def digit_value_def less_Suc_eq numeral_eq_Suc)
     (elim disjE; simp)

lemma digit_in: "d < 10 \<Longrightarrow> digit d \<in> set ''0123456789''"
  by (simp only: digit_def) (rule nth_mem, simp)

lemma read_show_nat: "read_nat (show_nat n) = n"
proof (induction n rule: show_nat.induct)
  case (1 n)
  show ?case
  proof (cases "n < 10")
    case True
    then show ?thesis by (subst show_nat.simps) (simp add: read_nat_def digit_value_digit)
  next
    case False
    then have "read_nat (show_nat n) = 10 * read_nat (show_nat (n div 10)) + n mod 10"
      by (subst show_nat.simps) (simp add: read_nat_def digit_value_digit)
    with False "1.IH" show ?thesis by simp
  qed
qed

lemma show_nat_digits: "c \<in> set (show_nat n) \<Longrightarrow> c \<in> set ''0123456789''"
proof (induction n rule: show_nat.induct)
  case (1 n)
  show ?case
  proof (cases "n < 10")
    case True
    with "1.prems" have "c = digit n" by (subst (asm) show_nat.simps) simp
    with True digit_in show ?thesis by simp
  next
    case False
    with "1.prems" have "c \<in> set (show_nat (n div 10)) \<or> c = digit (n mod 10)"
      by (subst (asm) show_nat.simps) auto
    with "1.IH" [OF False] digit_in [of "n mod 10"] show ?thesis by auto
  qed
qed

lemma show_nat_inject [simp]: "show_nat m = show_nat n \<longleftrightarrow> m = n"
  by (metis read_show_nat)

lemma show_i64_inject [simp]: "show_i64 a = show_i64 b \<longleftrightarrow> a = b"
proof
  have minus: "CHR ''-'' # s \<noteq> show_nat n" for s n
  proof
    assume "CHR ''-'' # s = show_nat n"
    then have "CHR ''-'' \<in> set (show_nat n)" by (metis list.set_intros(1))
    then show False using show_nat_digits [of "CHR ''-''" n] by simp
  qed
  assume "show_i64 a = show_i64 b"
  then have "sint a = sint b"
    by (auto simp: show_i64_def minus minus [symmetric] split: if_splits)
  then show "a = b" by (rule signed_word_eqI)
qed simp

text \<open>The characters a printed number can have: never a blank or a line break.\<close>

lemma show_i64_chars: "c \<in> set (show_i64 x) \<Longrightarrow> c = CHR ''-'' \<or> c \<in> set ''0123456789''"
  by (auto simp: show_i64_def dest: show_nat_digits split: if_splits)

section \<open>Summing amounts\<close>

text \<open>
  A loop that adds amounts into counters of a state. The contract speaks of natural
  numbers: as long as everything added so far stays below \<open>2 ^ 63\<close>, a step succeeds and
  the amount grows by the weight of the item. Its client lemma is about the whole loop.
\<close>

locale accumulator =
  fixes step :: "'s \<Rightarrow> 'a \<Rightarrow> 's result"
    and amount :: "'s \<Rightarrow> nat"
    and weight :: "'a \<Rightarrow> nat"
  assumes step_exact:
    "\<And>s x. amount s + weight x < 2 ^ 63 \<Longrightarrow> \<exists>s'. step s x = Inr s' \<and> amount s' = amount s + weight x"
begin

lemma run_exact:
  "amount s + sum_list (map weight xs) < 2 ^ 63 \<Longrightarrow>
     \<exists>s'. fold_result step s xs = Inr s' \<and> amount s' = amount s + sum_list (map weight xs)"
proof (induction xs arbitrary: s)
  case (Cons x xs)
  then obtain s1 where s1: "step s x = Inr s1" "amount s1 = amount s + weight x"
    using step_exact [of s x] by auto
  with Cons.prems Cons.IH [of s1] show ?case by (auto simp: add.assoc)
qed simp

end

text \<open>One of the counters: it grows by its share of each item.\<close>

locale bucket = accumulator +
  fixes content :: "'s \<Rightarrow> nat"
    and part :: "'a \<Rightarrow> nat"
  assumes step_bucket:
    "\<And>s x s'. amount s + weight x < 2 ^ 63 \<Longrightarrow> step s x = Inr s' \<Longrightarrow> content s' = content s + part x"
begin

lemma run_bucket:
  "amount s + sum_list (map weight xs) < 2 ^ 63 \<Longrightarrow> fold_result step s xs = Inr s' \<Longrightarrow>
     content s' = content s + sum_list (map part xs)"
proof (induction xs arbitrary: s)
  case (Cons x xs)
  then obtain s1 where s1: "step s x = Inr s1" "amount s1 = amount s + weight x"
    using step_exact [of s x] by auto
  with Cons.prems have "content s' = content s1 + sum_list (map part xs)"
    by (intro Cons.IH) auto
  with s1 step_bucket [of s x s1] Cons.prems show ?case by simp
qed simp

end

text \<open>The plain sum is the simplest accumulator.\<close>

interpretation i64_sum: bucket "add_i64 prof" unat unat unat unat for prof
  by unfold_locales (auto simp: add_i64_exact dest: add_i64_Inr)

lemma sum_i64_exact:
  assumes "sum_list (map unat xs) < 2 ^ 63"
  shows "\<exists>s. sum_i64 prof xs = Inr s \<and> unat s = sum_list (map unat xs)"
  using i64_sum.run_exact [of 0 xs prof] assms by (simp add: sum_i64_def)

lemma sum_i64_Release: "sum_i64 Release xs = Inr (sum_list xs)"
proof -
  have "fold_result (add_i64 Release) s xs = Inr (s + sum_list xs)" for s
    by (induction xs arbitrary: s) (simp_all add: add.assoc)
  from this [of 0] show ?thesis by (simp add: sum_i64_def)
qed

lemma sum_i64_Inr: "sum_i64 prof xs = Inr s \<Longrightarrow> s = sum_list xs"
proof -
  have "fold_result (add_i64 prof) a xs = Inr s \<Longrightarrow> s = a + sum_list xs" for a
  proof (induction xs arbitrary: a)
    case (Cons x xs)
    then obtain b where b: "add_i64 prof a x = Inr b" "fold_result (add_i64 prof) b xs = Inr s"
      by (auto simp: result_simps)
    with Cons.IH [OF b(2)] add_i64_Inr [OF b(1)] show ?case by (simp add: add.assoc)
  qed simp
  from this [of 0] show "sum_i64 prof xs = Inr s \<Longrightarrow> s = sum_list xs" by (simp add: sum_i64_def)
qed

end
