(* ===== verification/Cln.thy ===== *)
theory Cln
  imports RustInt
begin

text \<open>
  The answers of lightningd that the plugins read, with the fields they read: the response
  types of \<open>cln_rpc\<close>, public data of a crate outside the repository. Amounts are the
  \<open>u64\<close> of \<open>Amount::msat()\<close>. A channel is counted as open or not by comparing its
  state with \<open>CHANNELD_NORMAL\<close>; the other states are kept by their names.
\<close>

datatype outputs_status = UNCONFIRMED | CONFIRMED | SPENT | IMMATURE

datatype channel_state = CHANNELD_NORMAL | Other_state string

record getinfo_response =
  gi_id :: string
  gi_network :: string
  gi_blockheight :: u32
  gi_fees_collected_msat :: u64

record funds_output =
  fo_amount_msat :: u64
  fo_status :: outputs_status
  fo_reserved :: bool

record funds_channel =
  fc_our_amount_msat :: u64

record listfunds_response =
  lf_outputs :: "funds_output list"
  lf_channels :: "funds_channel list"

record peer_channel =
  pc_peer_id :: string
  pc_peer_connected :: bool
  pc_state :: channel_state
  pc_short_channel_id :: "string option"
  pc_channel_id :: "string option"
  pc_to_us_msat :: "u64 option"
  pc_total_msat :: "u64 option"
  pc_spendable_msat :: "u64 option"
  pc_receivable_msat :: "u64 option"
  pc_htlcs :: "nat option"  \<comment> \<open>the length of the list of HTLCs, which is all the plugins use\<close>
  pc_in_payments_offered :: "u64 option"
  pc_in_payments_fulfilled :: "u64 option"
  pc_in_offered_msat :: "u64 option"
  pc_in_fulfilled_msat :: "u64 option"
  pc_out_payments_offered :: "u64 option"
  pc_out_payments_fulfilled :: "u64 option"
  pc_out_offered_msat :: "u64 option"
  pc_out_fulfilled_msat :: "u64 option"

text \<open>\<open>field.map(|a| a.msat() as i64).unwrap_or(0)\<close>.\<close>

definition msat_or_zero :: "u64 option \<Rightarrow> i64" where
  "msat_or_zero v = (case v of Some a \<Rightarrow> as_i64 a | None \<Rightarrow> 0)"

text \<open>The same amount as a natural number.\<close>

definition msat_amount :: "u64 option \<Rightarrow> nat" where
  "msat_amount v = (case v of Some a \<Rightarrow> unat a | None \<Rightarrow> 0)"

lemma unat_msat_or_zero [simp]: "unat (msat_or_zero v) = msat_amount v"
  by (simp add: msat_or_zero_def msat_amount_def as_i64_def split: option.split)

lemma unat_as_i64 [simp]: "unat (as_i64 a) = unat a"
  by (simp add: as_i64_def)

text \<open>What the outputs of a class amount to.\<close>

definition output_sum :: "(funds_output \<Rightarrow> bool) \<Rightarrow> funds_output list \<Rightarrow> nat" where
  "output_sum P outs = sum_list (map (\<lambda>out. unat (fo_amount_msat out)) (filter P outs))"

definition channel_sum :: "(peer_channel \<Rightarrow> bool) \<Rightarrow> peer_channel list \<Rightarrow> nat" where
  "channel_sum P cs = sum_list (map (\<lambda>c. msat_amount (pc_to_us_msat c)) (filter P cs))"

lemma sum_list_if: "sum_list (map (\<lambda>x. if P x then f x else (0 :: nat)) xs) = sum_list (map f (filter P xs))"
  by (induction xs) auto

end
