(* ===== verification/Statement.thy ===== *)
theory Statement
  imports RustInt
begin

text \<open>
  \<open>reserves-attestor-plugin/src/statement.rs\<close>: the text of the balance statement, the
  armor around it, and how a verifier takes it apart again. The formatting of the time is
  the crate \<open>chrono\<close>: the statement holds a time of any type \<open>'t\<close>, printed by an
  argument.
\<close>

definition BEGIN_MESSAGE :: string where
  "BEGIN_MESSAGE = ''-----BEGIN CLN SIGNED MESSAGE-----''"

definition BEGIN_SIGNATURE :: string where
  "BEGIN_SIGNATURE = ''-----BEGIN CLN SIGNATURE-----''"

definition END_SIGNATURE :: string where
  "END_SIGNATURE = ''-----END CLN SIGNATURE-----''"

definition STATEMENT_VERSION :: u32 where
  "STATEMENT_VERSION = 1"

record 't statement_inputs =
  node_id :: string
  network :: string
  statement_time :: 't
  block_height :: u32
  onchain_confirmed_msat :: i64
  onchain_unconfirmed_msat :: i64
  onchain_reserved_msat :: i64
  onchain_immature_msat :: i64
  lightning_open_msat :: i64
  lightning_pending_msat :: i64

definition total_msat :: "profile \<Rightarrow> 't statement_inputs \<Rightarrow> i64 result" where
  "total_msat prof inputs = add_i64 prof (onchain_confirmed_msat inputs) (lightning_open_msat inputs)"

definition show_u32 :: "u32 \<Rightarrow> string" where
  "show_u32 x = show_nat (unat x)"

text \<open>\<open>{:<36}\<close>: padded with blanks on the right (the labels are ASCII).\<close>

definition pad_right :: "nat \<Rightarrow> string \<Rightarrow> string" where
  "pad_right n s = s @ replicate (n - length s) (CHR '' '')"

definition newline :: char where
  "newline = CHR 0x0A"

definition excluded_line :: "string \<Rightarrow> i64 \<Rightarrow> string" where
  "excluded_line label amount = ''  - '' @ pad_right 36 label @ show_i64 amount @ '' msats''"

definition message_lines :: "('t \<Rightarrow> string) \<Rightarrow> string \<Rightarrow> 't statement_inputs \<Rightarrow> i64 \<Rightarrow> string list" where
  "message_lines fmt service_name inputs tot =
    [service_name @ '' node balance statement'',
     [],
     ''Statement version:    '' @ show_u32 STATEMENT_VERSION,
     ''Node ID:              '' @ node_id inputs,
     ''Network:              '' @ network inputs,
     ''Statement time:       '' @ fmt (statement_time inputs),
     ''Block height:         '' @ show_u32 (block_height inputs),
     [],
     ''On-chain balance:     '' @ show_i64 (onchain_confirmed_msat inputs)
       @ '' msats  (confirmed, spendable by this node)'',
     ''Lightning balance:    '' @ show_i64 (lightning_open_msat inputs)
       @ '' msats  (this node'' @ [CHR 0x27] @ ''s side of open channels)'',
     ''Total under control:  '' @ show_i64 tot @ '' msats'',
     [],
     ''Accounting data:      none'',
     [],
     ''Excluded from totals:'',
     excluded_line ''Unconfirmed on-chain:'' (onchain_unconfirmed_msat inputs),
     excluded_line ''Reserved on-chain UTXOs:'' (onchain_reserved_msat inputs),
     excluded_line ''Immature on-chain, e.g. coinbase:'' (onchain_immature_msat inputs),
     excluded_line ''Pending channels, opening/closing:'' (lightning_pending_msat inputs)]"

definition build_message_block ::
  "profile \<Rightarrow> ('t \<Rightarrow> string) \<Rightarrow> string \<Rightarrow> 't statement_inputs \<Rightarrow> string result" where
  "build_message_block prof fmt service_name inputs =
    and_then (total_msat prof inputs) (\<lambda>tot.
      Inr (join [newline] (message_lines fmt service_name inputs tot)))"

definition build_signed_statement :: "string \<Rightarrow> string \<Rightarrow> string" where
  "build_signed_statement message_block zbase_signature =
    BEGIN_MESSAGE @ [newline] @ message_block @ [newline] @ BEGIN_SIGNATURE @ [newline]
      @ zbase_signature @ [newline] @ END_SIGNATURE @ [newline]"

section \<open>Lines\<close>

definition lines_of :: "string \<Rightarrow> string list" where
  "lines_of s = split_on (\<lambda>c. c = newline) s"

definition one_line :: "string \<Rightarrow> bool" where
  "one_line s \<longleftrightarrow> newline \<notin> set s"

lemma join_lines_of: "join [newline] (lines_of s) = s"
proof (induction s)
  case (Cons c s)
  obtain w ws where w: "split_on (\<lambda>c. c = newline) s = w # ws"
    by (cases "split_on (\<lambda>c. c = newline) s") auto
  with Cons show ?case by (cases ws) (auto simp: lines_of_def)
qed (simp add: lines_of_def)

lemma lines_of_join:
  "xs \<noteq> [] \<Longrightarrow> \<forall>x\<in>set xs. one_line x \<Longrightarrow> lines_of (join [newline] xs) = xs"
  unfolding lines_of_def one_line_def by (rule split_on_join) auto

lemma lines_of_one_line: "one_line s \<Longrightarrow> lines_of s = [s]"
  unfolding lines_of_def one_line_def by (rule split_on_none) auto

lemma lines_of_append: "lines_of (s @ newline # t) = lines_of s @ lines_of t"
proof (induction s)
  case (Cons c s)
  then show ?case
    by (cases "split_on (\<lambda>c. c = newline) s") (auto simp: lines_of_def)
qed (simp add: lines_of_def)

lemma one_line_show_i64 [simp]: "one_line (show_i64 x)"
  by (auto simp: one_line_def newline_def dest!: show_i64_chars)

lemma one_line_show_u32 [simp]: "one_line (show_u32 x)"
  by (auto simp: one_line_def newline_def show_u32_def dest!: show_nat_digits)

lemma one_line_append [simp]: "one_line (s @ t) \<longleftrightarrow> one_line s \<and> one_line t"
  by (auto simp: one_line_def)

lemma one_line_literal:
  "one_line []" "one_line (c # s) \<longleftrightarrow> c \<noteq> newline \<and> one_line s"
  by (auto simp: one_line_def)

lemma one_line_pad [simp]: "one_line (pad_right n s) \<longleftrightarrow> one_line s"
  by (auto simp: one_line_def pad_right_def newline_def)

text \<open>The fields a message is built from are single lines.\<close>

definition plain_fields :: "('t \<Rightarrow> string) \<Rightarrow> string \<Rightarrow> 't statement_inputs \<Rightarrow> bool" where
  "plain_fields fmt service_name inputs \<longleftrightarrow>
     one_line service_name \<and> one_line (node_id inputs) \<and> one_line (network inputs) \<and>
     one_line (fmt (statement_time inputs))"

lemma message_lines_one_line:
  "plain_fields fmt s i \<Longrightarrow> \<forall>l\<in>set (message_lines fmt s i t). one_line l"
  by (simp add: message_lines_def plain_fields_def excluded_line_def one_line_literal newline_def)

lemma lines_of_message:
  "plain_fields fmt s i \<Longrightarrow> lines_of (join [newline] (message_lines fmt s i t)) = message_lines fmt s i t"
  by (rule lines_of_join) (simp add: message_lines_def, rule message_lines_one_line)

section \<open>What the text determines\<close>

lemma message_lines_inject:
  "message_lines fmt s i t = message_lines fmt s' i' t' \<Longrightarrow>
     s = s' \<and> node_id i = node_id i' \<and> network i = network i' \<and>
     fmt (statement_time i) = fmt (statement_time i') \<and>
     block_height i = block_height i' \<and>
     onchain_confirmed_msat i = onchain_confirmed_msat i' \<and>
     onchain_unconfirmed_msat i = onchain_unconfirmed_msat i' \<and>
     onchain_reserved_msat i = onchain_reserved_msat i' \<and>
     onchain_immature_msat i = onchain_immature_msat i' \<and>
     lightning_open_msat i = lightning_open_msat i' \<and>
     lightning_pending_msat i = lightning_pending_msat i' \<and> t = t'"
  by (auto simp: message_lines_def excluded_line_def show_u32_def intro: unsigned_word_eqI)

text \<open>
  C12. The signed text is unambiguous. If the service name, the node, the network and the printed
  time are single lines, two messages that are equal report the same service name, node, network,
  time as printed (to the second, two times within one second are printed alike), height and
  each of the six amounts. A signature over one set of balances can never be shown as a
  signature over another.
\<close>

theorem message_block_injective:
  assumes "build_message_block prof fmt s i = Inr msg" and "build_message_block prof' fmt s' i' = Inr msg"
    and "plain_fields fmt s i" and "plain_fields fmt s' i'"
  shows "s = s' \<and> node_id i = node_id i' \<and> network i = network i' \<and>
     fmt (statement_time i) = fmt (statement_time i') \<and>
     block_height i = block_height i' \<and>
     onchain_confirmed_msat i = onchain_confirmed_msat i' \<and>
     onchain_unconfirmed_msat i = onchain_unconfirmed_msat i' \<and>
     onchain_reserved_msat i = onchain_reserved_msat i' \<and>
     onchain_immature_msat i = onchain_immature_msat i' \<and>
     lightning_open_msat i = lightning_open_msat i' \<and>
     lightning_pending_msat i = lightning_pending_msat i'"
proof -
  obtain t where t: "msg = join [newline] (message_lines fmt s i t)"
    using assms(1) by (auto simp: build_message_block_def result_simps)
  obtain t' where t': "msg = join [newline] (message_lines fmt s' i' t')"
    using assms(2) by (auto simp: build_message_block_def result_simps)
  have "message_lines fmt s i t = message_lines fmt s' i' t'"
    using t t' lines_of_message [OF assms(3)] lines_of_message [OF assms(4)] by metis
  from message_lines_inject [OF this] show ?thesis by simp
qed

definition sample_inputs :: "string statement_inputs" where
  "sample_inputs =
    \<lparr>node_id = ''02aabb'', network = ''bitcoin'', statement_time = ''2026-09-17T12:00:00Z'',
     block_height = 900000, onchain_confirmed_msat = 100000000, onchain_unconfirmed_msat = 0,
     onchain_reserved_msat = 0, onchain_immature_msat = 0, lightning_open_msat = 50000000,
     lightning_pending_msat = 0\<rparr>"

lemma sample_plain: "plain_fields (\<lambda>t. t) ''Example'' sample_inputs"
  by (simp add: plain_fields_def sample_inputs_def one_line_literal newline_def)

lemma message_block_injective_witness:
  "\<exists>msg. build_message_block Debug (\<lambda>t. t) ''Example'' sample_inputs = Inr msg \<and>
     build_message_block Release (\<lambda>t. t) ''Example'' sample_inputs = Inr msg \<and>
     block_height sample_inputs = 900000"
proof -
  have total: "total_msat prof sample_inputs = Inr 150000000" for prof
    using add_i64_exact(1) [of 100000000 50000000 prof] by (simp add: total_msat_def sample_inputs_def)
  then obtain msg where m: "\<And>prof. build_message_block prof (\<lambda>t. t) ''Example'' sample_inputs = Inr msg"
    by (simp add: build_message_block_def)
  from message_block_injective [OF m m sample_plain sample_plain] m
  show ?thesis by (auto simp: sample_inputs_def)
qed

section \<open>Armor\<close>

text \<open>
  What the verifier does according to the plugin's README: the lines between the first armor
  line and the next are the message, the line after it is the signature.
\<close>

definition verifier_split :: "string \<Rightarrow> (string \<times> string) option" where
  "verifier_split s =
    (case lines_of s of
       [] \<Rightarrow> None
     | b # rest \<Rightarrow>
        (case dropWhile (\<lambda>l. l \<noteq> BEGIN_SIGNATURE) rest of
           [_, zbase, e, final] \<Rightarrow>
             (if b = BEGIN_MESSAGE \<and> e = END_SIGNATURE \<and> final = []
              then Some (join [newline] (takeWhile (\<lambda>l. l \<noteq> BEGIN_SIGNATURE) rest), zbase)
              else None)
         | _ \<Rightarrow> None))"

lemma one_line_armor [simp]: "one_line BEGIN_MESSAGE" "one_line BEGIN_SIGNATURE" "one_line END_SIGNATURE"
  by (simp_all add: BEGIN_MESSAGE_def BEGIN_SIGNATURE_def END_SIGNATURE_def one_line_literal newline_def)

lemma lines_of_signed:
  "one_line sig \<Longrightarrow> lines_of (build_signed_statement msg sig) =
     BEGIN_MESSAGE # lines_of msg @ [BEGIN_SIGNATURE, sig, END_SIGNATURE, []]"
proof -
  assume sig: "one_line sig"
  have "build_signed_statement msg sig =
      BEGIN_MESSAGE @ newline # (msg @ newline # (BEGIN_SIGNATURE @ newline # (sig @ newline # (END_SIGNATURE @ newline # []))))"
    by (simp add: build_signed_statement_def)
  also have "lines_of \<dots> = lines_of BEGIN_MESSAGE @ lines_of msg @ lines_of BEGIN_SIGNATURE
      @ lines_of sig @ lines_of END_SIGNATURE @ lines_of []"
    by (simp only: lines_of_append)
  finally show ?thesis
    using sig by (simp add: lines_of_one_line one_line_literal)
qed

lemma split_signed:
  assumes "one_line sig" and "BEGIN_SIGNATURE \<notin> set (lines_of msg)"
  shows "verifier_split (build_signed_statement msg sig) = Some (msg, sig)"
proof -
  have "takeWhile (\<lambda>l. l \<noteq> BEGIN_SIGNATURE) (lines_of msg @ [BEGIN_SIGNATURE, sig, END_SIGNATURE, []]) = lines_of msg"
    "dropWhile (\<lambda>l. l \<noteq> BEGIN_SIGNATURE) (lines_of msg @ [BEGIN_SIGNATURE, sig, END_SIGNATURE, []])
       = [BEGIN_SIGNATURE, sig, END_SIGNATURE, []]"
    using assms(2) by (subst takeWhile_append2 dropWhile_append2; fastforce)+
  then show ?thesis
    by (simp add: verifier_split_def lines_of_signed [OF assms(1)] join_lines_of)
qed

lemma heading_not_armor: "s @ '' node balance statement'' \<noteq> BEGIN_SIGNATURE"
proof
  assume "s @ '' node balance statement'' = BEGIN_SIGNATURE"
  then have "last (s @ '' node balance statement'') = last BEGIN_SIGNATURE" by simp
  then show False by (simp add: BEGIN_SIGNATURE_def)
qed

lemma message_lines_not_armor: "BEGIN_SIGNATURE \<notin> set (message_lines fmt s i t)"
proof -
  have "BEGIN_SIGNATURE \<noteq> s @ '' node balance statement''" using heading_not_armor by metis
  then show ?thesis
    by (simp add: message_lines_def excluded_line_def BEGIN_SIGNATURE_def)
qed

text \<open>
  C29. The armor round-trips: from a signed statement the verifier gets back exactly the text
  that was signed and its signature.
\<close>

theorem signed_statement_roundtrip:
  assumes "build_message_block prof fmt service_name inputs = Inr msg"
    and "plain_fields fmt service_name inputs" and "one_line sig"
  shows "verifier_split (build_signed_statement msg sig) = Some (msg, sig)"
proof -
  obtain t where "msg = join [newline] (message_lines fmt service_name inputs t)"
    using assms(1) by (auto simp: build_message_block_def result_simps)
  then have "lines_of msg = message_lines fmt service_name inputs t"
    by (simp add: lines_of_message [OF assms(2)])
  then show ?thesis
    using message_lines_not_armor by (intro split_signed assms(3)) simp
qed

lemma signed_statement_roundtrip_witness:
  "\<exists>msg. build_message_block Release (\<lambda>t. t) ''Example'' sample_inputs = Inr msg \<and>
     verifier_split (build_signed_statement msg ''ZBASE32'') = Some (msg, ''ZBASE32'')"
proof -
  obtain msg where m: "build_message_block Release (\<lambda>t. t) ''Example'' sample_inputs = Inr msg"
    by (simp add: build_message_block_def total_msat_def)
  have "one_line ''ZBASE32''" by (simp add: one_line_literal newline_def)
  from signed_statement_roundtrip [OF m sample_plain this] m show ?thesis by blast
qed

end
