(* ===== verification/Reserves.thy ===== *)
theory Reserves
  imports Cln Json Statement Options
begin

text \<open>
  \<open>reserves-attestor-plugin\<close>: \<open>rpc.rs\<close> reduces the node's answers to the statement's
  amounts, \<open>main.rs\<close> signs the statement, has lightningd check the signature, and
  answers \<open>get-signed-balance\<close> with the fields of \<open>lib.rs\<close>. The calls to lightningd,
  the clock and the crates that parse and print are fields of \<open>attestor_env\<close>, acting on
  the world \<open>'w\<close>.
\<close>

section \<open>On-chain amounts\<close>

record onchain_sums =
  oc_confirmed :: i64
  oc_unconfirmed :: i64
  oc_reserved :: i64
  oc_immature :: i64

definition onchain_zero :: onchain_sums where
  "onchain_zero = \<lparr>oc_confirmed = 0, oc_unconfirmed = 0, oc_reserved = 0, oc_immature = 0\<rparr>"

text \<open>One turn of the loop over \<open>funds.outputs\<close>; the first matching arm wins.\<close>

definition add_output :: "profile \<Rightarrow> onchain_sums \<Rightarrow> funds_output \<Rightarrow> onchain_sums result" where
  "add_output prof acc output =
    (let msat = as_i64 (fo_amount_msat output) in
     case fo_status output of
       CONFIRMED \<Rightarrow>
         (if \<not> fo_reserved output
          then and_then (add_i64 prof (oc_confirmed acc) msat) (\<lambda>x. Inr (acc\<lparr>oc_confirmed := x\<rparr>))
          else and_then (add_i64 prof (oc_reserved acc) msat) (\<lambda>x. Inr (acc\<lparr>oc_reserved := x\<rparr>)))
     | UNCONFIRMED \<Rightarrow> and_then (add_i64 prof (oc_unconfirmed acc) msat) (\<lambda>x. Inr (acc\<lparr>oc_unconfirmed := x\<rparr>))
     | IMMATURE \<Rightarrow> and_then (add_i64 prof (oc_immature acc) msat) (\<lambda>x. Inr (acc\<lparr>oc_immature := x\<rparr>))
     | SPENT \<Rightarrow> Inr acc)"

definition onchain_total :: "onchain_sums \<Rightarrow> nat" where
  "onchain_total a = unat (oc_confirmed a) + unat (oc_unconfirmed a) + unat (oc_reserved a) + unat (oc_immature a)"

definition output_weight :: "funds_output \<Rightarrow> nat" where
  "output_weight out = (if fo_status out = SPENT then 0 else unat (fo_amount_msat out))"

text \<open>The output whose amount a counter takes.\<close>

definition spendable :: "funds_output \<Rightarrow> bool" where
  "spendable out \<longleftrightarrow> fo_status out = CONFIRMED \<and> \<not> fo_reserved out"

definition locked :: "funds_output \<Rightarrow> bool" where
  "locked out \<longleftrightarrow> fo_status out = CONFIRMED \<and> fo_reserved out"

definition with_status :: "outputs_status \<Rightarrow> funds_output \<Rightarrow> bool" where
  "with_status st out \<longleftrightarrow> fo_status out = st"

definition share :: "(funds_output \<Rightarrow> bool) \<Rightarrow> funds_output \<Rightarrow> nat" where
  "share P out = (if P out then unat (fo_amount_msat out) else 0)"

lemma add_output_run:
  assumes "onchain_total a + output_weight out < 2 ^ 63"
  shows "\<exists>b. add_output prof a out = Inr b \<and>
    unat (oc_confirmed b) = unat (oc_confirmed a) + share spendable out \<and>
    unat (oc_reserved b) = unat (oc_reserved a) + share locked out \<and>
    unat (oc_unconfirmed b) = unat (oc_unconfirmed a) + share (with_status UNCONFIRMED) out \<and>
    unat (oc_immature b) = unat (oc_immature a) + share (with_status IMMATURE) out"
  using assms
  by (cases "fo_status out"; cases "fo_reserved out")
     (simp_all add: add_output_def onchain_total_def output_weight_def share_def spendable_def
        locked_def with_status_def add_i64_exact)

lemma add_output_shares:
  assumes "onchain_total a + output_weight out < 2 ^ 63" and "add_output prof a out = Inr b"
  shows "unat (oc_confirmed b) = unat (oc_confirmed a) + share spendable out"
    and "unat (oc_reserved b) = unat (oc_reserved a) + share locked out"
    and "unat (oc_unconfirmed b) = unat (oc_unconfirmed a) + share (with_status UNCONFIRMED) out"
    and "unat (oc_immature b) = unat (oc_immature a) + share (with_status IMMATURE) out"
  using add_output_run [OF assms(1), of prof] assms(2) by auto

lemma share_sum: "sum_list (map (share P) outs) = output_sum P outs"
  unfolding share_def output_sum_def by (rule sum_list_if)

lemma weight_split:
  "output_weight out = share spendable out + share locked out
     + share (with_status UNCONFIRMED) out + share (with_status IMMATURE) out"
  by (cases "fo_status out")
     (simp_all add: output_weight_def share_def spendable_def locked_def with_status_def)

lemma add_output_total:
  "onchain_total a + output_weight out < 2 ^ 63 \<Longrightarrow>
     \<exists>b. add_output prof a out = Inr b \<and> onchain_total b = onchain_total a + output_weight out"
  using add_output_run [of a out prof] by (auto simp: onchain_total_def weight_split)

interpretation onchain: accumulator "add_output prof" onchain_total output_weight for prof
  by unfold_locales (rule add_output_total)

interpretation confirmed: bucket "add_output prof" onchain_total output_weight
  "\<lambda>a. unat (oc_confirmed a)" "share spendable" for prof
  by unfold_locales (rule add_output_shares)

interpretation reserved: bucket "add_output prof" onchain_total output_weight
  "\<lambda>a. unat (oc_reserved a)" "share locked" for prof
  by unfold_locales (rule add_output_shares)

interpretation unconfirmed: bucket "add_output prof" onchain_total output_weight
  "\<lambda>a. unat (oc_unconfirmed a)" "share (with_status UNCONFIRMED)" for prof
  by unfold_locales (rule add_output_shares)

interpretation immature: bucket "add_output prof" onchain_total output_weight
  "\<lambda>a. unat (oc_immature a)" "share (with_status IMMATURE)" for prof
  by unfold_locales (rule add_output_shares)

section \<open>Channel amounts\<close>

record lightning_sums =
  ln_open :: i64
  ln_pending :: i64

definition lightning_zero :: lightning_sums where
  "lightning_zero = \<lparr>ln_open = 0, ln_pending = 0\<rparr>"

definition add_channel :: "profile \<Rightarrow> lightning_sums \<Rightarrow> peer_channel \<Rightarrow> lightning_sums result" where
  "add_channel prof acc channel =
    (let msat = msat_or_zero (pc_to_us_msat channel) in
     if pc_state channel = CHANNELD_NORMAL
     then and_then (add_i64 prof (ln_open acc) msat) (\<lambda>x. Inr (acc\<lparr>ln_open := x\<rparr>))
     else and_then (add_i64 prof (ln_pending acc) msat) (\<lambda>x. Inr (acc\<lparr>ln_pending := x\<rparr>)))"

definition lightning_total :: "lightning_sums \<Rightarrow> nat" where
  "lightning_total a = unat (ln_open a) + unat (ln_pending a)"

definition channel_weight :: "peer_channel \<Rightarrow> nat" where
  "channel_weight c = msat_amount (pc_to_us_msat c)"

definition is_open :: "peer_channel \<Rightarrow> bool" where
  "is_open c \<longleftrightarrow> pc_state c = CHANNELD_NORMAL"

definition channel_share :: "(peer_channel \<Rightarrow> bool) \<Rightarrow> peer_channel \<Rightarrow> nat" where
  "channel_share P c = (if P c then msat_amount (pc_to_us_msat c) else 0)"

lemma add_channel_run:
  assumes "lightning_total a + channel_weight c < 2 ^ 63"
  shows "\<exists>b. add_channel prof a c = Inr b \<and>
    unat (ln_open b) = unat (ln_open a) + channel_share is_open c \<and>
    unat (ln_pending b) = unat (ln_pending a) + channel_share (\<lambda>c. \<not> is_open c) c \<and>
    lightning_total b = lightning_total a + channel_weight c"
  using assms
  by (cases "is_open c")
     (simp_all add: add_channel_def lightning_total_def channel_weight_def channel_share_def
        is_open_def add_i64_exact)

lemma add_channel_shares:
  assumes "lightning_total a + channel_weight c < 2 ^ 63" and "add_channel prof a c = Inr b"
  shows "unat (ln_open b) = unat (ln_open a) + channel_share is_open c"
    and "unat (ln_pending b) = unat (ln_pending a) + channel_share (\<lambda>c. \<not> is_open c) c"
  using add_channel_run [OF assms(1), of prof] assms(2) by auto

lemma add_channel_total:
  "lightning_total a + channel_weight c < 2 ^ 63 \<Longrightarrow>
     \<exists>b. add_channel prof a c = Inr b \<and> lightning_total b = lightning_total a + channel_weight c"
  using add_channel_run [of a c prof] by auto

lemma channel_share_sum: "sum_list (map (channel_share P) cs) = channel_sum P cs"
  unfolding channel_share_def channel_sum_def by (rule sum_list_if)

interpretation lightning: accumulator "add_channel prof" lightning_total channel_weight for prof
  by unfold_locales (rule add_channel_total)

interpretation open_channels: bucket "add_channel prof" lightning_total channel_weight
  "\<lambda>a. unat (ln_open a)" "channel_share is_open" for prof
  by unfold_locales (rule add_channel_shares)

interpretation pending_channels: bucket "add_channel prof" lightning_total channel_weight
  "\<lambda>a. unat (ln_pending a)" "channel_share (\<lambda>c. \<not> is_open c)" for prof
  by unfold_locales (rule add_channel_shares)

section \<open>The RPC helpers\<close>

record ('w, 't, 'k) attestor_env =
  rpc_connect :: "string \<Rightarrow> 'w \<Rightarrow> (string + unit) \<times> 'w"
  rpc_getinfo :: "'w \<Rightarrow> (string + getinfo_response) \<times> 'w"
  rpc_listfunds :: "'w \<Rightarrow> (string + listfunds_response) \<times> 'w"
  rpc_listpeerchannels :: "'w \<Rightarrow> (string + peer_channel list) \<times> 'w"
  rpc_signmessage :: "string \<Rightarrow> 'w \<Rightarrow> (string + string) \<times> 'w"
  rpc_checkmessage :: "'k option \<Rightarrow> string \<Rightarrow> string \<Rightarrow> 'w \<Rightarrow> (string + bool \<times> string) \<times> 'w"
  parse_pubkey :: "string \<Rightarrow> string + 'k"
  utc_now :: "'w \<Rightarrow> 't \<times> 'w"
  format_time :: "'t \<Rightarrow> string"
  rfc3339_secs :: "'t \<Rightarrow> string"

definition sign_message :: "('w, 't, 'k) attestor_env \<Rightarrow> string \<Rightarrow> ('w, string) io" where
  "sign_message env message = io_context ''signmessage'' (io_lib (rpc_signmessage env message))"

definition check_message ::
  "('w, 't, 'k) attestor_env \<Rightarrow> string \<Rightarrow> string \<Rightarrow> 'k option \<Rightarrow> ('w, bool \<times> string) io" where
  "check_message env message zbase pubkey =
    io_context ''checkmessage'' (io_lib (rpc_checkmessage env pubkey message zbase))"

definition fetch_inputs :: "profile \<Rightarrow> ('w, 't, 'k) attestor_env \<Rightarrow> ('w, 't statement_inputs) io" where
  "fetch_inputs prof env =
    io_bind (io_context ''getinfo'' (io_lib (rpc_getinfo env))) (\<lambda>info.
    io_bind (io_context ''listfunds'' (io_lib (rpc_listfunds env))) (\<lambda>funds.
    io_bind (io_context ''listpeerchannels'' (io_lib (rpc_listpeerchannels env))) (\<lambda>peerchannels.
    io_bind (io_lift (fold_result (add_output prof) onchain_zero (lf_outputs funds))) (\<lambda>oc.
    io_bind (io_lift (fold_result (add_channel prof) lightning_zero peerchannels)) (\<lambda>ln.
    io_bind (io_read (utc_now env)) (\<lambda>now.
    io_return
      \<lparr>node_id = gi_id info, network = gi_network info, statement_time = now,
       block_height = gi_blockheight info,
       onchain_confirmed_msat = oc_confirmed oc, onchain_unconfirmed_msat = oc_unconfirmed oc,
       onchain_reserved_msat = oc_reserved oc, onchain_immature_msat = oc_immature oc,
       lightning_open_msat = ln_open ln, lightning_pending_msat = ln_pending ln\<rparr>))))))"

section \<open>get-signed-balance\<close>

record signed_balance =
  r_statement_version :: u32
  r_node_id :: string
  r_network :: string
  r_statement_time :: string
  r_block_height :: u32
  r_onchain_balance_msat :: u64
  r_lightning_balance_msat :: u64
  r_total_msat :: u64
  r_onchain_unconfirmed_msat :: u64
  r_onchain_reserved_msat :: u64
  r_onchain_immature_msat :: u64
  r_lightning_pending_msat :: u64
  r_statement :: string
  r_signature :: string

definition json_u64 :: "u64 \<Rightarrow> json" where
  "json_u64 x = JNumber (PosInt x)"

definition json_u32 :: "u32 \<Rightarrow> json" where
  "json_u32 x = JNumber (PosInt (ucast x))"

text \<open>\<open>serde_json::to_value\<close> of the derived \<open>Serialize\<close>: the entries in the order of the map.\<close>

definition signed_balance_json :: "signed_balance \<Rightarrow> json" where
  "signed_balance_json r = JObject
    [(''block_height'', json_u32 (r_block_height r)),
     (''lightning_balance_msat'', json_u64 (r_lightning_balance_msat r)),
     (''lightning_pending_msat'', json_u64 (r_lightning_pending_msat r)),
     (''network'', JString (r_network r)),
     (''node_id'', JString (r_node_id r)),
     (''onchain_balance_msat'', json_u64 (r_onchain_balance_msat r)),
     (''onchain_immature_msat'', json_u64 (r_onchain_immature_msat r)),
     (''onchain_reserved_msat'', json_u64 (r_onchain_reserved_msat r)),
     (''onchain_unconfirmed_msat'', json_u64 (r_onchain_unconfirmed_msat r)),
     (''signature'', JString (r_signature r)),
     (''statement'', JString (r_statement r)),
     (''statement_time'', JString (r_statement_time r)),
     (''statement_version'', json_u32 (r_statement_version r)),
     (''total_msat'', json_u64 (r_total_msat r))]"

definition balance_response ::
  "('w, 't, 'k) attestor_env \<Rightarrow> 't statement_inputs \<Rightarrow> i64 \<Rightarrow> string \<Rightarrow> string \<Rightarrow> signed_balance" where
  "balance_response env inputs tot armored signature =
    \<lparr>r_statement_version = STATEMENT_VERSION,
     r_node_id = node_id inputs,
     r_network = network inputs,
     r_statement_time = rfc3339_secs env (statement_time inputs),
     r_block_height = block_height inputs,
     r_onchain_balance_msat = as_u64 (onchain_confirmed_msat inputs),
     r_lightning_balance_msat = as_u64 (lightning_open_msat inputs),
     r_total_msat = as_u64 tot,
     r_onchain_unconfirmed_msat = as_u64 (onchain_unconfirmed_msat inputs),
     r_onchain_reserved_msat = as_u64 (onchain_reserved_msat inputs),
     r_onchain_immature_msat = as_u64 (onchain_immature_msat inputs),
     r_lightning_pending_msat = as_u64 (lightning_pending_msat inputs),
     r_statement = armored,
     r_signature = signature\<rparr>"

text \<open>The state of the plugin: where lightningd listens, and the name in the heading.\<close>

record attestor_state =
  as_socket_path :: string
  as_service_name :: string

definition get_signed_balance ::
  "profile \<Rightarrow> ('w, 't, 'k) attestor_env \<Rightarrow> attestor_state \<Rightarrow> ('w, json) io" where
  "get_signed_balance prof env state =
    io_bind (io_context ''connecting to CLN RPC'' (io_lib (rpc_connect env (as_socket_path state)))) (\<lambda>_.
    io_bind (fetch_inputs prof env) (\<lambda>inputs.
    io_bind (io_lift (build_message_block prof (format_time env) (as_service_name state) inputs)) (\<lambda>message.
    io_bind (sign_message env message) (\<lambda>signature.
    io_bind (io_lift (with_context ''failed to parse node id''
      (from_lib (parse_pubkey env (node_id inputs))))) (\<lambda>pubkey.
    io_bind (check_message env message signature (Some pubkey)) (\<lambda>(verified, recovered_pubkey).
    if \<not> verified
    then io_lift (bail (''signmessage/checkmessage self-check failed: verified=false, recovered pubkey=''
           @ recovered_pubkey))
    else
      let armored = build_signed_statement message signature in
      io_bind (io_lift (total_msat prof inputs)) (\<lambda>tot.
      io_return (signed_balance_json (balance_response env inputs tot armored signature)))))))))"

section \<open>main\<close>

definition SERVICE_NAME_OPTION :: "string default_option" where
  "SERVICE_NAME_OPTION =
    \<lparr>dn_name = ''reserves-attestor-service-name'', dn_default = ''Core Lightning'',
     dn_description = ''Service name printed in the signed statement heading''\<rparr>"

definition attestor_plugin :: declared_plugin where
  "attestor_plugin =
    \<lparr>dp_options = [dn_name SERVICE_NAME_OPTION], dp_rpcmethods = [''get-signed-balance''],
     dp_subscriptions = [], dp_hooks = [], dp_dynamic = False\<rparr>"

record attestor_config =
  ac_lightning_dir :: string
  ac_rpc_file :: string
  ac_user_options :: "string user_options"

record 'w attestor_main_env =
  am_configure :: "declared_plugin \<Rightarrow> 'w \<Rightarrow> (string + attestor_config option) \<times> 'w"
  am_join_path :: "string \<Rightarrow> string \<Rightarrow> string"
  am_start :: "attestor_state \<Rightarrow> 'w \<Rightarrow> (string + unit) \<times> 'w"
  am_join :: "'w \<Rightarrow> (string + unit) \<times> 'w"

definition attestor_main :: "'w attestor_main_env \<Rightarrow> ('w, unit) io" where
  "attestor_main env =
    io_bind (io_lib (am_configure env attestor_plugin)) (\<lambda>configured.
    case configured of
      None \<Rightarrow> io_return ()
    | Some configured \<Rightarrow>
        let socket_path = am_join_path env (ac_lightning_dir configured) (ac_rpc_file configured) in
        io_bind (io_lift (from_lib (default_value (ac_user_options configured) SERVICE_NAME_OPTION))) (\<lambda>service_name.
        io_bind (io_lib (am_start env \<lparr>as_socket_path = socket_path, as_service_name = service_name\<rparr>)) (\<lambda>_.
        io_lib (am_join env))))"

section \<open>What an answer guarantees\<close>

text \<open>Everything one answer comes from.\<close>

lemma get_signed_balance_Inr:
  assumes "get_signed_balance prof env st w = (Inr v, w')"
  obtains w0 inputs w1 message signature w2 pubkey recovered tot where
    "fetch_inputs prof env w0 = (Inr inputs, w1)"
    "total_msat prof inputs = Inr tot"
    "message = join [newline] (message_lines (format_time env) (as_service_name st) inputs tot)"
    "build_message_block prof (format_time env) (as_service_name st) inputs = Inr message"
    "rpc_signmessage env message w1 = (Inr signature, w2)"
    "parse_pubkey env (node_id inputs) = Inr pubkey"
    "rpc_checkmessage env (Some pubkey) message signature w2 = (Inr (True, recovered), w')"
    "v = signed_balance_json (balance_response env inputs tot (build_signed_statement message signature) signature)"
  using assms
  by (auto simp: get_signed_balance_def sign_message_def check_message_def build_message_block_def
      Let_def io_simps result_simps split: prod.splits if_splits)

text \<open>
  C2. No unverified statement leaves the node. Whenever the call answers, the statement in the
  answer is the armor of a message and a signature that lightningd has just produced for that
  message, and lightningd has verified that very pair against the node's own key: the key
  that the \<open>node_id\<close> of the same answer parses to.
\<close>

theorem statement_was_verified:
  assumes "get_signed_balance prof env st w = (Inr v, w')"
  shows "\<exists>inputs message signature pubkey recovered w1 w2.
    build_message_block prof (format_time env) (as_service_name st) inputs = Inr message \<and>
    rpc_signmessage env message w1 = (Inr signature, w2) \<and>
    parse_pubkey env (node_id inputs) = Inr pubkey \<and>
    rpc_checkmessage env (Some pubkey) message signature w2 = (Inr (True, recovered), w') \<and>
    json_at [Key ''node_id''] v = Some (JString (node_id inputs)) \<and>
    json_at [Key ''signature''] v = Some (JString signature) \<and>
    json_at [Key ''statement''] v = Some (JString (build_signed_statement message signature))"
proof -
  obtain inputs w1 message signature w2 pubkey recovered tot where
    "build_message_block prof (format_time env) (as_service_name st) inputs = Inr message"
    "rpc_signmessage env message w1 = (Inr signature, w2)"
    "parse_pubkey env (node_id inputs) = Inr pubkey"
    "rpc_checkmessage env (Some pubkey) message signature w2 = (Inr (True, recovered), w')"
    "v = signed_balance_json (balance_response env inputs tot (build_signed_statement message signature) signature)"
    by (rule get_signed_balance_Inr [OF assms])
  then show ?thesis
    by (intro exI [of _ inputs] exI [of _ message] exI [of _ signature] exI [of _ pubkey]
          exI [of _ recovered] exI [of _ w1] exI [of _ w2])
       (simp add: signed_balance_json_def balance_response_def)
qed

text \<open>A node with one output of each kind and two channels, whose every call succeeds.\<close>

definition sample_outputs :: "funds_output list" where
  "sample_outputs =
    [\<lparr>fo_amount_msat = 1000, fo_status = CONFIRMED, fo_reserved = False\<rparr>,
     \<lparr>fo_amount_msat = 2000, fo_status = CONFIRMED, fo_reserved = True\<rparr>,
     \<lparr>fo_amount_msat = 3000, fo_status = UNCONFIRMED, fo_reserved = False\<rparr>,
     \<lparr>fo_amount_msat = 4000, fo_status = IMMATURE, fo_reserved = False\<rparr>,
     \<lparr>fo_amount_msat = 5000, fo_status = SPENT, fo_reserved = False\<rparr>]"

definition sample_channel :: "string \<Rightarrow> channel_state \<Rightarrow> u64 option \<Rightarrow> peer_channel" where
  "sample_channel peer st to_us =
    \<lparr>pc_peer_id = peer, pc_peer_connected = True, pc_state = st, pc_short_channel_id = Some ''1x1x1'',
     pc_channel_id = None, pc_to_us_msat = to_us, pc_total_msat = None, pc_spendable_msat = to_us,
     pc_receivable_msat = None, pc_htlcs = None, pc_in_payments_offered = None,
     pc_in_payments_fulfilled = None, pc_in_offered_msat = None, pc_in_fulfilled_msat = None,
     pc_out_payments_offered = None, pc_out_payments_fulfilled = None, pc_out_offered_msat = None,
     pc_out_fulfilled_msat = None\<rparr>"

definition sample_channels :: "peer_channel list" where
  "sample_channels =
    [sample_channel ''02bb'' CHANNELD_NORMAL (Some 50000), sample_channel ''02cc'' (Other_state ''ONCHAIN'') (Some 600)]"

definition sample_info :: getinfo_response where
  "sample_info = \<lparr>gi_id = ''02aa'', gi_network = ''bitcoin'', gi_blockheight = 900000, gi_fees_collected_msat = 7\<rparr>"

definition sample_attestor :: "bool \<Rightarrow> (unit, unit, string) attestor_env" where
  "sample_attestor valid =
    \<lparr>rpc_connect = (\<lambda>path w. (Inr (), w)), rpc_getinfo = (\<lambda>w. (Inr sample_info, w)),
     rpc_listfunds = (\<lambda>w. (Inr \<lparr>lf_outputs = sample_outputs, lf_channels = []\<rparr>, w)),
     rpc_listpeerchannels = (\<lambda>w. (Inr sample_channels, w)),
     rpc_signmessage = (\<lambda>m w. (Inr ''zb'', w)),
     rpc_checkmessage = (\<lambda>k m s w. (Inr (valid, ''02aa''), w)),
     parse_pubkey = Inr, utc_now = (\<lambda>w. ((), w)), format_time = (\<lambda>_. ''2026-09-17T12:00:00Z''),
     rfc3339_secs = (\<lambda>_. ''2026-09-17T12:00:00Z'')\<rparr>"

definition sample_state :: attestor_state where
  "sample_state = \<lparr>as_socket_path = ''/root/.lightning/lightning-rpc'', as_service_name = ''Example''\<rparr>"

lemma fetch_inputs_exact:
  assumes "rpc_getinfo env w1 = (Inr info, w2)" and "rpc_listfunds env w2 = (Inr funds, w3)"
    and "rpc_listpeerchannels env w3 = (Inr cs, w4)" and "utc_now env w4 = (now, w5)"
    and onchain: "sum_list (map output_weight (lf_outputs funds)) < 2 ^ 63"
    and lightning: "sum_list (map channel_weight cs) < 2 ^ 63"
  shows "\<exists>i. fetch_inputs prof env w1 = (Inr i, w5) \<and> node_id i = gi_id info \<and>
    network i = gi_network info \<and> statement_time i = now \<and> block_height i = gi_blockheight info \<and>
    unat (onchain_confirmed_msat i) = output_sum spendable (lf_outputs funds) \<and>
    unat (onchain_reserved_msat i) = output_sum locked (lf_outputs funds) \<and>
    unat (onchain_unconfirmed_msat i) = output_sum (with_status UNCONFIRMED) (lf_outputs funds) \<and>
    unat (onchain_immature_msat i) = output_sum (with_status IMMATURE) (lf_outputs funds) \<and>
    unat (lightning_open_msat i) = channel_sum is_open cs \<and>
    unat (lightning_pending_msat i) = channel_sum (\<lambda>c. \<not> is_open c) cs"
proof -
  have b: "onchain_total onchain_zero + sum_list (map output_weight (lf_outputs funds)) < 2 ^ 63"
    using onchain by (simp add: onchain_total_def onchain_zero_def)
  then obtain oc where oc: "fold_result (add_output prof) onchain_zero (lf_outputs funds) = Inr oc"
    using onchain.run_exact by blast
  have l: "lightning_total lightning_zero + sum_list (map channel_weight cs) < 2 ^ 63"
    using lightning by (simp add: lightning_total_def lightning_zero_def)
  then obtain ln where ln: "fold_result (add_channel prof) lightning_zero cs = Inr ln"
    using lightning.run_exact by blast
  note buckets = confirmed.run_bucket [OF b oc] reserved.run_bucket [OF b oc]
    unconfirmed.run_bucket [OF b oc] immature.run_bucket [OF b oc]
    open_channels.run_bucket [OF l ln] pending_channels.run_bucket [OF l ln]
  show ?thesis
    using assms(1-4) oc ln buckets
    by (simp add: fetch_inputs_def io_bind_def io_context_def io_lib_def io_lift_def io_read_def
        io_return_def onchain_zero_def lightning_zero_def share_sum channel_share_sum)
qed

lemma sum_list_filter_le: "sum_list (map f (filter P xs)) \<le> sum_list (map (f :: 'a \<Rightarrow> nat) xs)"
  by (induction xs) auto

lemma output_sum_le: "output_sum spendable outs \<le> sum_list (map output_weight outs)"
  unfolding output_sum_def
  by (induction outs) (auto simp: output_weight_def spendable_def)

lemma channel_sum_le: "channel_sum P cs \<le> sum_list (map channel_weight cs)"
  unfolding channel_sum_def channel_weight_def by (rule sum_list_filter_le)


lemma sample_sums:
  "output_sum spendable sample_outputs = 1000" "channel_sum is_open sample_channels = 50000"
  "sum_list (map output_weight sample_outputs) + sum_list (map channel_weight sample_channels) < 2 ^ 63"
  by (simp_all add: output_sum_def channel_sum_def sample_outputs_def sample_channels_def sample_channel_def
      spendable_def is_open_def msat_amount_def output_weight_def channel_weight_def)


lemma sample_answer: "\<exists>v. get_signed_balance Release (sample_attestor True) sample_state () = (Inr v, ())"
  by (simp add: get_signed_balance_def sign_message_def check_message_def fetch_inputs_def
      build_message_block_def total_msat_def io_bind_def io_context_def io_lib_def io_lift_def io_read_def
      io_return_def sample_attestor_def sample_outputs_def sample_channels_def sample_channel_def
      add_output_def add_channel_def Let_def)

lemma statement_was_verified_witness:
  "\<exists>v message signature pubkey recovered.
     get_signed_balance Release (sample_attestor True) sample_state () = (Inr v, ()) \<and>
     rpc_checkmessage (sample_attestor True) (Some pubkey) message signature () = (Inr (True, recovered), ()) \<and>
     json_at [Key ''statement''] v = Some (JString (build_signed_statement message signature))"
proof -
  obtain v where v: "get_signed_balance Release (sample_attestor True) sample_state () = (Inr v, ())"
    using sample_answer by blast
  from statement_was_verified [OF v] v show ?thesis by (metis (full_types) old.unit.exhaust)
qed

text \<open>
  A node that does not verify its own signature gets no statement out: the call fails,
  whatever the other calls return.
\<close>

theorem unverified_is_refused:
  assumes "\<And>k m s w v r w'. rpc_checkmessage env k m s w = (Inr (v, r), w') \<Longrightarrow> \<not> v"
  shows "\<exists>e. fst (get_signed_balance prof env st w) = Inl e"
proof (rule ccontr)
  assume "\<not> ?thesis"
  then obtain v where "fst (get_signed_balance prof env st w) = Inr v"
    by (cases "fst (get_signed_balance prof env st w)") auto
  then obtain w' where "get_signed_balance prof env st w = (Inr v, w')"
    by (cases "get_signed_balance prof env st w") auto
  then show False by (rule get_signed_balance_Inr) (blast dest: assms)
qed

lemma unverified_is_refused_witness:
  "\<exists>e. fst (get_signed_balance Release (sample_attestor False) sample_state ()) = Inl e"
  by (rule unverified_is_refused) (simp add: sample_attestor_def)

end
