(* ===== verification/Attestation.thy ===== *)
theory Attestation
  imports Reserves
begin

text \<open>
  What the reader of an answer of \<open>get-signed-balance\<close> can rely on: the composition of the
  reduction, the statement text, the armor and the self-check. The reader has the answer
  alone and does what the README tells a verifier to do.
\<close>

text \<open>What a verifier relies on from the node and from \<open>chrono\<close>: identifiers, times and signatures are single lines.\<close>

definition answers_one_line :: "('w, 't, 'k) attestor_env \<Rightarrow> bool" where
  "answers_one_line env \<longleftrightarrow>
     (\<forall>w info w'. rpc_getinfo env w = (Inr info, w') \<longrightarrow> one_line (gi_id info) \<and> one_line (gi_network info)) \<and>
     (\<forall>m w sig w'. rpc_signmessage env m w = (Inr sig, w') \<longrightarrow> one_line sig) \<and>
     (\<forall>t. one_line (format_time env t))"

lemma fetch_inputs_one_line:
  assumes "fetch_inputs prof env w = (Inr i, w')" and "answers_one_line env" and "one_line s"
  shows "plain_fields (format_time env) s i"
proof -
  from assms(1) obtain info w1 where "rpc_getinfo env w = (Inr info, w1)"
    "node_id i = gi_id info" "network i = gi_network info"
    by (auto simp: fetch_inputs_def io_simps)
  with assms(2,3) show ?thesis by (auto simp: answers_one_line_def plain_fields_def)
qed

text \<open>
  A printed amount: the text prints a signed integer where the JSON has an unsigned one. Below
  2^63 they are the same number; from there on the text has a minus sign.
\<close>

definition amount_text :: "u64 \<Rightarrow> string" where
  "amount_text x = (if unat x < 2 ^ 63 then show_nat (unat x) else ''-'' @ show_nat (2 ^ 64 - unat x))"

lemma sint_u64: "sint (x :: u64) = (if unat x < 2 ^ 63 then int (unat x) else int (unat x) - 2 ^ 64)"
proof (cases "unat x < 2 ^ 63")
  case True
  then show ?thesis by (simp add: sint_small)
next
  case False
  have less: "uint x < 2 ^ 64" using unsigned_less [of x, where ?'a = int] by simp
  have "\<not> int (unat x) < int (2 ^ 63)" using False by (simp only: of_nat_less_iff not_False_eq_True)
  then have "2 ^ 63 \<le> uint x" by simp
  moreover have "sint x = (uint x + 2 ^ 63) mod 2 ^ 64 - 2 ^ 63"
    by (simp add: sint_uint signed_take_bit_eq_take_bit_shift take_bit_eq_mod)
  moreover have "(uint x + 2 ^ 63) mod 2 ^ 64 = ((uint x - 2 ^ 63) + 2 ^ 64) mod 2 ^ 64"
    by (rule arg_cong [where f = "\<lambda>y. y mod 2 ^ 64"]) simp
  ultimately have "sint x = uint x - 2 ^ 64" using less by (simp only: mod_add_self2) simp
  with False show ?thesis by simp
qed

lemma show_i64_amount: "show_i64 x = amount_text (as_u64 x)"
proof -
  have "unat x < 2 ^ 64" using unsigned_less [of x, where ?'a = nat] by simp
  have "nat (2 ^ 64 - int n) = 2 ^ 64 - n" if "n < 2 ^ 64" for n
    using that by (simp add: nat_eq_iff of_nat_diff)
  from this [OF \<open>unat x < 2 ^ 64\<close>] have "nat (2 ^ 64 - int (unat x)) = 2 ^ 64 - unat x" .
  moreover have "int (unat x) - 2 ^ 64 < 0" using unsigned_less [of x, where ?'a = int] by simp
  ultimately show ?thesis unfolding show_i64_def amount_text_def as_u64_def sint_u64 by simp
qed

text \<open>
  C9. The answer can be checked by a stranger. From the \<open>statement\<close> field of any answer the
  verifier of the README gets back a message and the signature of the answer, and that is
  the pair the node itself verified against the key its \<open>node_id\<close> names. The message names
  the node, the network and the height of the answer, and on the line of each of the seven
  amounts it has the number of the corresponding JSON field, in decimal, if that number is below
  2^63 (from there on, which no amount of bitcoin reaches, the line has the number less 2^64:
  the text is printed from a signed integer). The total is the sum of the two available amounts.
\<close>

theorem answer_is_verifiable:
  assumes "get_signed_balance prof env st w = (Inr v, w')"
    and "answers_one_line env" and "one_line (as_service_name st)"
  shows "\<exists>text message signature node pubkey recovered w2 height onchain lightning total unconfirmed
      reserved immature pending.
    json_at [Key ''statement''] v = Some (JString text) \<and>
    json_at [Key ''signature''] v = Some (JString signature) \<and>
    verifier_split text = Some (message, signature) \<and>
    json_at [Key ''node_id''] v = Some (JString node) \<and> parse_pubkey env node = Inr pubkey \<and>
    rpc_checkmessage env (Some pubkey) message signature w2 = (Inr (True, recovered), w') \<and>
    lines_of message ! 0 = as_service_name st @ '' node balance statement'' \<and>
    lines_of message ! 3 = ''Node ID:              '' @ node \<and>
    lines_of message ! 6 = ''Block height:         '' @ show_u32 height \<and>
    json_at [Key ''block_height''] v = Some (json_u32 height) \<and>
    lines_of message ! 8 = ''On-chain balance:     '' @ amount_text onchain @ '' msats  (confirmed, spendable by this node)'' \<and>
    json_at [Key ''onchain_balance_msat''] v = Some (json_u64 onchain) \<and>
    lines_of message ! 9 = ''Lightning balance:    '' @ amount_text lightning
      @ '' msats  (this node'' @ [CHR 0x27] @ ''s side of open channels)'' \<and>
    json_at [Key ''lightning_balance_msat''] v = Some (json_u64 lightning) \<and>
    lines_of message ! 10 = ''Total under control:  '' @ amount_text total @ '' msats'' \<and>
    json_at [Key ''total_msat''] v = Some (json_u64 total) \<and>
    total = onchain + lightning \<and>
    lines_of message ! 15 = ''  - Unconfirmed on-chain:               '' @ amount_text unconfirmed @ '' msats'' \<and>
    json_at [Key ''onchain_unconfirmed_msat''] v = Some (json_u64 unconfirmed) \<and>
    lines_of message ! 16 = ''  - Reserved on-chain UTXOs:            '' @ amount_text reserved @ '' msats'' \<and>
    json_at [Key ''onchain_reserved_msat''] v = Some (json_u64 reserved) \<and>
    lines_of message ! 17 = ''  - Immature on-chain, e.g. coinbase:   '' @ amount_text immature @ '' msats'' \<and>
    json_at [Key ''onchain_immature_msat''] v = Some (json_u64 immature) \<and>
    lines_of message ! 18 = ''  - Pending channels, opening/closing:  '' @ amount_text pending @ '' msats'' \<and>
    json_at [Key ''lightning_pending_msat''] v = Some (json_u64 pending) \<and>
    length (lines_of message) = 19"
proof -
  obtain w0 inputs w1 message signature w2 pubkey recovered tot where
    fetch: "fetch_inputs prof env w0 = (Inr inputs, w1)" and tot: "total_msat prof inputs = Inr tot"
    and message: "message = join [newline] (message_lines (format_time env) (as_service_name st) inputs tot)"
    and block: "build_message_block prof (format_time env) (as_service_name st) inputs = Inr message"
    and sign: "rpc_signmessage env message w1 = (Inr signature, w2)"
    and key: "parse_pubkey env (node_id inputs) = Inr pubkey"
    and check: "rpc_checkmessage env (Some pubkey) message signature w2 = (Inr (True, recovered), w')"
    and v: "v = signed_balance_json (balance_response env inputs tot (build_signed_statement message signature) signature)"
    by (rule get_signed_balance_Inr [OF assms(1)])
  have plain: "plain_fields (format_time env) (as_service_name st) inputs"
    by (rule fetch_inputs_one_line [OF fetch assms(2,3)])
  have "one_line signature" using sign assms(2) unfolding answers_one_line_def by blast
  then have split: "verifier_split (build_signed_statement message signature) = Some (message, signature)"
    by (intro split_signed) (simp_all add: message lines_of_message [OF plain] message_lines_not_armor)
  have total: "tot = onchain_confirmed_msat inputs + lightning_open_msat inputs"
    using tot by (auto simp: total_msat_def dest: add_i64_Inr)
  have printed: "lines_of message = message_lines (format_time env) (as_service_name st) inputs tot"
    by (simp add: message lines_of_message [OF plain])
  show ?thesis
    apply (rule exI [of _ "build_signed_statement message signature"], rule exI [of _ message],
        rule exI [of _ signature], rule exI [of _ "node_id inputs"], rule exI [of _ pubkey],
        rule exI [of _ recovered], rule exI [of _ w2], rule exI [of _ "block_height inputs"],
        rule exI [of _ "as_u64 (onchain_confirmed_msat inputs)"], rule exI [of _ "as_u64 (lightning_open_msat inputs)"],
        rule exI [of _ "as_u64 tot"], rule exI [of _ "as_u64 (onchain_unconfirmed_msat inputs)"],
        rule exI [of _ "as_u64 (onchain_reserved_msat inputs)"], rule exI [of _ "as_u64 (onchain_immature_msat inputs)"],
        rule exI [of _ "as_u64 (lightning_pending_msat inputs)"])
    using split key check total
    by (simp add: v printed message_lines_def excluded_line_def pad_right_def signed_balance_json_def
        balance_response_def show_i64_amount as_u64_def numeral_eq_Suc)
qed

lemma answer_is_verifiable_witness:
  "\<exists>v text message w'. get_signed_balance Release (sample_attestor True) sample_state () = (Inr v, w') \<and>
     json_at [Key ''statement''] v = Some (JString text) \<and>
     verifier_split text = Some (message, ''zb'') \<and> length (lines_of message) = 19 \<and>
     lines_of message ! 3 = ''Node ID:              02aa''"
proof -
  obtain v where v: "get_signed_balance Release (sample_attestor True) sample_state () = (Inr v, ())"
    using sample_answer by blast
  have one: "answers_one_line (sample_attestor True)" "one_line (as_service_name sample_state)"
    by (auto simp: answers_one_line_def sample_attestor_def sample_info_def sample_state_def
        one_line_literal newline_def)
  have sig: "json_at [Key ''signature''] v = Some (JString ''zb'') \<and>
      json_at [Key ''node_id''] v = Some (JString ''02aa'')"
    by (rule get_signed_balance_Inr [OF v])
       (auto simp: sample_attestor_def sample_info_def signed_balance_json_def balance_response_def
         fetch_inputs_def io_simps)
  from answer_is_verifiable [OF v one] obtain armored message signature node where
    "json_at [Key ''statement''] v = Some (JString armored)"
    "json_at [Key ''signature''] v = Some (JString signature)"
    "verifier_split armored = Some (message, signature)"
    "json_at [Key ''node_id''] v = Some (JString node)"
    "lines_of message ! 3 = ''Node ID:              '' @ node" "length (lines_of message) = 19"
    by (elim exE conjE) blast
  with v sig show ?thesis by auto
qed

end
