(* ===== verification/Cache.thy ===== *)
theory Cache
  imports Cln "HOL-Library.Multiset"
begin

text \<open>
  \<open>metrics-plugin/src/cache.rs\<close>: one poll of lightningd and the snapshot it becomes. A
  \<open>HashMap\<close> is an association list with each key once; the order in which \<open>into_iter\<close>
  yields it is an argument, since \<open>std\<close> does not fix it.
\<close>

section \<open>Counting with a map\<close>

text \<open>
  What the two maps of \<open>fetch\<close> are used for: count keys one at a time, look a count up,
  and go over the entries. The client lemmas say what a loop over a list of keys counts.
\<close>

locale tally =
  fixes empty :: "'m"
    and bump :: "'k \<Rightarrow> 'm \<Rightarrow> 'm"
    and count_of :: "'m \<Rightarrow> 'k \<Rightarrow> nat"
    and entries :: "'m \<Rightarrow> ('k \<times> nat) list"
    and ok :: "'m \<Rightarrow> bool"
  assumes ok_empty: "ok empty"
    and ok_bump: "\<And>k m. ok m \<Longrightarrow> ok (bump k m)"
    and count_empty: "\<And>k. count_of empty k = 0"
    and count_bump: "\<And>k m j. ok m \<Longrightarrow> count_of (bump k m) j = (if j = k then Suc (count_of m j) else count_of m j)"
    and entries_distinct: "\<And>m. ok m \<Longrightarrow> distinct (map fst (entries m))"
    and entries_count: "\<And>m k n. ok m \<Longrightarrow> (k, n) \<in> set (entries m) \<longleftrightarrow> n = count_of m k \<and> 0 < n"
begin

lemma ok_fold: "ok m \<Longrightarrow> ok (fold bump ks m)"
  by (induction ks arbitrary: m) (auto intro: ok_bump)

lemma count_fold: "ok m \<Longrightarrow> count_of (fold bump ks m) j = count_of m j + count_list ks j"
  by (induction ks arbitrary: m) (auto simp: ok_bump count_bump)

lemma count_all: "count_of (fold bump ks empty) j = count_list ks j"
  by (simp add: count_fold ok_empty count_empty)

lemma entries_all: "(k, n) \<in> set (entries (fold bump ks empty)) \<longleftrightarrow> n = count_list ks k \<and> k \<in> set ks"
proof -
  have "0 < count_list ks k \<longleftrightarrow> k \<in> set ks" by (induction ks) auto
  then show ?thesis by (auto simp: entries_count ok_fold ok_empty count_all)
qed

lemma entries_all_distinct: "distinct (map fst (entries (fold bump ks empty)))"
  by (simp add: entries_distinct ok_fold ok_empty)

end

text \<open>\<open>*map.entry(k).or_insert(0) += 1\<close> and \<open>*map.get(&k).unwrap_or(&0)\<close>.\<close>

type_synonym 'k hash_map = "('k \<times> nat) list"

fun entry_add :: "'k \<Rightarrow> 'k hash_map \<Rightarrow> 'k hash_map" where
  "entry_add k [] = [(k, 0 + 1)]"
| "entry_add k ((j, n) # m) = (if j = k then (j, n + 1) # m else (j, n) # entry_add k m)"

definition get_or_zero :: "'k hash_map \<Rightarrow> 'k \<Rightarrow> nat" where
  "get_or_zero m k = (case map_of m k of Some n \<Rightarrow> n | None \<Rightarrow> 0)"

definition counts_ok :: "'k hash_map \<Rightarrow> bool" where
  "counts_ok m \<longleftrightarrow> distinct (map fst m) \<and> (\<forall>(k, n)\<in>set m. 0 < n)"

lemma fst_entry_add: "set (map fst (entry_add k m)) = insert k (set (map fst m))"
  by (induction k m rule: entry_add.induct) auto

lemma entry_add_ok: "counts_ok m \<Longrightarrow> counts_ok (entry_add k m)"
proof (induction k m rule: entry_add.induct)
  case (2 k j n m)
  then show ?case using fst_entry_add [of k m] by (auto simp: counts_ok_def)
qed (simp add: counts_ok_def)

lemma get_entry_add: "get_or_zero (entry_add k m) j = (if j = k then Suc (get_or_zero m j) else get_or_zero m j)"
  by (induction k m rule: entry_add.induct) (auto simp: get_or_zero_def)

lemma entry_add_total: "sum_list (map snd (entry_add k m)) = Suc (sum_list (map snd m))"
  by (induction k m rule: entry_add.induct) auto

lemma tally_total: "sum_list (map snd (fold entry_add ks m)) = length ks + sum_list (map snd m)"
  by (induction ks arbitrary: m) (auto simp: entry_add_total)

lemma entries_get: "counts_ok m \<Longrightarrow> (k, n) \<in> set m \<longleftrightarrow> n = get_or_zero m k \<and> 0 < n"
proof -
  assume ok: "counts_ok m"
  then have "(k, n) \<in> set m \<longleftrightarrow> map_of m k = Some n"
    by (simp add: counts_ok_def map_of_eq_Some_iff)
  moreover have "map_of m k = Some n \<Longrightarrow> 0 < n" for n
    using ok by (auto simp: counts_ok_def dest!: map_of_SomeD)
  ultimately show ?thesis by (auto simp: get_or_zero_def split: option.splits)
qed

interpretation hash_tally: tally "[]" entry_add get_or_zero "\<lambda>m. m" counts_ok
proof unfold_locales
  show "counts_ok []" by (simp add: counts_ok_def)
  show "counts_ok m \<Longrightarrow> counts_ok (entry_add k m)" for k :: 'a and m by (rule entry_add_ok)
  show "get_or_zero [] k = 0" for k :: 'a by (simp add: get_or_zero_def)
  show "get_or_zero (entry_add k m) j = (if j = k then Suc (get_or_zero m j) else get_or_zero m j)"
    for k j :: 'a and m by (rule get_entry_add)
  show "counts_ok m \<Longrightarrow> distinct (map fst m)" for m :: "'a hash_map" by (simp add: counts_ok_def)
  show "counts_ok m \<Longrightarrow> (k, n) \<in> set m \<longleftrightarrow> n = get_or_zero m k \<and> 0 < n" for k :: 'a and m n
    by (rule entries_get)
qed

section \<open>The snapshot\<close>

record channel_snapshot =
  ch_peer_id :: string
  ch_scid :: string
  ch_balance_msat :: i64
  ch_spendable_msat :: i64
  ch_receivable_msat :: i64
  ch_capacity_msat :: i64
  ch_htlcs :: i64
  ch_in_payments_offered :: i64
  ch_in_payments_fulfilled :: i64
  ch_in_msat_offered :: i64
  ch_in_msat_fulfilled :: i64
  ch_out_payments_offered :: i64
  ch_out_payments_fulfilled :: i64
  ch_out_msat_offered :: i64
  ch_out_msat_fulfilled :: i64

record node_snapshot =
  nd_blockheight :: i64
  nd_fees_collected_msat :: i64

record funds_snapshot =
  fn_output_msat :: i64
  fn_channel_msat :: i64

record peer_snapshot =
  pr_id :: string
  pr_connected :: bool
  pr_num_channels :: nat
  pr_connected_channels :: nat

record cached_data =
  cd_node :: node_snapshot
  cd_funds :: funds_snapshot
  cd_channels :: "channel_snapshot list"
  cd_peers :: "peer_snapshot list"

text \<open>\<open>#[derive(Default)]\<close>.\<close>

definition default_cache :: cached_data where
  "default_cache =
    \<lparr>cd_node = \<lparr>nd_blockheight = 0, nd_fees_collected_msat = 0\<rparr>,
     cd_funds = \<lparr>fn_output_msat = 0, fn_channel_msat = 0\<rparr>, cd_channels = [], cd_peers = []\<rparr>"

definition scid_of :: "peer_channel \<Rightarrow> string" where
  "scid_of c =
    (case pc_short_channel_id c of
       Some s \<Rightarrow> s
     | None \<Rightarrow> (case pc_channel_id c of Some cid \<Rightarrow> cid | None \<Rightarrow> []))"

definition count_or_zero :: "nat option \<Rightarrow> i64" where
  "count_or_zero v = (case v of Some n \<Rightarrow> of_nat n | None \<Rightarrow> 0)"

definition channel_snapshot_of :: "peer_channel \<Rightarrow> channel_snapshot" where
  "channel_snapshot_of c =
    \<lparr>ch_peer_id = pc_peer_id c,
     ch_scid = scid_of c,
     ch_balance_msat = msat_or_zero (pc_to_us_msat c),
     ch_spendable_msat = msat_or_zero (pc_spendable_msat c),
     ch_receivable_msat = msat_or_zero (pc_receivable_msat c),
     ch_capacity_msat = msat_or_zero (pc_total_msat c),
     ch_htlcs = count_or_zero (pc_htlcs c),
     ch_in_payments_offered = msat_or_zero (pc_in_payments_offered c),
     ch_in_payments_fulfilled = msat_or_zero (pc_in_payments_fulfilled c),
     ch_in_msat_offered = msat_or_zero (pc_in_offered_msat c),
     ch_in_msat_fulfilled = msat_or_zero (pc_in_fulfilled_msat c),
     ch_out_payments_offered = msat_or_zero (pc_out_payments_offered c),
     ch_out_payments_fulfilled = msat_or_zero (pc_out_payments_fulfilled c),
     ch_out_msat_offered = msat_or_zero (pc_out_offered_msat c),
     ch_out_msat_fulfilled = msat_or_zero (pc_out_fulfilled_msat c)\<rparr>"

section \<open>The loop over the channels\<close>

record fetch_acc =
  fa_channels :: "channel_snapshot list"
  fa_count :: "string hash_map"
  fa_connected :: "string hash_map"

definition fetch_channel :: "peer_channel \<Rightarrow> fetch_acc \<Rightarrow> fetch_acc" where
  "fetch_channel c acc =
    \<lparr>fa_channels = fa_channels acc @ [channel_snapshot_of c],
     fa_count = entry_add (pc_peer_id c) (fa_count acc),
     fa_connected =
       (if pc_peer_connected c then entry_add (pc_peer_id c) (fa_connected acc) else fa_connected acc)\<rparr>"

definition fetch_channels :: "peer_channel list \<Rightarrow> fetch_acc" where
  "fetch_channels cs = fold fetch_channel cs \<lparr>fa_channels = [], fa_count = [], fa_connected = []\<rparr>"

definition peer_snapshot_of :: "string hash_map \<Rightarrow> string \<times> nat \<Rightarrow> peer_snapshot" where
  "peer_snapshot_of connected_count = (\<lambda>(peer, num_channels).
    let connected_channels = get_or_zero connected_count peer in
    \<lparr>pr_id = peer, pr_connected = 0 < connected_channels, pr_num_channels = num_channels,
     pr_connected_channels = connected_channels\<rparr>)"

lemma fetch_channels_split:
  "fetch_channels cs =
    \<lparr>fa_channels = map channel_snapshot_of cs,
     fa_count = fold entry_add (map pc_peer_id cs) [],
     fa_connected = fold entry_add (map pc_peer_id (filter pc_peer_connected cs)) []\<rparr>"
proof -
  have "fold fetch_channel cs acc =
    \<lparr>fa_channels = fa_channels acc @ map channel_snapshot_of cs,
     fa_count = fold entry_add (map pc_peer_id cs) (fa_count acc),
     fa_connected = fold entry_add (map pc_peer_id (filter pc_peer_connected cs)) (fa_connected acc)\<rparr>" for acc
    by (induction cs arbitrary: acc) (auto simp: fetch_channel_def)
  then show ?thesis by (simp add: fetch_channels_def)
qed

section \<open>fetch\<close>

record 'w cln_env =
  cln_connect :: "'w \<Rightarrow> (string + unit) \<times> 'w"
  cln_getinfo :: "'w \<Rightarrow> (string + getinfo_response) \<times> 'w"
  cln_listpeerchannels :: "'w \<Rightarrow> (string + peer_channel list) \<times> 'w"
  cln_listfunds :: "'w \<Rightarrow> (string + listfunds_response) \<times> 'w"
  map_order :: "string hash_map \<Rightarrow> string hash_map"

definition fetch :: "profile \<Rightarrow> 'w cln_env \<Rightarrow> ('w, cached_data) io" where
  "fetch prof env =
    io_bind (io_lib (cln_connect env)) (\<lambda>_.
    io_bind (io_lib (cln_getinfo env)) (\<lambda>info.
    io_bind (io_lib (cln_listpeerchannels env)) (\<lambda>channels_resp.
    io_bind (io_lib (cln_listfunds env)) (\<lambda>funds_resp.
    io_bind (io_lift (sum_i64 prof (map (\<lambda>x. as_i64 (fo_amount_msat x)) (lf_outputs funds_resp)))) (\<lambda>output_msat.
    io_bind (io_lift (sum_i64 prof (map (\<lambda>x. as_i64 (fc_our_amount_msat x)) (lf_channels funds_resp)))) (\<lambda>channel_msat.
    let acc = fetch_channels channels_resp in
    io_return
      \<lparr>cd_node = \<lparr>nd_blockheight = ucast (gi_blockheight info),
                  nd_fees_collected_msat = as_i64 (gi_fees_collected_msat info)\<rparr>,
       cd_funds = \<lparr>fn_output_msat = output_msat, fn_channel_msat = channel_msat\<rparr>,
       cd_channels = fa_channels acc,
       cd_peers = map (peer_snapshot_of (fa_connected acc)) (map_order env (fa_count acc))\<rparr>))))))"

lemma fetch_Inr:
  assumes "fetch prof env w = (Inr data, w')"
  obtains w1 info w2 cs w3 funds where
    "cln_connect env w = (Inr (), w1)" "cln_getinfo env w1 = (Inr info, w2)"
    "cln_listpeerchannels env w2 = (Inr cs, w3)" "cln_listfunds env w3 = (Inr funds, w')"
    "sum_i64 prof (map (\<lambda>x. as_i64 (fo_amount_msat x)) (lf_outputs funds)) = Inr (fn_output_msat (cd_funds data))"
    "sum_i64 prof (map (\<lambda>x. as_i64 (fc_our_amount_msat x)) (lf_channels funds)) = Inr (fn_channel_msat (cd_funds data))"
    "cd_node data = \<lparr>nd_blockheight = ucast (gi_blockheight info),
                     nd_fees_collected_msat = as_i64 (gi_fees_collected_msat info)\<rparr>"
    "cd_channels data = map channel_snapshot_of cs"
    "cd_peers data = map (peer_snapshot_of (fold entry_add (map pc_peer_id (filter pc_peer_connected cs)) []))
       (map_order env (fold entry_add (map pc_peer_id cs) []))"
  using assms
  by (auto simp: fetch_def Let_def io_simps fetch_channels_split)

lemma count_list_map: "count_list (map f xs) y = length (filter (\<lambda>x. f x = y) xs)"
  by (induction xs) auto

lemma fetch_peers_facts:
  assumes order: "\<And>m. mset (map_order env m) = mset m"
    and "cln_connect env w = (Inr (), w1)" and "cln_getinfo env w1 = (Inr info, w2)"
    and "cln_listpeerchannels env w2 = (Inr cs, w3)" and "fetch prof env w = (Inr data, w')"
  shows "distinct (map pr_id (cd_peers data)) \<and>
    set (map pr_id (cd_peers data)) = set (map pc_peer_id cs) \<and>
    length (cd_peers data) = card (set (map pc_peer_id cs)) \<and>
    (\<forall>p\<in>set (cd_peers data).
       pr_num_channels p = length (filter (\<lambda>c. pc_peer_id c = pr_id p) cs) \<and>
       pr_connected_channels p = length (filter (\<lambda>c. pc_peer_id c = pr_id p \<and> pc_peer_connected c) cs) \<and>
       (pr_connected p \<longleftrightarrow> (\<exists>c\<in>set cs. pc_peer_id c = pr_id p \<and> pc_peer_connected c))) \<and>
    sum_list (map pr_num_channels (cd_peers data)) = length (cd_channels data)"
proof -
  define counts where "counts = fold entry_add (map pc_peer_id cs) []"
  define conn where "conn = fold entry_add (map pc_peer_id (filter pc_peer_connected cs)) []"
  have data: "cd_peers data = map (peer_snapshot_of conn) (map_order env counts)"
    "cd_channels data = map channel_snapshot_of cs"
    using assms(2-4) unfolding counts_def conn_def by (auto intro: fetch_Inr [OF assms(5)])
  have entry: "set (map_order env counts) = set counts"
    using order by (metis set_mset_mset)
  have "mset (map fst (map_order env counts)) = mset (map fst counts)"
    by (simp add: order)
  then have dist: "distinct (map fst (map_order env counts))"
    using hash_tally.entries_all_distinct [of "map pc_peer_id cs"]
    unfolding counts_def by (metis mset_eq_imp_distinct_iff)
  have ids: "map pr_id (cd_peers data) = map fst (map_order env counts)"
    by (simp add: data(1) peer_snapshot_of_def Let_def case_prod_beta)
  have mem: "(k, n) \<in> set counts \<longleftrightarrow> n = count_list (map pc_peer_id cs) k \<and> k \<in> set (map pc_peer_id cs)" for k n
    unfolding counts_def by (rule hash_tally.entries_all)
  have keys: "set (map pr_id (cd_peers data)) = set (map pc_peer_id cs)"
  proof -
    have "k \<in> fst ` set counts \<longleftrightarrow> k \<in> set (map pc_peer_id cs)" for k
      using mem by (force simp: image_iff)
    then show ?thesis unfolding ids by (auto simp: entry)
  qed
  have conn_count: "get_or_zero conn k = length (filter (\<lambda>c. pc_peer_id c = k \<and> pc_peer_connected c) cs)" for k
    unfolding conn_def by (simp add: hash_tally.count_all count_list_map conj_commute)
  have each: "pr_num_channels p = length (filter (\<lambda>c. pc_peer_id c = pr_id p) cs) \<and>
       pr_connected_channels p = length (filter (\<lambda>c. pc_peer_id c = pr_id p \<and> pc_peer_connected c) cs) \<and>
       (pr_connected p \<longleftrightarrow> (\<exists>c\<in>set cs. pc_peer_id c = pr_id p \<and> pc_peer_connected c))"
    if "p \<in> set (cd_peers data)" for p
  proof -
    from that obtain k n where p: "p = peer_snapshot_of conn (k, n)" "(k, n) \<in> set counts"
      by (auto simp: data(1) entry)
    with mem have "n = length (filter (\<lambda>c. pc_peer_id c = k) cs)" by (simp add: count_list_map)
    then show ?thesis
      by (auto simp: p(1) peer_snapshot_of_def Let_def conn_count filter_empty_conv)
  qed
  have "sum_list (map pr_num_channels (cd_peers data)) = sum_list (map snd (map_order env counts))"
    by (simp add: data(1) peer_snapshot_of_def Let_def case_prod_beta comp_def)
  also have "\<dots> = sum_list (map snd counts)"
    using order [of counts] by (metis mset_map sum_mset_sum_list)
  also have "\<dots> = length cs"
    using tally_total [of "map pc_peer_id cs" "[]"] by (simp add: counts_def)
  finally have total: "sum_list (map pr_num_channels (cd_peers data)) = length (cd_channels data)"
    by (simp add: data(2))
  have "length (cd_peers data) = card (set (map pr_id (cd_peers data)))"
    using dist ids by (metis distinct_card length_map)
  with dist ids keys each total show ?thesis by simp
qed

text \<open>
  C14. The peers of a snapshot are an exact aggregate of its channels: each peer with a channel
  appears once and no other, with the number of its channels and of its connected
  channels, and as connected when it has one of these; the counts add up to the number of
  channels. The order of the hash map does not matter.
\<close>

theorem fetch_peers:
  assumes order: "\<And>m. mset (map_order env m) = mset m"
    and "cln_connect env w = (Inr (), w1)" and "cln_getinfo env w1 = (Inr info, w2)"
    and "cln_listpeerchannels env w2 = (Inr cs, w3)" and "fetch prof env w = (Inr data, w')"
  shows "distinct (map pr_id (cd_peers data)) \<and>
    set (map pr_id (cd_peers data)) = set (map pc_peer_id cs) \<and>
    length (cd_peers data) = card (set (map pc_peer_id cs)) \<and>
    (\<forall>p\<in>set (cd_peers data).
       pr_num_channels p = length (filter (\<lambda>c. pc_peer_id c = pr_id p) cs) \<and>
       pr_connected_channels p = length (filter (\<lambda>c. pc_peer_id c = pr_id p \<and> pc_peer_connected c) cs) \<and>
       (pr_connected p \<longleftrightarrow> (\<exists>c\<in>set cs. pc_peer_id c = pr_id p \<and> pc_peer_connected c))) \<and>
    sum_list (map pr_num_channels (cd_peers data)) = length (cd_channels data)"
  using assms by (rule fetch_peers_facts)

text \<open>A node with three channels to two peers, to try the properties on.\<close>

definition polled_channel :: "string \<Rightarrow> bool \<Rightarrow> string option \<Rightarrow> peer_channel" where
  "polled_channel peer connected scid =
    \<lparr>pc_peer_id = peer, pc_peer_connected = connected, pc_state = CHANNELD_NORMAL,
     pc_short_channel_id = scid, pc_channel_id = Some ''cid'', pc_to_us_msat = Some 700,
     pc_total_msat = Some 1000, pc_spendable_msat = Some 600, pc_receivable_msat = None,
     pc_htlcs = Some 2, pc_in_payments_offered = Some 3, pc_in_payments_fulfilled = None,
     pc_in_offered_msat = None, pc_in_fulfilled_msat = None, pc_out_payments_offered = None,
     pc_out_payments_fulfilled = None, pc_out_offered_msat = None, pc_out_fulfilled_msat = None\<rparr>"

definition polled_channels :: "peer_channel list" where
  "polled_channels =
    [polled_channel ''bob'' False (Some ''1x1x1''), polled_channel ''carol'' True None,
     polled_channel ''bob'' True (Some ''2x1x0'')]"

definition sample_funds :: listfunds_response where
  "sample_funds =
    \<lparr>lf_outputs = [\<lparr>fo_amount_msat = 5000, fo_status = CONFIRMED, fo_reserved = False\<rparr>,
                   \<lparr>fo_amount_msat = 2500, fo_status = UNCONFIRMED, fo_reserved = True\<rparr>],
     lf_channels = [\<lparr>fc_our_amount_msat = 1400\<rparr>]\<rparr>"

definition sample_cln :: "nat cln_env" where
  "sample_cln =
    \<lparr>cln_connect = (\<lambda>n. (Inr (), Suc n)),
     cln_getinfo = (\<lambda>n. (Inr \<lparr>gi_id = ''node'', gi_network = ''regtest'', gi_blockheight = 110,
       gi_fees_collected_msat = 42\<rparr>, Suc n)),
     cln_listpeerchannels = (\<lambda>n. (Inr polled_channels, Suc n)),
     cln_listfunds = (\<lambda>n. (Inr sample_funds, Suc n)),
     map_order = rev\<rparr>"

lemmas sample_cln_simps =
  sample_cln_def polled_channels_def polled_channel_def sample_funds_def

theorem fetch_peers_witness:
  "\<exists>data. fetch Release sample_cln 0 = (Inr data, 4) \<and> set (map pr_id (cd_peers data)) = {''bob'', ''carol''} \<and>
     length (cd_peers data) = 2 \<and> sum_list (map pr_num_channels (cd_peers data)) = 3"
proof -
  obtain data where data: "fetch Release sample_cln 0 = (Inr data, 4)"
    by (simp add: fetch_def io_simps io_lib_def sample_cln_def sum_i64_Release Let_def io_bind_def)
  then have "length (cd_channels data) = 3"
    by (auto elim!: fetch_Inr simp: sample_cln_simps)
  moreover have "set (map pc_peer_id polled_channels) = {''bob'', ''carol''}"
    by (auto simp: sample_cln_simps)
  moreover have "card {''bob'', ''carol''} = 2" by simp
  ultimately show ?thesis
    using fetch_peers [of sample_cln 0 1 _ 2 polled_channels 3 Release data 4] data
    by (auto simp: sample_cln_def intro!: exI [of _ data])
qed

lemma fetch_exact_facts:
  assumes "cln_connect env w = (Inr (), w1)" and "cln_getinfo env w1 = (Inr info, w2)"
    and "cln_listpeerchannels env w2 = (Inr cs, w3)" and "cln_listfunds env w3 = (Inr funds, w4)"
    and outs: "output_sum (\<lambda>_. True) (lf_outputs funds) < 2 ^ 63"
    and chans: "sum_list (map (\<lambda>c. unat (fc_our_amount_msat c)) (lf_channels funds)) < 2 ^ 63"
  shows "\<exists>data. fetch prof env w = (Inr data, w4) \<and>
    unat (fn_output_msat (cd_funds data)) = output_sum (\<lambda>_. True) (lf_outputs funds) \<and>
    unat (fn_channel_msat (cd_funds data)) = sum_list (map (\<lambda>c. unat (fc_our_amount_msat c)) (lf_channels funds)) \<and>
    unat (nd_blockheight (cd_node data)) = unat (gi_blockheight info) \<and>
    unat (nd_fees_collected_msat (cd_node data)) = unat (gi_fees_collected_msat info) \<and>
    list_all2 (\<lambda>c s. ch_peer_id s = pc_peer_id c \<and>
        (case pc_short_channel_id c of Some x \<Rightarrow> ch_scid s = x | None \<Rightarrow> Some (ch_scid s) = pc_channel_id c \<or> ch_scid s = []) \<and>
        unat (ch_balance_msat s) = msat_amount (pc_to_us_msat c) \<and>
        unat (ch_capacity_msat s) = msat_amount (pc_total_msat c)) cs (cd_channels data)"
proof -
  obtain so where so: "sum_i64 prof (map (\<lambda>x. as_i64 (fo_amount_msat x)) (lf_outputs funds)) = Inr so"
    "unat so = output_sum (\<lambda>_. True) (lf_outputs funds)"
    using sum_i64_exact [of "map (\<lambda>x. as_i64 (fo_amount_msat x)) (lf_outputs funds)" prof] outs
    by (auto simp: output_sum_def comp_def)
  obtain sc where sc: "sum_i64 prof (map (\<lambda>x. as_i64 (fc_our_amount_msat x)) (lf_channels funds)) = Inr sc"
    "unat sc = sum_list (map (\<lambda>c. unat (fc_our_amount_msat c)) (lf_channels funds))"
    using sum_i64_exact [of "map (\<lambda>x. as_i64 (fc_our_amount_msat x)) (lf_channels funds)" prof] chans
    by (auto simp: comp_def)
  have height: "unat (ucast (gi_blockheight info) :: i64) = unat (gi_blockheight info)"
    using unsigned_less [of "gi_blockheight info", where ?'a = nat]
    by (simp add: unsigned_ucast_eq take_bit_nat_eq_self)
  show ?thesis
    using assms(1-4) so sc height
    by (auto simp: fetch_def io_simps io_lib_def io_bind_def Let_def fetch_channels_split list_all2_map2
      channel_snapshot_of_def scid_of_def intro!: list_all2_refl split: option.split)
qed



end
