(* ===== verification/RustFloat.thy ===== *)
theory RustFloat
  imports RustInt
begin

text \<open>
  The \<open>f64\<close> values of the metrics plugin. All of them come from integers (\<open>as f64\<close> of an
  \<open>i64\<close> or a length, and the constants 0 and 1), so a value is the integer it denotes, and
  the conversion rounds to 53 significant bits, ties to even, as \<open>as f64\<close> does.
\<close>

type_synonym f64 = int

fun bit_width :: "nat \<Rightarrow> nat" where
  "bit_width n = (if n = 0 then 0 else Suc (bit_width (n div 2)))"

declare bit_width.simps [simp del]

lemma bit_width_upper: "n < 2 ^ bit_width n"
proof (induction n rule: bit_width.induct)
  case (1 n)
  then show ?case by (cases "n = 0") (auto simp: bit_width.simps [of n] simp del: div_eq_dividend_iff)
qed

lemma bit_width_lower: "0 < n \<Longrightarrow> 2 ^ bit_width n \<le> 2 * n"
proof (induction n rule: bit_width.induct)
  case (1 n)
  then have "2 ^ bit_width (n div 2) \<le> n"
    by (cases "n div 2 = 0") (auto simp: bit_width.simps [of 0] dest!: order_trans [of _ "2 * (n div 2)" n])
  with 1 show ?case by (simp add: bit_width.simps [of n])
qed

definition f64_of_nat :: "nat \<Rightarrow> nat" where
  "f64_of_nat n =
    (let e = bit_width n - 53; q = n div 2 ^ e; r = n mod 2 ^ e in
     (if 2 * r < 2 ^ e \<or> (2 * r = 2 ^ e \<and> even q) then q else q + 1) * 2 ^ e)"

definition f64_of_int :: "int \<Rightarrow> f64" where
  "f64_of_int x = (if x < 0 then - int (f64_of_nat (nat (- x))) else int (f64_of_nat (nat x)))"

text \<open>\<open>x as f64\<close> for a signed word and for a length.\<close>

definition i64_as_f64 :: "i64 \<Rightarrow> f64" where
  "i64_as_f64 x = f64_of_int (sint x)"

definition u64_as_f64 :: "u64 \<Rightarrow> f64" where
  "u64_as_f64 x = f64_of_int (int (unat x))"

definition usize_as_f64 :: "nat \<Rightarrow> f64" where
  "usize_as_f64 n = f64_of_int (int n)"

lemma f64_of_nat_small: "n < 2 ^ 53 \<Longrightarrow> f64_of_nat n = n"
proof -
  assume n: "n < 2 ^ 53"
  have "bit_width n \<le> 53"
  proof (cases "n = 0")
    case False
    then have "(2 :: nat) ^ bit_width n < 2 ^ 54"
      using bit_width_lower [of n] n by simp
    then have "bit_width n < 54" by (rule power_less_imp_less_exp [rotated]) simp
    then show ?thesis by simp
  qed (simp add: bit_width.simps)
  then show ?thesis by (simp add: f64_of_nat_def)
qed

lemma f64_of_nat_ulp: "let e = bit_width n - 53 in 2 * \<bar>int (f64_of_nat n) - int n\<bar> \<le> 2 ^ e"
proof -
  define e where "e = bit_width n - 53"
  define q where "q = n div 2 ^ e"
  define r where "r = n mod 2 ^ e"
  have n: "int n = int q * 2 ^ e + int r"
  proof -
    have "n = q * 2 ^ e + r" unfolding q_def r_def by (rule div_mult_mod_eq [symmetric])
    then have "int n = int (q * 2 ^ e + r)" by (rule arg_cong)
    then show ?thesis by simp
  qed
  have "r < 2 ^ e" by (simp add: r_def)
  then have "int r < int (2 ^ e)" by (simp only: of_nat_less_iff)
  then have r: "int r < 2 ^ e" by simp
  have up: "2 ^ e \<le> 2 * int r" if "\<not> 2 * r < 2 ^ e"
  proof -
    from that have "int (2 ^ e) \<le> int (2 * r)" by (simp only: of_nat_le_iff not_less)
    then show ?thesis by simp
  qed
  have down: "2 * int r \<le> 2 ^ e" if "2 * r \<le> 2 ^ e"
  proof -
    from that have "int (2 * r) \<le> int (2 ^ e)" by (simp only: of_nat_le_iff)
    then show ?thesis by simp
  qed
  have "f64_of_nat n = (if 2 * r < 2 ^ e \<or> (2 * r = 2 ^ e \<and> even q) then q else q + 1) * 2 ^ e"
    by (simp add: f64_of_nat_def e_def q_def r_def Let_def)
  then consider "2 * r \<le> 2 ^ e" "f64_of_nat n = q * 2 ^ e"
    | "\<not> 2 * r < 2 ^ e" "f64_of_nat n = (q + 1) * 2 ^ e"
    by (auto split: if_splits)
  then have "2 * \<bar>int (f64_of_nat n) - int n\<bar> \<le> 2 ^ e"
  proof cases
    case 1
    then show ?thesis using down by (simp add: n)
  next
    case 2
    then show ?thesis using up r by (simp add: n algebra_simps)
  qed
  then show ?thesis by (simp add: e_def Let_def)
qed

text \<open>The relative error of the conversion is at most \<open>2 ^ -53\<close>; small integers are exact.\<close>

lemma f64_of_nat_error: "2 ^ 53 * \<bar>int (f64_of_nat n) - int n\<bar> \<le> int n"
proof (cases "n < 2 ^ 53")
  case False
  define e where "e = bit_width n - 53"
  have ulp: "2 * \<bar>int (f64_of_nat n) - int n\<bar> \<le> 2 ^ e"
    using f64_of_nat_ulp [of n] by (simp add: e_def)
  have "0 < n" using False by (cases n) auto
  then have low: "2 ^ bit_width n \<le> 2 * n" by (rule bit_width_lower)
  have "(2 :: nat) ^ 53 < 2 ^ bit_width n" using False bit_width_upper [of n] by (meson le_less_trans not_less)
  then have "53 < bit_width n" by (rule power_less_imp_less_exp [rotated]) simp
  then have "bit_width n = 53 + e" by (simp add: e_def)
  with low have "2 ^ 53 * 2 ^ e \<le> 2 * n" by (simp add: power_add)
  then have "int (2 ^ 53 * 2 ^ e) \<le> int (2 * n)" by (simp only: of_nat_le_iff)
  then have "2 ^ 53 * 2 ^ e \<le> 2 * int n" by simp
  with ulp show ?thesis by simp
qed (simp add: f64_of_nat_small)

lemma f64_exact: "\<bar>x\<bar> < 2 ^ 53 \<Longrightarrow> f64_of_int x = x"
  by (simp add: f64_of_int_def f64_of_nat_small nat_less_iff)

lemma f64_relative_error: "2 ^ 53 * \<bar>f64_of_int x - x\<bar> \<le> \<bar>x\<bar>"
proof (cases "x < 0")
  case True
  have "2 ^ 53 * \<bar>int (f64_of_nat (nat (- x))) - int (nat (- x))\<bar> \<le> int (nat (- x))"
    by (rule f64_of_nat_error)
  moreover have "\<bar>f64_of_int x - x\<bar> = \<bar>int (f64_of_nat (nat (- x))) - int (nat (- x))\<bar>"
    using True by (simp add: f64_of_int_def)
  ultimately show ?thesis using True by simp
next
  case False
  have "2 ^ 53 * \<bar>int (f64_of_nat (nat x)) - int (nat x)\<bar> \<le> int (nat x)"
    by (rule f64_of_nat_error)
  with False show ?thesis by (simp add: f64_of_int_def)
qed

lemma u64_as_f64_exact: "unat x < 2 ^ 53 \<Longrightarrow> u64_as_f64 x = int (unat x)"
proof -
  assume "unat x < 2 ^ 53"
  then have "int (unat x) < int (2 ^ 53)" by (simp only: of_nat_less_iff)
  then show ?thesis by (simp add: u64_as_f64_def f64_exact)
qed

lemma u64_as_f64_error: "2 ^ 53 * \<bar>u64_as_f64 x - int (unat x)\<bar> \<le> int (unat x)"
  using f64_relative_error [of "int (unat x)"] by (simp add: u64_as_f64_def)

lemma i64_as_f64_exact: "unat x < 2 ^ 53 \<Longrightarrow> i64_as_f64 x = int (unat x)"
proof -
  assume x: "unat x < 2 ^ 53"
  then have "int (unat x) < int (2 ^ 53)" by (simp only: of_nat_less_iff)
  then have "\<bar>uint x\<bar> < 2 ^ 53" by simp
  with x show ?thesis by (simp add: i64_as_f64_def sint_small f64_exact)
qed

end
