(* ===== verification/Prometheus.thy ===== *)
theory Prometheus
  imports RustFloat
begin

text \<open>
  What the metrics plugin uses of the \<open>prometheus\<close> crate, as a record of operations that is
  a parameter of the model, and what the crate documents of them, as a predicate on that
  record. The objects are passed as states, since each of them is local to one call. At
  the end, a small implementation of the record on which the properties are tried.
\<close>

section \<open>The library\<close>

text \<open>\<open>Opts\<close>, with the constant labels, and a collected family with its samples.\<close>

record opts =
  op_name :: string
  op_help :: string
  op_const_labels :: "(string \<times> string) list"

text \<open>The crate collects every value as a double, that of an integer counter too.\<close>

datatype sample = Gauge_value f64 | Counter_value f64

record metric_family =
  mf_opts :: opts
  mf_samples :: "(string list \<times> sample) list"

text \<open>
  \<open>gvec_set vs x v\<close> is \<open>v.with_label_values(vs).set(x)\<close>, which panics on a wrong number
  of label values; \<open>cvec_inc_by\<close> is the same for \<open>inc_by\<close>.
\<close>

record ('desc, 'g, 'gv, 'cv) prometheus =
  gauge_with_opts :: "opts \<Rightarrow> string + 'g"
  gauge_desc :: "'g \<Rightarrow> 'desc list"
  gauge_set :: "f64 \<Rightarrow> 'g \<Rightarrow> 'g"
  gauge_collect :: "'g \<Rightarrow> metric_family list"
  gvec_new :: "opts \<Rightarrow> string list \<Rightarrow> string + 'gv"
  gvec_desc :: "'gv \<Rightarrow> 'desc list"
  gvec_set :: "string list \<Rightarrow> f64 \<Rightarrow> 'gv \<Rightarrow> 'gv result"
  gvec_collect :: "'gv \<Rightarrow> metric_family list"
  cvec_new :: "opts \<Rightarrow> string list \<Rightarrow> string + 'cv"
  cvec_desc :: "'cv \<Rightarrow> 'desc list"
  cvec_inc_by :: "string list \<Rightarrow> u64 \<Rightarrow> 'cv \<Rightarrow> 'cv result"
  cvec_collect :: "'cv \<Rightarrow> metric_family list"

text \<open>\<open>Result::unwrap\<close> and \<open>Result::expect\<close>.\<close>

fun unwrap :: "string + 'a \<Rightarrow> 'a result" where
  "unwrap (Inl e) = panic e"
| "unwrap (Inr x) = Inr x"

text \<open>A \<open>std::sync::RwLock\<close>: poisoned when a writer panicked while holding it.\<close>

record 'a rw_lock =
  lk_poisoned :: bool
  lk_content :: 'a

definition lock_read :: "'a rw_lock \<Rightarrow> 'a result" where
  "lock_read l = (if lk_poisoned l then panic ''cache lock poisoned'' else Inr (lk_content l))"

definition lock_write :: "'a rw_lock \<Rightarrow> 'a \<Rightarrow> 'a rw_lock result" where
  "lock_write l x = (if lk_poisoned l then panic ''cache lock poisoned'' else Inr (l\<lparr>lk_content := x\<rparr>))"

section \<open>What the library documents\<close>

text \<open>
  A vector starts empty; \<open>with_label_values\<close> makes the child of its labels on first use, and
  \<open>set\<close> or \<open>inc_by\<close> act on it; collecting gives one family with one sample per child. What a
  child keeps and what is collected of it are the two parts of a \<open>metric_kind\<close>: a counter adds
  in 64 bits and is then converted to a double. The samples after a sequence of updates are
  those of \<open>apply_updates\<close>.
\<close>

type_synonym ('x, 'y) metric_kind = "('y option \<Rightarrow> 'x \<Rightarrow> 'y) \<times> ('y \<Rightarrow> sample)"

definition apply_updates :: "('x, 'y) metric_kind \<Rightarrow> (string list \<times> 'x) list \<Rightarrow> string list \<Rightarrow> sample option" where
  "apply_updates kind ups =
    map_option (snd kind) \<circ> fold (\<lambda>(ls, x) m. m(ls \<mapsto> fst kind (m ls) x)) ups Map.empty"

definition set_act :: "(f64, f64) metric_kind" where
  "set_act = (\<lambda>old x. x, Gauge_value)"

definition inc_act :: "(u64, u64) metric_kind" where
  "inc_act = (\<lambda>old x. case old of Some n \<Rightarrow> n + x | None \<Rightarrow> x, \<lambda>n. Counter_value (u64_as_f64 n))"

definition vec_documented ::
  "(opts \<Rightarrow> string list \<Rightarrow> string + 'v) \<Rightarrow> (string list \<Rightarrow> 'x \<Rightarrow> 'v \<Rightarrow> 'v result) \<Rightarrow> ('v \<Rightarrow> metric_family list)
    \<Rightarrow> ('x, 'y) metric_kind \<Rightarrow> bool" where
  "vec_documented create update coll kind \<longleftrightarrow>
    (\<forall>op names v ups. create op names = Inr v \<longrightarrow> (\<forall>(ls, x)\<in>set ups. length ls = length names) \<longrightarrow>
      (\<exists>v' samples. fold_result (\<lambda>v (ls, x). update ls x v) v ups = Inr v' \<and>
         coll v' = [\<lparr>mf_opts = op, mf_samples = samples\<rparr>] \<and> map_of samples = apply_updates kind ups))"

definition prometheus_documented :: "(opts \<Rightarrow> string list \<Rightarrow> 'desc) \<Rightarrow> ('desc, 'g, 'gv, 'cv) prometheus \<Rightarrow> bool" where
  "prometheus_documented describe p \<longleftrightarrow>
    (\<forall>op g x. gauge_with_opts p op = Inr g \<longrightarrow> gauge_desc p g = [describe op []] \<and>
       gauge_collect p (gauge_set p x g) = [\<lparr>mf_opts = op, mf_samples = [([], Gauge_value x)]\<rparr>]) \<and>
    (\<forall>op names v. gvec_new p op names = Inr v \<longrightarrow> gvec_desc p v = [describe op names]) \<and>
    (\<forall>op names v. cvec_new p op names = Inr v \<longrightarrow> cvec_desc p v = [describe op names]) \<and>
    vec_documented (gvec_new p) (gvec_set p) (gvec_collect p) set_act \<and>
    vec_documented (cvec_new p) (cvec_inc_by p) (cvec_collect p) inc_act"

section \<open>What a sequence of updates leaves\<close>

lemma apply_updates_Nil [simp]: "apply_updates kind [] = Map.empty"
  by (simp add: apply_updates_def fun_eq_iff)

text \<open>A gauge keeps the last value set under its labels, a counter the sum.\<close>

lemma apply_set:
  "apply_updates set_act (map (\<lambda>x. (lab x, f x)) xs) ls =
     (let ys = filter (\<lambda>x. lab x = ls) xs in
      if ys = [] then None else Some (Gauge_value (f (last ys))))"
  by (induction xs rule: rev_induct) (auto simp: apply_updates_def set_act_def Let_def)

lemma raw_inc:
  "fold (\<lambda>(ls, x) m. m(ls \<mapsto> fst inc_act (m ls) x)) (map (\<lambda>x. (lab x, f x)) xs) Map.empty ls =
     (let ys = filter (\<lambda>x. lab x = ls) xs in if ys = [] then None else Some (sum_list (map f ys)))"
  by (induction xs rule: rev_induct) (auto simp: inc_act_def Let_def split: if_splits)

lemma apply_inc:
  "apply_updates inc_act (map (\<lambda>x. (lab x, f x)) xs) ls =
     (let ys = filter (\<lambda>x. lab x = ls) xs in
      if ys = [] then None else Some (Counter_value (u64_as_f64 (sum_list (map f ys)))))"
  unfolding apply_updates_def comp_def raw_inc by (simp add: Let_def inc_act_def)

text \<open>A loop that updates one vector for each element of a list.\<close>

lemma vec_loop:
  assumes "vec_documented create update coll act" and "create op names = Inr v"
    and "\<And>x. x \<in> set xs \<Longrightarrow> length (lab x) = length names"
  obtains v' samples where "fold_result (\<lambda>v x. update (lab x) (f x) v) v xs = Inr v'"
    and "coll v' = [\<lparr>mf_opts = op, mf_samples = samples\<rparr>]"
    and "map_of samples = apply_updates act (map (\<lambda>x. (lab x, f x)) xs)"
proof -
  have "fold_result (\<lambda>v (ls, y). update ls y v) v (map (\<lambda>x. (lab x, f x)) xs) =
    fold_result (\<lambda>v x. update (lab x) (f x) v) v xs" for v
  proof (induction xs arbitrary: v)
    case (Cons x xs)
    then show ?case by simp
  qed simp
  moreover have "\<forall>(ls, y)\<in>set (map (\<lambda>x. (lab x, f x)) xs). length ls = length names"
    using assms(3) by auto
  moreover obtain v' samples where
    "fold_result (\<lambda>v (ls, y). update ls y v) v (map (\<lambda>x. (lab x, f x)) xs) = Inr v'"
    "coll v' = [\<lparr>mf_opts = op, mf_samples = samples\<rparr>]"
    "map_of samples = apply_updates act (map (\<lambda>x. (lab x, f x)) xs)"
    using assms(1) [unfolded vec_documented_def, rule_format, OF assms(2), of "map (\<lambda>x. (lab x, f x)) xs"]
      calculation(2) by blast
  ultimately show ?thesis using that by simp
qed

section \<open>An implementation\<close>

text \<open>A vector of the implementation has, for each label tuple, what its child keeps.\<close>

type_synonym 'y plain_vec = "opts \<times> nat \<times> (string list \<times> 'y) list"

definition plain_update :: "('x, 'y) metric_kind \<Rightarrow> string list \<Rightarrow> 'x \<Rightarrow> 'y plain_vec \<Rightarrow> 'y plain_vec result" where
  "plain_update kind ls x = (\<lambda>(op, n, m).
    if length ls = n then Inr (op, n, (ls, fst kind (map_of m ls) x) # filter (\<lambda>(k, s). k \<noteq> ls) m)
    else panic ''inconsistent cardinality'')"

definition plain_vec_new :: "opts \<Rightarrow> string list \<Rightarrow> string + 'y plain_vec" where
  "plain_vec_new op names = Inr (op, length names, [])"

definition plain_vec_collect :: "('x, 'y) metric_kind \<Rightarrow> 'y plain_vec \<Rightarrow> metric_family list" where
  "plain_vec_collect kind = (\<lambda>(op, n, m). [\<lparr>mf_opts = op, mf_samples = map (\<lambda>(ls, y). (ls, snd kind y)) m\<rparr>])"

lemma plain_vec_documented:
  fixes kind :: "('x, 'y) metric_kind"
  shows "vec_documented plain_vec_new (plain_update kind) (plain_vec_collect kind) kind"
proof -
  have run: "\<exists>m'. fold_result (\<lambda>v (ls, x). plain_update kind ls x v) (op, n, m) ups = Inr (op, n, m') \<and>
      map_of m' = fold (\<lambda>(ls, x) m. m(ls \<mapsto> fst kind (m ls) x)) ups (map_of m)"
    if "\<forall>(ls, x)\<in>set ups. length ls = n" for op n m ups
    using that
  proof (induction ups arbitrary: m)
    case (Cons u ups)
    obtain ls x where u: "u = (ls, x)" by (cases u)
    let ?m = "(ls, fst kind (map_of m ls) x) # filter (\<lambda>(k, s). k \<noteq> ls) m"
    have "map_of (filter (\<lambda>(k, s). k \<noteq> ls) m) k = (if k = ls then None else map_of m k)" for k
      by (induction m) auto
    then have m: "map_of ?m = (map_of m)(ls \<mapsto> fst kind (map_of m ls) x)" by (simp add: fun_eq_iff)
    obtain m' where "fold_result (\<lambda>v (ls, x). plain_update kind ls x v) (op, n, ?m) ups = Inr (op, n, m')"
      "map_of m' = fold (\<lambda>(ls, x) m. m(ls \<mapsto> fst kind (m ls) x)) ups (map_of ?m)"
    proof -
      have "\<forall>(ls, x)\<in>set ups. length ls = n" using Cons.prems by simp
      from Cons.IH [OF this, of ?m] show ?thesis using that by blast
    qed
    moreover have "plain_update kind ls x (op, n, m) = Inr (op, n, ?m)"
      using Cons.prems u by (simp add: plain_update_def)
    ultimately show ?case unfolding m by (simp add: u del: fun_upd_apply)
  qed simp
  have read: "map_of (map (\<lambda>(ls, y). (ls, snd kind y)) m) = map_option (snd kind) \<circ> map_of m" for m :: "(string list \<times> 'y) list"
    by (simp add: map_of_map)
  show ?thesis
    unfolding vec_documented_def plain_vec_new_def apply_updates_def
    using run [of _ _ _ "[]"] by (fastforce simp: plain_vec_collect_def read)
qed

definition plain_prometheus :: "(opts \<times> string list, opts \<times> f64, f64 plain_vec, u64 plain_vec) prometheus" where
  "plain_prometheus =
    \<lparr>gauge_with_opts = (\<lambda>op. Inr (op, 0)), gauge_desc = (\<lambda>g. [(fst g, [])]),
     gauge_set = (\<lambda>x g. (fst g, x)),
     gauge_collect = (\<lambda>g. [\<lparr>mf_opts = fst g, mf_samples = [([], Gauge_value (snd g))]\<rparr>]),
     gvec_new = plain_vec_new, gvec_desc = (\<lambda>v. [(fst v, replicate (fst (snd v)) [])]),
     gvec_set = plain_update set_act, gvec_collect = plain_vec_collect set_act,
     cvec_new = plain_vec_new, cvec_desc = (\<lambda>v. [(fst v, replicate (fst (snd v)) [])]),
     cvec_inc_by = plain_update inc_act, cvec_collect = plain_vec_collect inc_act\<rparr>"

lemma plain_prometheus_documented:
  "prometheus_documented (\<lambda>op names. (op, replicate (length names) [])) plain_prometheus"
  unfolding prometheus_documented_def
  by (simp add: plain_prometheus_def plain_vec_documented) (auto simp: plain_vec_new_def)

end
