(* ===== verification/Collector.thy ===== *)
theory Collector
  imports Cache Prometheus
begin

text \<open>
  \<open>DerivedCollector\<close> of \<open>metrics-plugin/src/metrics.rs\<close>: the gauges and counters computed
  from the cached snapshot at each scrape.
\<close>

section \<open>DerivedCollector\<close>

definition CHANNEL_LABELS :: "string list" where
  "CHANNEL_LABELS = [''peer_id'', ''scid'']"

definition PEER_LABELS :: "string list" where
  "PEER_LABELS = [''peer_id'']"

text \<open>The 25 options of the struct, then the struct; the shared cache is an argument of \<open>collect\<close>.\<close>

record collector_opts =
  dc_node_blockheight :: opts
  dc_fees_collected_msat :: opts
  dc_funds_output_msat :: opts
  dc_funds_channel_msat :: opts
  dc_funds_total_msat :: opts
  dc_total_outbound_msat :: opts
  dc_total_inbound_msat :: opts
  dc_peers :: opts
  dc_channels :: opts
  dc_channel_balance_msat :: opts
  dc_channel_spendable_msat :: opts
  dc_channel_receivable_msat :: opts
  dc_channel_capacity_msat :: opts
  dc_channel_htlcs :: opts
  dc_channel_in_payments_offered :: opts
  dc_channel_in_payments_fulfilled :: opts
  dc_channel_in_msat_offered :: opts
  dc_channel_in_msat_fulfilled :: opts
  dc_channel_out_payments_offered :: opts
  dc_channel_out_payments_fulfilled :: opts
  dc_channel_out_msat_offered :: opts
  dc_channel_out_msat_fulfilled :: opts
  dc_peer_connected :: opts
  dc_peer_channels :: opts
  dc_peer_channel_connected :: opts

record 'desc derived_collector =
  dc_descs :: "'desc list"
  dc_opts :: collector_opts

definition opts_for :: "string \<Rightarrow> string \<Rightarrow> string \<Rightarrow> opts" where
  "opts_for node_id nam help = \<lparr>op_name = nam, op_help = help, op_const_labels = [(''node_id'', node_id)]\<rparr>"

definition derived_opts :: "string \<Rightarrow> collector_opts" where
  "derived_opts node_id =
    \<lparr>dc_node_blockheight = opts_for node_id ''lightning_node_blockheight''
       ''Current Bitcoin blockheight on this node.'',
     dc_fees_collected_msat = opts_for node_id ''lightning_fees_collected_msat''
       ''Total routing fees collected by this node in millisatoshis.'',
     dc_funds_output_msat = opts_for node_id ''lightning_funds_output_msat''
       ''On-chain millisatoshis available to the node.'',
     dc_funds_channel_msat = opts_for node_id ''lightning_funds_channel_msat''
       ''Millisatoshis held in payment channels (our side).'',
     dc_funds_total_msat = opts_for node_id ''lightning_funds_total_msat''
       ''Total millisatoshis owned by this node (on-chain + channels).'',
     dc_total_outbound_msat = opts_for node_id ''lightning_total_outbound_msat''
       ''Total spendable millisatoshis across all channels (outbound liquidity).'',
     dc_total_inbound_msat = opts_for node_id ''lightning_total_inbound_msat''
       ''Total receivable millisatoshis across all channels (inbound liquidity).'',
     dc_peers = opts_for node_id ''lightning_peers''
       ''Total number of peers with at least one channel.'',
     dc_channels = opts_for node_id ''lightning_channels''
       ''Total number of peer channels.'',
     dc_channel_balance_msat = opts_for node_id ''lightning_channel_balance_msat''
       ''Our balance in millisatoshis for this channel.'',
     dc_channel_spendable_msat = opts_for node_id ''lightning_channel_spendable_msat''
       ''Currently spendable millisatoshis on this channel (outbound).'',
     dc_channel_receivable_msat = opts_for node_id ''lightning_channel_receivable_msat''
       ''Currently receivable millisatoshis on this channel (inbound).'',
     dc_channel_capacity_msat = opts_for node_id ''lightning_channel_capacity_msat''
       ''Total capacity of this channel in millisatoshis.'',
     dc_channel_htlcs = opts_for node_id ''lightning_channel_htlcs''
       ''Number of active HTLCs on this channel.'',
     dc_channel_in_payments_offered = opts_for node_id ''lightning_channel_in_payments_offered_total''
       ''Incoming payments offered for forwarding through this channel.'',
     dc_channel_in_payments_fulfilled = opts_for node_id ''lightning_channel_in_payments_fulfilled_total''
       ''Incoming payments successfully forwarded through this channel.'',
     dc_channel_in_msat_offered = opts_for node_id ''lightning_channel_in_msat_offered_total''
       ''Incoming millisatoshis offered for forwarding through this channel.'',
     dc_channel_in_msat_fulfilled = opts_for node_id ''lightning_channel_in_msat_fulfilled_total''
       ''Incoming millisatoshis successfully forwarded through this channel.'',
     dc_channel_out_payments_offered = opts_for node_id ''lightning_channel_out_payments_offered_total''
       ''Outgoing payments offered for forwarding through this channel.'',
     dc_channel_out_payments_fulfilled = opts_for node_id ''lightning_channel_out_payments_fulfilled_total''
       ''Outgoing payments successfully forwarded through this channel.'',
     dc_channel_out_msat_offered = opts_for node_id ''lightning_channel_out_msat_offered_total''
       ''Outgoing millisatoshis offered for forwarding through this channel.'',
     dc_channel_out_msat_fulfilled = opts_for node_id ''lightning_channel_out_msat_fulfilled_total''
       ''Outgoing millisatoshis successfully forwarded through this channel.'',
     dc_peer_connected = opts_for node_id ''lightning_peer_connected''
       ''Is the peer currently connected? (1=yes, 0=no)'',
     dc_peer_channels = opts_for node_id ''lightning_peer_channels''
       ''Number of channels with this peer.'',
     dc_peer_channel_connected = opts_for node_id ''lightning_peer_channel_connected''
       ''Number of connected channels with this peer.''\<rparr>"

text \<open>The four groups, in the order of the loops of \<open>new\<close> and of the answers of \<open>collect\<close>.\<close>

definition scalar_opts :: "collector_opts \<Rightarrow> opts list" where
  "scalar_opts dc =
    [dc_node_blockheight dc,
     dc_fees_collected_msat dc,
     dc_funds_output_msat dc,
     dc_funds_channel_msat dc,
     dc_funds_total_msat dc,
     dc_total_outbound_msat dc,
     dc_total_inbound_msat dc,
     dc_peers dc,
     dc_channels dc]"

definition channel_gauge_opts :: "collector_opts \<Rightarrow> opts list" where
  "channel_gauge_opts dc =
    [dc_channel_balance_msat dc,
     dc_channel_spendable_msat dc,
     dc_channel_receivable_msat dc,
     dc_channel_capacity_msat dc,
     dc_channel_htlcs dc]"

definition channel_counter_opts :: "collector_opts \<Rightarrow> opts list" where
  "channel_counter_opts dc =
    [dc_channel_in_payments_offered dc,
     dc_channel_in_payments_fulfilled dc,
     dc_channel_in_msat_offered dc,
     dc_channel_in_msat_fulfilled dc,
     dc_channel_out_payments_offered dc,
     dc_channel_out_payments_fulfilled dc,
     dc_channel_out_msat_offered dc,
     dc_channel_out_msat_fulfilled dc]"

definition peer_gauge_opts :: "collector_opts \<Rightarrow> opts list" where
  "peer_gauge_opts dc =
    [dc_peer_connected dc,
     dc_peer_channels dc,
     dc_peer_channel_connected dc]"

definition extend_descs :: "('a \<Rightarrow> string + 'm) \<Rightarrow> ('m \<Rightarrow> 'desc list) \<Rightarrow> 'a list \<Rightarrow> 'desc list \<Rightarrow> 'desc list result" where
  "extend_descs create desc os descs =
    fold_result (\<lambda>ds opt. and_then (from_lib (create opt)) (\<lambda>m. Inr (ds @ desc m))) descs os"

definition derived_collector_new ::
  "('desc, 'g, 'gv, 'cv) prometheus \<Rightarrow> string \<Rightarrow> 'desc derived_collector result" where
  "derived_collector_new p node_id =
    (let o1 = derived_opts node_id in
     and_then (extend_descs (gauge_with_opts p) (gauge_desc p) (scalar_opts o1) []) (\<lambda>d1.
     and_then (extend_descs (\<lambda>op. gvec_new p op CHANNEL_LABELS) (gvec_desc p) (channel_gauge_opts o1) d1) (\<lambda>d2.
     and_then (extend_descs (\<lambda>op. cvec_new p op CHANNEL_LABELS) (cvec_desc p) (channel_counter_opts o1) d2) (\<lambda>d3.
     and_then (extend_descs (\<lambda>op. gvec_new p op PEER_LABELS) (gvec_desc p) (peer_gauge_opts o1) d3) (\<lambda>d4.
     Inr \<lparr>dc_descs = d4, dc_opts = o1\<rparr>)))))"

section \<open>collect\<close>

definition scalar :: "('desc, 'g, 'gv, 'cv) prometheus \<Rightarrow> opts \<Rightarrow> f64 \<Rightarrow> metric_family list result" where
  "scalar p op v =
    and_then (unwrap (gauge_with_opts p op)) (\<lambda>g. Inr (gauge_collect p (gauge_set p v g)))"

definition collect_scalars ::
  "profile \<Rightarrow> ('desc, 'g, 'gv, 'cv) prometheus \<Rightarrow> collector_opts \<Rightarrow> cached_data \<Rightarrow> metric_family list result" where
  "collect_scalars prof p os cache =
    and_then (scalar p (dc_node_blockheight os) (i64_as_f64 (nd_blockheight (cd_node cache)))) (\<lambda>f1.
    and_then (scalar p (dc_fees_collected_msat os) (i64_as_f64 (nd_fees_collected_msat (cd_node cache)))) (\<lambda>f2.
    and_then (scalar p (dc_funds_output_msat os) (i64_as_f64 (fn_output_msat (cd_funds cache)))) (\<lambda>f3.
    and_then (scalar p (dc_funds_channel_msat os) (i64_as_f64 (fn_channel_msat (cd_funds cache)))) (\<lambda>f4.
    and_then (add_i64 prof (fn_output_msat (cd_funds cache)) (fn_channel_msat (cd_funds cache))) (\<lambda>total_msat.
    and_then (scalar p (dc_funds_total_msat os) (i64_as_f64 total_msat)) (\<lambda>f5.
    and_then (sum_i64 prof (map ch_spendable_msat (cd_channels cache))) (\<lambda>total_outbound.
    and_then (sum_i64 prof (map ch_receivable_msat (cd_channels cache))) (\<lambda>total_inbound.
    and_then (scalar p (dc_total_outbound_msat os) (i64_as_f64 total_outbound)) (\<lambda>f6.
    and_then (scalar p (dc_total_inbound_msat os) (i64_as_f64 total_inbound)) (\<lambda>f7.
    and_then (scalar p (dc_peers os) (usize_as_f64 (length (cd_peers cache)))) (\<lambda>f8.
    and_then (scalar p (dc_channels os) (usize_as_f64 (length (cd_channels cache)))) (\<lambda>f9.
    Inr (f1 @ f2 @ f3 @ f4 @ f5 @ f6 @ f7 @ f8 @ f9)))))))))))))"

text \<open>One pass of a loop body: each vector gets its value under the labels.\<close>

fun update_all :: "(string list \<Rightarrow> 'x \<Rightarrow> 'v \<Rightarrow> 'v result) \<Rightarrow> string list \<Rightarrow> 'x list \<Rightarrow> 'v list \<Rightarrow> 'v list result" where
  "update_all update labels (x # xs) (v # vs) =
     and_then (update labels x v) (\<lambda>v'. and_then (update_all update labels xs vs) (\<lambda>vs'. Inr (v' # vs')))"
| "update_all update labels _ _ = Inr []"

definition channel_labels :: "channel_snapshot \<Rightarrow> string list" where
  "channel_labels ch = [ch_peer_id ch, ch_scid ch]"

definition channel_gauge_values :: "channel_snapshot \<Rightarrow> f64 list" where
  "channel_gauge_values ch =
    [i64_as_f64 (ch_balance_msat ch), i64_as_f64 (ch_spendable_msat ch), i64_as_f64 (ch_receivable_msat ch),
     i64_as_f64 (ch_capacity_msat ch), i64_as_f64 (ch_htlcs ch)]"

definition channel_counter_values :: "channel_snapshot \<Rightarrow> u64 list" where
  "channel_counter_values ch =
    [as_u64 (ch_in_payments_offered ch), as_u64 (ch_in_payments_fulfilled ch),
     as_u64 (ch_in_msat_offered ch), as_u64 (ch_in_msat_fulfilled ch),
     as_u64 (ch_out_payments_offered ch), as_u64 (ch_out_payments_fulfilled ch),
     as_u64 (ch_out_msat_offered ch), as_u64 (ch_out_msat_fulfilled ch)]"

definition update_channel ::
  "('desc, 'g, 'gv, 'cv) prometheus \<Rightarrow> 'gv list \<times> 'cv list \<Rightarrow> channel_snapshot \<Rightarrow> ('gv list \<times> 'cv list) result" where
  "update_channel p = (\<lambda>(gs, cs) ch.
    and_then (update_all (gvec_set p) (channel_labels ch) (channel_gauge_values ch) gs) (\<lambda>gs'.
    and_then (update_all (cvec_inc_by p) (channel_labels ch) (channel_counter_values ch) cs) (\<lambda>cs'.
    Inr (gs', cs'))))"

definition collect_channels ::
  "('desc, 'g, 'gv, 'cv) prometheus \<Rightarrow> collector_opts \<Rightarrow> cached_data \<Rightarrow> metric_family list result" where
  "collect_channels p os cache =
    and_then (map_result (\<lambda>op. unwrap (gvec_new p op CHANNEL_LABELS)) (channel_gauge_opts os)) (\<lambda>gs0.
    and_then (map_result (\<lambda>op. unwrap (cvec_new p op CHANNEL_LABELS)) (channel_counter_opts os)) (\<lambda>cs0.
    and_then (fold_result (update_channel p) (gs0, cs0) (cd_channels cache)) (\<lambda>(gs, cs).
    Inr (concat (map (gvec_collect p) gs) @ concat (map (cvec_collect p) cs)))))"

definition peer_gauge_values :: "peer_snapshot \<Rightarrow> f64 list" where
  "peer_gauge_values pr =
    [if pr_connected pr then 1 else 0, usize_as_f64 (pr_num_channels pr), usize_as_f64 (pr_connected_channels pr)]"

definition collect_peers ::
  "('desc, 'g, 'gv, 'cv) prometheus \<Rightarrow> collector_opts \<Rightarrow> cached_data \<Rightarrow> metric_family list result" where
  "collect_peers p os cache =
    and_then (map_result (\<lambda>op. unwrap (gvec_new p op PEER_LABELS)) (peer_gauge_opts os)) (\<lambda>gs0.
    and_then (fold_result (\<lambda>gs pr. update_all (gvec_set p) [pr_id pr] (peer_gauge_values pr) gs) gs0 (cd_peers cache)) (\<lambda>gs.
    Inr (concat (map (gvec_collect p) gs))))"

definition collect ::
  "profile \<Rightarrow> ('desc, 'g, 'gv, 'cv) prometheus \<Rightarrow> 'desc derived_collector \<Rightarrow> cached_data rw_lock \<Rightarrow> metric_family list result" where
  "collect prof p dc lock =
    and_then (lock_read lock) (\<lambda>cache.
    and_then (collect_scalars prof p (dc_opts dc) cache) (\<lambda>scalars.
    and_then (collect_channels p (dc_opts dc) cache) (\<lambda>channels.
    and_then (collect_peers p (dc_opts dc) cache) (\<lambda>peers.
    Inr (scalars @ channels @ peers)))))"

section \<open>What new has checked\<close>

lemma extend_descs_Inr:
  assumes "extend_descs create desc os ds = Inr ds'"
    and "\<And>op m. create op = Inr m \<Longrightarrow> desc m = [describe op]"
  shows "ds' = ds @ map describe os" and "\<forall>op\<in>set os. \<exists>m. create op = Inr m"
proof -
  have "ds' = ds @ map describe os \<and> (\<forall>op\<in>set os. \<exists>m. create op = Inr m)"
    using assms(1)
  proof (induction os arbitrary: ds)
    case (Cons op os)
    then obtain m where m: "create op = Inr m" "extend_descs create desc os (ds @ desc m) = Inr ds'"
      by (auto simp: extend_descs_def result_simps)
    with Cons.IH [OF m(2)] assms(2) [OF m(1)] show ?case by auto
  qed (simp add: extend_descs_def)
  then show "ds' = ds @ map describe os" and "\<forall>op\<in>set os. \<exists>m. create op = Inr m" by auto
qed

definition all_opts :: "collector_opts \<Rightarrow> opts list" where
  "all_opts os = scalar_opts os @ channel_gauge_opts os @ channel_counter_opts os @ peer_gauge_opts os"

definition all_labels :: "collector_opts \<Rightarrow> string list list" where
  "all_labels os = map (\<lambda>_. []) (scalar_opts os) @ map (\<lambda>_. CHANNEL_LABELS) (channel_gauge_opts os)
     @ map (\<lambda>_. CHANNEL_LABELS) (channel_counter_opts os) @ map (\<lambda>_. PEER_LABELS) (peer_gauge_opts os)"

definition creatable :: "('desc, 'g, 'gv, 'cv) prometheus \<Rightarrow> collector_opts \<Rightarrow> bool" where
  "creatable p os \<longleftrightarrow>
    (\<forall>op\<in>set (scalar_opts os). \<exists>g. gauge_with_opts p op = Inr g) \<and>
    (\<forall>op\<in>set (channel_gauge_opts os). \<exists>v. gvec_new p op CHANNEL_LABELS = Inr v) \<and>
    (\<forall>op\<in>set (channel_counter_opts os). \<exists>v. cvec_new p op CHANNEL_LABELS = Inr v) \<and>
    (\<forall>op\<in>set (peer_gauge_opts os). \<exists>v. gvec_new p op PEER_LABELS = Inr v)"

lemma collector_new_Inr:
  assumes "prometheus_documented describe p" and "derived_collector_new p node_id = Inr dc"
  shows "dc_opts dc = derived_opts node_id" and "creatable p (dc_opts dc)"
    and "dc_descs dc = map2 describe (all_opts (dc_opts dc)) (all_labels (dc_opts dc))"
proof -
  let ?os = "derived_opts node_id"
  obtain d1 d2 d3 d4 where
    d1: "extend_descs (gauge_with_opts p) (gauge_desc p) (scalar_opts ?os) [] = Inr d1" and
    d2: "extend_descs (\<lambda>op. gvec_new p op CHANNEL_LABELS) (gvec_desc p) (channel_gauge_opts ?os) d1 = Inr d2" and
    d3: "extend_descs (\<lambda>op. cvec_new p op CHANNEL_LABELS) (cvec_desc p) (channel_counter_opts ?os) d2 = Inr d3" and
    d4: "extend_descs (\<lambda>op. gvec_new p op PEER_LABELS) (gvec_desc p) (peer_gauge_opts ?os) d3 = Inr d4" and
    dc: "dc = \<lparr>dc_descs = d4, dc_opts = ?os\<rparr>"
    using assms(2) by (auto simp: derived_collector_new_def Let_def result_simps)
  note doc = assms(1) [unfolded prometheus_documented_def]
  note e1 = extend_descs_Inr [OF d1, of "\<lambda>op. describe op []"]
  note e2 = extend_descs_Inr [OF d2, of "\<lambda>op. describe op CHANNEL_LABELS"]
  note e3 = extend_descs_Inr [OF d3, of "\<lambda>op. describe op CHANNEL_LABELS"]
  note e4 = extend_descs_Inr [OF d4, of "\<lambda>op. describe op PEER_LABELS"]
  show "dc_opts dc = ?os" by (simp add: dc)
  show "creatable p (dc_opts dc)"
    using e1(2) e2(2) e3(2) e4(2) doc by (simp add: dc creatable_def)
  show "dc_descs dc = map2 describe (all_opts (dc_opts dc)) (all_labels (dc_opts dc))"
    using e1(1) e2(1) e3(1) e4(1) doc
    by (simp add: dc all_opts_def all_labels_def scalar_opts_def channel_gauge_opts_def
      channel_counter_opts_def peer_gauge_opts_def)
qed

section \<open>What the loops leave in the vectors\<close>

definition family_of :: "('x, 'y) metric_kind \<Rightarrow> ('a \<Rightarrow> string list) \<Rightarrow> 'a list \<Rightarrow> opts \<Rightarrow> ('a \<Rightarrow> 'x) \<Rightarrow> metric_family \<Rightarrow> bool" where
  "family_of act lab xs op f fam \<longleftrightarrow>
     mf_opts fam = op \<and> map_of (mf_samples fam) = apply_updates act (map (\<lambda>x. (lab x, f x)) xs)"

lemma update_all_split:
  assumes "fold_result (\<lambda>v x. update (lab x) (f x) v) v xs = Inr v'"
    and "fold_result (\<lambda>vs x. update_all update (lab x) (map (\<lambda>f. f x) fs) vs) vs xs = Inr vs'"
  shows "fold_result (\<lambda>vs x. update_all update (lab x) (map (\<lambda>f. f x) (f # fs)) vs) (v # vs) xs = Inr (v' # vs')"
  using assms
proof (induction xs arbitrary: v vs)
  case (Cons x xs)
  then obtain v1 vs1 where
    "update (lab x) (f x) v = Inr v1" "fold_result (\<lambda>v x. update (lab x) (f x) v) v1 xs = Inr v'"
    "update_all update (lab x) (map (\<lambda>f. f x) fs) vs = Inr vs1"
    "fold_result (\<lambda>vs x. update_all update (lab x) (map (\<lambda>f. f x) fs) vs) vs1 xs = Inr vs'"
    by (auto simp: result_simps)
  with Cons.IH show ?case by simp
qed simp

lemma update_all_none: "fold_result (\<lambda>vs x. update_all update (lab x) (map (\<lambda>f. f x) []) vs) [] xs = Inr []"
  by (induction xs) simp_all

lemma vec_families:
  assumes doc: "vec_documented create update coll act"
    and "list_all2 (\<lambda>op v. create op names = Inr v) os vs" and "length fs = length os"
    and labels: "\<And>x. x \<in> set xs \<Longrightarrow> length (lab x) = length names"
  shows "\<exists>vs' fams. fold_result (\<lambda>vs x. update_all update (lab x) (map (\<lambda>f. f x) fs) vs) vs xs = Inr vs' \<and>
    concat (map coll vs') = fams \<and> length fams = length os \<and>
    (\<forall>i<length os. family_of act lab xs (os ! i) (fs ! i) (fams ! i))"
  using assms(2,3)
proof (induction os vs arbitrary: fs rule: list_all2_induct)
  case Nil
  have "fold_result (\<lambda>vs x. update_all update (lab x) (map (\<lambda>f. f x) fs) vs) [] xs = Inr []"
    using Nil update_all_none [of update lab xs] by simp
  then show ?case by simp
next
  case (Cons op os v vs)
  then obtain f fs' where fs: "fs = f # fs'" "length fs' = length os" by (cases fs) auto
  obtain v' samples where v': "fold_result (\<lambda>v x. update (lab x) (f x) v) v xs = Inr v'"
    "coll v' = [\<lparr>mf_opts = op, mf_samples = samples\<rparr>]"
    "map_of samples = apply_updates act (map (\<lambda>x. (lab x, f x)) xs)"
    by (rule vec_loop [OF doc Cons.hyps(1), of xs lab f, OF labels]) blast+
  obtain vs' fams where rest: "fold_result (\<lambda>vs x. update_all update (lab x) (map (\<lambda>f. f x) fs') vs) vs xs = Inr vs'"
    "concat (map coll vs') = fams" "length fams = length os"
    "\<forall>i<length os. family_of act lab xs (os ! i) (fs' ! i) (fams ! i)"
    using Cons.IH [OF fs(2)] by blast
  have "family_of act lab xs op f \<lparr>mf_opts = op, mf_samples = samples\<rparr>"
    by (simp add: family_of_def v'(3))
  then have "\<forall>i<length (op # os). family_of act lab xs ((op # os) ! i) (fs ! i) ((\<lparr>mf_opts = op, mf_samples = samples\<rparr> # fams) ! i)"
    using rest(4) by (auto simp: fs(1) less_Suc_eq_0_disj)
  moreover have "fold_result (\<lambda>vs x. update_all update (lab x) (map (\<lambda>f. f x) fs) vs) (v # vs) xs = Inr (v' # vs')"
    unfolding fs(1) by (rule update_all_split [OF v'(1) rest(1)])
  ultimately show ?case
    using rest(2,3) v'(2) by (intro exI conjI) auto
qed

section \<open>A whole scrape\<close>

definition gauge_family :: "opts \<Rightarrow> f64 \<Rightarrow> metric_family" where
  "gauge_family op v = \<lparr>mf_opts = op, mf_samples = [([], Gauge_value v)]\<rparr>"

text \<open>The totals of a snapshot, and when the signed sums of a scrape stay in range.\<close>

definition outbound :: "cached_data \<Rightarrow> i64" where
  "outbound cache = sum_list (map ch_spendable_msat (cd_channels cache))"

definition inbound :: "cached_data \<Rightarrow> i64" where
  "inbound cache = sum_list (map ch_receivable_msat (cd_channels cache))"

definition scalar_values :: "cached_data \<Rightarrow> f64 list" where
  "scalar_values cache =
    [i64_as_f64 (nd_blockheight (cd_node cache)), i64_as_f64 (nd_fees_collected_msat (cd_node cache)),
     i64_as_f64 (fn_output_msat (cd_funds cache)), i64_as_f64 (fn_channel_msat (cd_funds cache)),
     i64_as_f64 (fn_output_msat (cd_funds cache) + fn_channel_msat (cd_funds cache)),
     i64_as_f64 (outbound cache), i64_as_f64 (inbound cache),
     usize_as_f64 (length (cd_peers cache)), usize_as_f64 (length (cd_channels cache))]"

definition scrape_fits :: "cached_data \<Rightarrow> bool" where
  "scrape_fits cache \<longleftrightarrow>
    unat (fn_output_msat (cd_funds cache)) + unat (fn_channel_msat (cd_funds cache)) < 2 ^ 63 \<and>
    sum_list (map (\<lambda>ch. unat (ch_spendable_msat ch)) (cd_channels cache)) < 2 ^ 63 \<and>
    sum_list (map (\<lambda>ch. unat (ch_receivable_msat ch)) (cd_channels cache)) < 2 ^ 63"

lemma sum_i64_fits:
  assumes "prof = Release \<or> sum_list (map (\<lambda>x. unat (f x)) xs) < 2 ^ 63"
  shows "sum_i64 prof (map f xs) = Inr (sum_list (map f xs))"
proof (cases "prof = Release")
  case False
  with assms obtain s where s: "sum_i64 prof (map f xs) = Inr s"
    using sum_i64_exact [of "map f xs" prof] by (auto simp: comp_def)
  with sum_i64_Inr [OF s] show ?thesis by simp
qed (simp add: sum_i64_Release)

lemma add_i64_fits: "prof = Release \<or> unat a + unat b < 2 ^ 63 \<Longrightarrow> add_i64 prof a b = Inr (a + b)"
  using add_i64_exact(1) [of a b prof] by auto

lemma unwrap_Inr [result_simps]: "unwrap r = Inr x \<longleftrightarrow> r = Inr x"
  by (cases r) (auto simp: panic_def)

lemma scalar_run:
  assumes "prometheus_documented describe p" and "\<exists>g. gauge_with_opts p op = Inr g"
  shows "scalar p op v = Inr [gauge_family op v]"
  using assms by (auto simp: scalar_def prometheus_documented_def gauge_family_def)

lemma collect_scalars_run:
  assumes doc: "prometheus_documented describe p" and "creatable p os"
    and fits: "prof = Release \<or> scrape_fits cache"
  shows "collect_scalars prof p os cache = Inr (map2 gauge_family (scalar_opts os) (scalar_values cache))"
proof -
  have ok: "op \<in> set (scalar_opts os) \<Longrightarrow> scalar p op v = Inr [gauge_family op v]" for op v
    using assms(2) scalar_run [OF doc] unfolding creatable_def by blast
  have "add_i64 prof (fn_output_msat (cd_funds cache)) (fn_channel_msat (cd_funds cache)) =
      Inr (fn_output_msat (cd_funds cache) + fn_channel_msat (cd_funds cache))"
    by (rule add_i64_fits) (use fits in \<open>auto simp: scrape_fits_def\<close>)
  moreover have "sum_i64 prof (map ch_spendable_msat (cd_channels cache)) = Inr (outbound cache)"
    unfolding outbound_def by (rule sum_i64_fits) (use fits in \<open>auto simp: scrape_fits_def\<close>)
  moreover have "sum_i64 prof (map ch_receivable_msat (cd_channels cache)) = Inr (inbound cache)"
    unfolding inbound_def by (rule sum_i64_fits) (use fits in \<open>auto simp: scrape_fits_def\<close>)
  ultimately show ?thesis
    by (simp add: collect_scalars_def ok scalar_opts_def scalar_values_def)
qed

definition channel_gauge_fields :: "(channel_snapshot \<Rightarrow> i64) list" where
  "channel_gauge_fields = [ch_balance_msat, ch_spendable_msat, ch_receivable_msat, ch_capacity_msat, ch_htlcs]"

definition channel_counter_fields :: "(channel_snapshot \<Rightarrow> i64) list" where
  "channel_counter_fields =
    [ch_in_payments_offered, ch_in_payments_fulfilled, ch_in_msat_offered, ch_in_msat_fulfilled,
     ch_out_payments_offered, ch_out_payments_fulfilled, ch_out_msat_offered, ch_out_msat_fulfilled]"

definition peer_gauge_fields :: "(peer_snapshot \<Rightarrow> f64) list" where
  "peer_gauge_fields =
    [\<lambda>pr. if pr_connected pr then 1 else 0, \<lambda>pr. usize_as_f64 (pr_num_channels pr),
     \<lambda>pr. usize_as_f64 (pr_connected_channels pr)]"

lemma values_of_fields:
  "channel_gauge_values ch = map (\<lambda>f. f ch) (map (\<lambda>f ch. i64_as_f64 (f ch)) channel_gauge_fields)"
  "channel_counter_values ch = map (\<lambda>f. f ch) (map (\<lambda>f ch. as_u64 (f ch)) channel_counter_fields)"
  "peer_gauge_values pr = map (\<lambda>f. f pr) peer_gauge_fields"
  by (simp_all add: channel_gauge_values_def channel_counter_values_def peer_gauge_values_def
      channel_gauge_fields_def channel_counter_fields_def peer_gauge_fields_def)

lemma update_channels_split:
  assumes "fold_result (\<lambda>vs ch. update_all (gvec_set p) (channel_labels ch) (channel_gauge_values ch) vs) gs chs = Inr gs'"
    and "fold_result (\<lambda>vs ch. update_all (cvec_inc_by p) (channel_labels ch) (channel_counter_values ch) vs) cs chs = Inr cs'"
  shows "fold_result (update_channel p) (gs, cs) chs = Inr (gs', cs')"
  using assms
proof (induction chs arbitrary: gs cs)
  case (Cons ch chs)
  then obtain g1 c1 where
    "update_all (gvec_set p) (channel_labels ch) (channel_gauge_values ch) gs = Inr g1"
    "fold_result (\<lambda>vs ch. update_all (gvec_set p) (channel_labels ch) (channel_gauge_values ch) vs) g1 chs = Inr gs'"
    "update_all (cvec_inc_by p) (channel_labels ch) (channel_counter_values ch) cs = Inr c1"
    "fold_result (\<lambda>vs ch. update_all (cvec_inc_by p) (channel_labels ch) (channel_counter_values ch) vs) c1 chs = Inr cs'"
    by (auto simp: result_simps)
  with Cons.IH show ?case by (simp add: update_channel_def)
qed simp

lemma create_all:
  assumes "\<forall>op\<in>set os. \<exists>v. create op = Inr v"
  obtains vs where "map_result (\<lambda>op. unwrap (create op)) os = Inr vs" "list_all2 (\<lambda>op v. create op = Inr v) os vs"
proof -
  have "\<exists>vs. map_result (\<lambda>op. unwrap (create op)) os = Inr vs"
    by (rule map_result_total) (use assms in \<open>auto simp: result_simps\<close>)
  then obtain vs where vs: "map_result (\<lambda>op. unwrap (create op)) os = Inr vs" by blast
  then have "list_all2 (\<lambda>op v. create op = Inr v) os vs" by (simp add: map_result_Inr unwrap_Inr)
  with vs that show ?thesis by blast
qed

lemma collect_channels_run:
  assumes doc: "prometheus_documented describe p" and ok: "creatable p os"
  shows "\<exists>fg fc. collect_channels p os cache = Inr (fg @ fc) \<and>
    length fg = 5 \<and> length fc = 8 \<and>
    (\<forall>i<5. family_of set_act channel_labels (cd_channels cache) (channel_gauge_opts os ! i)
       (\<lambda>ch. i64_as_f64 ((channel_gauge_fields ! i) ch)) (fg ! i)) \<and>
    (\<forall>i<8. family_of inc_act channel_labels (cd_channels cache) (channel_counter_opts os ! i)
       (\<lambda>ch. as_u64 ((channel_counter_fields ! i) ch)) (fc ! i))"
proof -
  have len: "length (channel_gauge_opts os) = 5" "length (channel_counter_opts os) = 8"
    "length channel_gauge_fields = 5" "length channel_counter_fields = 8"
    by (simp_all add: channel_gauge_opts_def channel_counter_opts_def channel_gauge_fields_def channel_counter_fields_def)
  have lab: "length (channel_labels ch) = length CHANNEL_LABELS" for ch
    by (simp add: channel_labels_def CHANNEL_LABELS_def)
  from ok have "\<forall>op\<in>set (channel_gauge_opts os). \<exists>v. gvec_new p op CHANNEL_LABELS = Inr v"
    by (simp add: creatable_def)
  then obtain gs where gs: "map_result (\<lambda>op. unwrap (gvec_new p op CHANNEL_LABELS)) (channel_gauge_opts os) = Inr gs"
    "list_all2 (\<lambda>op v. gvec_new p op CHANNEL_LABELS = Inr v) (channel_gauge_opts os) gs" by (rule create_all)
  from ok have "\<forall>op\<in>set (channel_counter_opts os). \<exists>v. cvec_new p op CHANNEL_LABELS = Inr v"
    by (simp add: creatable_def)
  then obtain cs where cs: "map_result (\<lambda>op. unwrap (cvec_new p op CHANNEL_LABELS)) (channel_counter_opts os) = Inr cs"
    "list_all2 (\<lambda>op v. cvec_new p op CHANNEL_LABELS = Inr v) (channel_counter_opts os) cs" by (rule create_all)
  have vg: "vec_documented (gvec_new p) (gvec_set p) (gvec_collect p) set_act"
    and vc: "vec_documented (cvec_new p) (cvec_inc_by p) (cvec_collect p) inc_act"
    using doc by (simp_all add: prometheus_documented_def)
  obtain gs' fg where g: "fold_result (\<lambda>vs ch. update_all (gvec_set p) (channel_labels ch) (channel_gauge_values ch) vs) gs (cd_channels cache) = Inr gs'"
    "concat (map (gvec_collect p) gs') = fg" "length fg = 5"
    "\<forall>i<5. family_of set_act channel_labels (cd_channels cache) (channel_gauge_opts os ! i)
       (\<lambda>ch. i64_as_f64 ((channel_gauge_fields ! i) ch)) (fg ! i)"
    using vec_families [OF vg gs(2), of "map (\<lambda>f ch. i64_as_f64 (f ch)) channel_gauge_fields" "cd_channels cache" channel_labels]
    by (auto simp: len lab values_of_fields)
  obtain cs' fc where c: "fold_result (\<lambda>vs ch. update_all (cvec_inc_by p) (channel_labels ch) (channel_counter_values ch) vs) cs (cd_channels cache) = Inr cs'"
    "concat (map (cvec_collect p) cs') = fc" "length fc = 8"
    "\<forall>i<8. family_of inc_act channel_labels (cd_channels cache) (channel_counter_opts os ! i)
       (\<lambda>ch. as_u64 ((channel_counter_fields ! i) ch)) (fc ! i)"
    using vec_families [OF vc cs(2), of "map (\<lambda>f ch. as_u64 (f ch)) channel_counter_fields" "cd_channels cache" channel_labels]
    by (auto simp: len lab values_of_fields)
  have "collect_channels p os cache = Inr (fg @ fc)"
    using update_channels_split [OF g(1) c(1)] by (simp add: collect_channels_def gs(1) cs(1) g(2) c(2))
  with g c show ?thesis by blast
qed

lemma collect_peers_run:
  assumes doc: "prometheus_documented describe p" and ok: "creatable p os"
  shows "\<exists>fp. collect_peers p os cache = Inr fp \<and> length fp = 3 \<and>
    (\<forall>i<3. family_of set_act (\<lambda>pr. [pr_id pr]) (cd_peers cache) (peer_gauge_opts os ! i) (peer_gauge_fields ! i) (fp ! i))"
proof -
  have len: "length (peer_gauge_opts os) = 3" "length peer_gauge_fields = 3"
    by (simp_all add: peer_gauge_opts_def peer_gauge_fields_def)
  from ok have "\<forall>op\<in>set (peer_gauge_opts os). \<exists>v. gvec_new p op PEER_LABELS = Inr v"
    by (simp add: creatable_def)
  then obtain gs where gs: "map_result (\<lambda>op. unwrap (gvec_new p op PEER_LABELS)) (peer_gauge_opts os) = Inr gs"
    "list_all2 (\<lambda>op v. gvec_new p op PEER_LABELS = Inr v) (peer_gauge_opts os) gs" by (rule create_all)
  have vg: "vec_documented (gvec_new p) (gvec_set p) (gvec_collect p) set_act"
    using doc by (simp add: prometheus_documented_def)
  obtain gs' fp where g: "fold_result (\<lambda>vs pr. update_all (gvec_set p) [pr_id pr] (peer_gauge_values pr) vs) gs (cd_peers cache) = Inr gs'"
    "concat (map (gvec_collect p) gs') = fp" "length fp = 3"
    "\<forall>i<3. family_of set_act (\<lambda>pr. [pr_id pr]) (cd_peers cache) (peer_gauge_opts os ! i) (peer_gauge_fields ! i) (fp ! i)"
    using vec_families [OF vg gs(2), of peer_gauge_fields "cd_peers cache" "\<lambda>pr. [pr_id pr]"]
    by (auto simp: len values_of_fields PEER_LABELS_def)
  then show ?thesis by (simp add: collect_peers_def gs(1))
qed

text \<open>The sample a scraper finds under a name and label values.\<close>

definition reading :: "metric_family list \<Rightarrow> string \<Rightarrow> string list \<Rightarrow> sample option" where
  "reading fams nm =
    (case find (\<lambda>fam. op_name (mf_opts fam) = nm) fams of Some fam \<Rightarrow> map_of (mf_samples fam) | None \<Rightarrow> Map.empty)"

lemma reading_nth:
  assumes "distinct (map (\<lambda>fam. op_name (mf_opts fam)) fams)" and "i < length fams"
  shows "reading fams (op_name (mf_opts (fams ! i))) = map_of (mf_samples (fams ! i))"
proof -
  have "\<not> op_name (mf_opts (fams ! j)) = op_name (mf_opts (fams ! i))" if "j < i" for j
    using assms that nth_eq_iff_index_eq [of "map (\<lambda>fam. op_name (mf_opts fam)) fams" j i] by auto
  then have "find (\<lambda>fam. op_name (mf_opts fam) = op_name (mf_opts (fams ! i))) fams = Some (fams ! i)"
    using assms(2) by (auto simp: find_Some_iff)
  then show ?thesis by (simp add: reading_def)
qed

definition metric_names :: "string list" where
  "metric_names = map op_name (all_opts (derived_opts []))"

lemma metric_names_of: "map op_name (all_opts (derived_opts node_id)) = metric_names"
  by (simp add: metric_names_def all_opts_def scalar_opts_def channel_gauge_opts_def
    channel_counter_opts_def peer_gauge_opts_def derived_opts_def opts_for_def)

lemma metric_names_eq: "metric_names =
  [''lightning_node_blockheight'', ''lightning_fees_collected_msat'', ''lightning_funds_output_msat'',
   ''lightning_funds_channel_msat'', ''lightning_funds_total_msat'', ''lightning_total_outbound_msat'',
   ''lightning_total_inbound_msat'', ''lightning_peers'', ''lightning_channels'',
   ''lightning_channel_balance_msat'', ''lightning_channel_spendable_msat'',
   ''lightning_channel_receivable_msat'', ''lightning_channel_capacity_msat'', ''lightning_channel_htlcs'',
   ''lightning_channel_in_payments_offered_total'', ''lightning_channel_in_payments_fulfilled_total'',
   ''lightning_channel_in_msat_offered_total'', ''lightning_channel_in_msat_fulfilled_total'',
   ''lightning_channel_out_payments_offered_total'', ''lightning_channel_out_payments_fulfilled_total'',
   ''lightning_channel_out_msat_offered_total'', ''lightning_channel_out_msat_fulfilled_total'',
   ''lightning_peer_connected'', ''lightning_peer_channels'', ''lightning_peer_channel_connected'']"
  by (simp add: metric_names_def all_opts_def scalar_opts_def channel_gauge_opts_def
    channel_counter_opts_def peer_gauge_opts_def derived_opts_def opts_for_def)

lemma metric_names_distinct: "distinct metric_names"
  by (simp add: metric_names_eq)

lemma metric_names_length: "length metric_names = 25"
  by (simp add: metric_names_eq)

lemma group_lengths: "length (scalar_opts os) = 9" "length (scalar_values cache) = 9"
  "length (channel_gauge_opts os) = 5" "length (channel_counter_opts os) = 8" "length (peer_gauge_opts os) = 3"
  by (simp_all add: scalar_opts_def scalar_values_def channel_gauge_opts_def channel_counter_opts_def peer_gauge_opts_def)

lemma collect_run:
  assumes doc: "prometheus_documented describe p" and created: "derived_collector_new p node_id = Inr dc"
    and "\<not> lk_poisoned lock" and fits: "prof = Release \<or> scrape_fits (lk_content lock)"
  obtains fams where "collect prof p dc lock = Inr fams"
    and "map mf_opts fams = all_opts (derived_opts node_id)"
    and "\<forall>i<9. mf_samples (fams ! i) = [([], Gauge_value (scalar_values (lk_content lock) ! i))]"
    and "\<forall>i<5. map_of (mf_samples (fams ! (9 + i))) = apply_updates set_act
      (map (\<lambda>ch. (channel_labels ch, i64_as_f64 ((channel_gauge_fields ! i) ch))) (cd_channels (lk_content lock)))"
    and "\<forall>i<8. map_of (mf_samples (fams ! (14 + i))) = apply_updates inc_act
      (map (\<lambda>ch. (channel_labels ch, as_u64 ((channel_counter_fields ! i) ch))) (cd_channels (lk_content lock)))"
    and "\<forall>i<3. map_of (mf_samples (fams ! (22 + i))) = apply_updates set_act
      (map (\<lambda>pr. ([pr_id pr], (peer_gauge_fields ! i) pr)) (cd_peers (lk_content lock)))"
proof -
  let ?os = "derived_opts node_id" and ?cache = "lk_content lock"
  have ok: "creatable p ?os" and os: "dc_opts dc = ?os"
    using collector_new_Inr [OF doc created] by simp_all
  obtain fg fc where ch: "collect_channels p ?os ?cache = Inr (fg @ fc)" "length fg = 5" "length fc = 8"
    "\<forall>i<5. family_of set_act channel_labels (cd_channels ?cache) (channel_gauge_opts ?os ! i)
       (\<lambda>ch. i64_as_f64 ((channel_gauge_fields ! i) ch)) (fg ! i)"
    "\<forall>i<8. family_of inc_act channel_labels (cd_channels ?cache) (channel_counter_opts ?os ! i)
       (\<lambda>ch. as_u64 ((channel_counter_fields ! i) ch)) (fc ! i)"
    using collect_channels_run [OF doc ok] by blast
  obtain fp where pr: "collect_peers p ?os ?cache = Inr fp" "length fp = 3"
    "\<forall>i<3. family_of set_act (\<lambda>pr. [pr_id pr]) (cd_peers ?cache) (peer_gauge_opts ?os ! i) (peer_gauge_fields ! i) (fp ! i)"
    using collect_peers_run [OF doc ok] by blast
  let ?fs = "map2 gauge_family (scalar_opts ?os) (scalar_values ?cache)"
  let ?fams = "?fs @ fg @ fc @ fp"
  have "collect prof p dc lock = Inr ?fams"
    using assms(3) by (simp add: collect_def lock_read_def os collect_scalars_run [OF doc ok fits] ch(1) pr(1))
  moreover have "map mf_opts ?fams = all_opts ?os"
  proof -
    have "map mf_opts ?fs = scalar_opts ?os"
      by (rule nth_equalityI) (auto simp: group_lengths gauge_family_def)
    moreover have "map mf_opts fg = channel_gauge_opts ?os"
      using ch(2,4) by (intro nth_equalityI) (auto simp: group_lengths family_of_def)
    moreover have "map mf_opts fc = channel_counter_opts ?os"
      using ch(3,5) by (intro nth_equalityI) (auto simp: group_lengths family_of_def)
    moreover have "map mf_opts fp = peer_gauge_opts ?os"
      using pr(2,3) by (intro nth_equalityI) (auto simp: group_lengths family_of_def)
    ultimately show ?thesis by (simp add: all_opts_def)
  qed
  moreover have "i < 9 \<Longrightarrow> mf_samples (?fams ! i) = [([], Gauge_value (scalar_values ?cache ! i))]" for i
    by (simp add: nth_append group_lengths gauge_family_def)
  moreover have "?fams ! (9 + i) = fg ! i" if "i < 5" for i
    using that ch(2) by (simp add: nth_append group_lengths)
  moreover have "?fams ! (14 + i) = fc ! i" if "i < 8" for i
    using that ch(2,3) by (simp add: nth_append group_lengths)
  moreover have "?fams ! (22 + i) = fp ! i" for i
    using ch(2,3) by (simp add: nth_append group_lengths)
  ultimately show ?thesis
    using ch(4,5) pr(3) by (intro that [of ?fams]) (auto simp: family_of_def)
qed

lemma reading_index:
  assumes "map mf_opts fams = all_opts (derived_opts node_id)" and "i < 25"
  shows "reading fams (metric_names ! i) = map_of (mf_samples (fams ! i))"
proof -
  have names: "map (\<lambda>fam. op_name (mf_opts fam)) fams = metric_names"
    using arg_cong [OF assms(1), of "map op_name"] by (simp add: metric_names_of comp_def)
  then have len: "length fams = 25" by (metis names length_map metric_names_length)
  have "metric_names ! i = op_name (mf_opts (fams ! i))"
    using assms(2) len by (simp flip: names)
  with reading_nth [of fams i] metric_names_distinct names assms(2) len show ?thesis by simp
qed

end
