(* ===== verification/Scrape.thy ===== *)
theory Scrape
  imports Collector
begin

text \<open>
  What a scrape of \<open>/metrics\<close> reports, given what \<open>prometheus\<close> documents: the properties of
  \<open>DerivedCollector\<close>, and the sample snapshot they are tried on.
\<close>

text \<open>
  C19. Once the collector could be created, a scrape does not panic: none of its \<open>unwrap\<close>s,
  nor the label lookups, can fail, and with amounts in range no build overflows. It answers
  25 families with distinct names, each labelled with the node, and the descriptors the
  registry was given describe exactly these, in this order.
\<close>

theorem scrape_complete:
  assumes "prometheus_documented describe p" and "derived_collector_new p node_id = Inr dc"
    and "\<not> lk_poisoned lock" and "prof = Release \<or> scrape_fits (lk_content lock)"
  shows "\<exists>fams. collect prof p dc lock = Inr fams \<and> length fams = 25 \<and>
    distinct (map (\<lambda>fam. op_name (mf_opts fam)) fams) \<and>
    (\<forall>fam\<in>set fams. op_const_labels (mf_opts fam) = [(''node_id'', node_id)]) \<and>
    dc_descs dc = map2 describe (map mf_opts fams)
      (replicate 9 [] @ replicate 13 [''peer_id'', ''scid''] @ replicate 3 [''peer_id''])"
proof -
  obtain fams where fams: "collect prof p dc lock = Inr fams"
    "map mf_opts fams = all_opts (derived_opts node_id)"
    by (rule collect_run [OF assms]) blast
  have names: "map (\<lambda>fam. op_name (mf_opts fam)) fams = metric_names"
    using arg_cong [OF fams(2), of "map op_name"] by (simp add: metric_names_of comp_def)
  have labels: "\<forall>op\<in>set (all_opts (derived_opts node_id)). op_const_labels op = [(''node_id'', node_id)]"
    by (simp add: all_opts_def scalar_opts_def channel_gauge_opts_def channel_counter_opts_def
      peer_gauge_opts_def derived_opts_def opts_for_def)
  have "\<forall>fam\<in>set fams. mf_opts fam \<in> set (all_opts (derived_opts node_id))"
    unfolding fams(2) [symmetric] by simp
  moreover have "length fams = 25" by (metis names length_map metric_names_length)
  moreover have "all_labels os = replicate 9 [] @ replicate 13 [''peer_id'', ''scid''] @ replicate 3 [''peer_id'']" for os
    by (simp add: all_labels_def scalar_opts_def channel_gauge_opts_def channel_counter_opts_def
      peer_gauge_opts_def CHANNEL_LABELS_def PEER_LABELS_def numeral_eq_Suc)
  moreover have "distinct (map (\<lambda>fam. op_name (mf_opts fam)) fams)"
    by (simp add: names metric_names_distinct)
  moreover have "dc_descs dc = map2 describe (map mf_opts fams) (all_labels (derived_opts node_id))"
    using collector_new_Inr(1,3) [OF assms(1,2)] by (simp add: fams(2))
  ultimately show ?thesis
    using fams(1) labels by (intro exI [of _ fams]) simp
qed


text \<open>A snapshot with two channels that have the same labels, since neither has an id.\<close>

definition sample_snapshot :: "string \<Rightarrow> i64 \<Rightarrow> channel_snapshot" where
  "sample_snapshot scid n =
    \<lparr>ch_peer_id = ''bob'', ch_scid = scid, ch_balance_msat = n, ch_spendable_msat = n,
     ch_receivable_msat = 3, ch_capacity_msat = 1000, ch_htlcs = 0, ch_in_payments_offered = n,
     ch_in_payments_fulfilled = 0, ch_in_msat_offered = 0, ch_in_msat_fulfilled = 0,
     ch_out_payments_offered = 0, ch_out_payments_fulfilled = 0, ch_out_msat_offered = 0,
     ch_out_msat_fulfilled = 0\<rparr>"

definition sample_cache :: cached_data where
  "sample_cache =
    \<lparr>cd_node = \<lparr>nd_blockheight = 110, nd_fees_collected_msat = 5\<rparr>,
     cd_funds = \<lparr>fn_output_msat = 700, fn_channel_msat = 40\<rparr>,
     cd_channels = [sample_snapshot [] 10, sample_snapshot ''1x1x1'' 7, sample_snapshot [] 20],
     cd_peers = [\<lparr>pr_id = ''bob'', pr_connected = True, pr_num_channels = 3, pr_connected_channels = 2\<rparr>]\<rparr>"

definition sample_lock :: "cached_data rw_lock" where
  "sample_lock = \<lparr>lk_poisoned = False, lk_content = sample_cache\<rparr>"

lemma sample_lock_fits: "\<not> lk_poisoned sample_lock" "prof = Release \<or> scrape_fits (lk_content sample_lock)"
  by (simp_all add: sample_lock_def sample_cache_def sample_snapshot_def scrape_fits_def)

definition sample_collector :: "(opts \<times> string list) derived_collector" where
  "sample_collector =
    (case derived_collector_new plain_prometheus ''node'' of Inr dc \<Rightarrow> dc
     | Inl e \<Rightarrow> \<lparr>dc_descs = [], dc_opts = derived_opts ''node''\<rparr>)"

lemma plain_extend: "extend_descs (\<lambda>op. Inr (f op)) desc os ds = Inr (ds @ concat (map (\<lambda>op. desc (f op)) os))"
  by (induction os arbitrary: ds) (auto simp: extend_descs_def)

lemma sample_collector_new: "derived_collector_new plain_prometheus ''node'' = Inr sample_collector"
  by (simp add: sample_collector_def derived_collector_new_def Let_def plain_prometheus_def
    plain_vec_new_def plain_extend)

theorem scrape_complete_witness:
  "\<exists>fams. collect Debug plain_prometheus sample_collector sample_lock = Inr fams \<and> length fams = 25"
  using scrape_complete [OF plain_prometheus_documented sample_collector_new sample_lock_fits] by blast

section \<open>The values\<close>

lemma own_channels: "channel_labels ch = [peer, scid] \<longleftrightarrow> ch_peer_id ch = peer \<and> ch_scid ch = scid"
  by (simp add: channel_labels_def)

definition channel_gauge_names :: "(string \<times> (channel_snapshot \<Rightarrow> i64)) list" where
  "channel_gauge_names =
    [(''lightning_channel_balance_msat'', ch_balance_msat),
     (''lightning_channel_spendable_msat'', ch_spendable_msat),
     (''lightning_channel_receivable_msat'', ch_receivable_msat),
     (''lightning_channel_capacity_msat'', ch_capacity_msat),
     (''lightning_channel_htlcs'', ch_htlcs)]"

definition channel_counter_names :: "(string \<times> (channel_snapshot \<Rightarrow> i64)) list" where
  "channel_counter_names =
    [(''lightning_channel_in_payments_offered_total'', ch_in_payments_offered),
     (''lightning_channel_in_payments_fulfilled_total'', ch_in_payments_fulfilled),
     (''lightning_channel_in_msat_offered_total'', ch_in_msat_offered),
     (''lightning_channel_in_msat_fulfilled_total'', ch_in_msat_fulfilled),
     (''lightning_channel_out_payments_offered_total'', ch_out_payments_offered),
     (''lightning_channel_out_payments_fulfilled_total'', ch_out_payments_fulfilled),
     (''lightning_channel_out_msat_offered_total'', ch_out_msat_offered),
     (''lightning_channel_out_msat_fulfilled_total'', ch_out_msat_fulfilled)]"

lemma channel_gauge_names_nth:
  "(nm, field) \<in> set channel_gauge_names \<Longrightarrow> \<exists>i<5. nm = metric_names ! (9 + i) \<and> field = channel_gauge_fields ! i"
  unfolding channel_gauge_names_def metric_names_eq channel_gauge_fields_def
  by (auto simp: numeral_eq_Suc intro: exI [of _ 0] exI [of _ 1] exI [of _ 2] exI [of _ 3] exI [of _ 4])

lemma channel_counter_names_nth:
  "(nm, field) \<in> set channel_counter_names \<Longrightarrow> \<exists>i<8. nm = metric_names ! (14 + i) \<and> field = channel_counter_fields ! i"
  unfolding channel_counter_names_def metric_names_eq channel_counter_fields_def
  by (auto simp: numeral_eq_Suc intro: exI [of _ 0] exI [of _ 1] exI [of _ 2] exI [of _ 3] exI [of _ 4]
    exI [of _ 5] exI [of _ 6] exI [of _ 7])

text \<open>
  C20. A gauge of a channel shows the value of its channel in the snapshot, as the nearest
  double; where several channels share the labels (the same peer, and no id to tell them
  apart) it shows the last of them, and a pair of labels that no channel has is absent.
\<close>

theorem scrape_channel_gauges:
  assumes "prometheus_documented describe p" and "derived_collector_new p node_id = Inr dc"
    and "\<not> lk_poisoned lock" and "prof = Release \<or> scrape_fits (lk_content lock)"
    and "(nm, field) \<in> set channel_gauge_names"
  shows "\<exists>fams. collect prof p dc lock = Inr fams \<and>
    reading fams nm [peer, scid] =
      (case rev (filter (\<lambda>ch. ch_peer_id ch = peer \<and> ch_scid ch = scid) (cd_channels (lk_content lock))) of
         [] \<Rightarrow> None
       | ch # _ \<Rightarrow> Some (Gauge_value (i64_as_f64 (field ch))))"
proof -
  let ?chs = "cd_channels (lk_content lock)"
  obtain i where i: "i < 5" "nm = metric_names ! (9 + i)" "field = channel_gauge_fields ! i"
    using channel_gauge_names_nth [OF assms(5)] by blast
  obtain fams where fams: "collect prof p dc lock = Inr fams" "map mf_opts fams = all_opts (derived_opts node_id)"
    "\<forall>i<5. map_of (mf_samples (fams ! (9 + i))) = apply_updates set_act
      (map (\<lambda>ch. (channel_labels ch, i64_as_f64 ((channel_gauge_fields ! i) ch))) ?chs)"
    by (rule collect_run [OF assms(1-4)]) blast
  have "reading fams nm [peer, scid] =
      apply_updates set_act (map (\<lambda>ch. (channel_labels ch, i64_as_f64 (field ch))) ?chs) [peer, scid]"
    using reading_index [OF fams(2), of "9 + i"] i fams(3) by simp
  then have "reading fams nm [peer, scid] =
      (case rev (filter (\<lambda>ch. ch_peer_id ch = peer \<and> ch_scid ch = scid) ?chs) of
         [] \<Rightarrow> None | ch # _ \<Rightarrow> Some (Gauge_value (i64_as_f64 (field ch))))"
    by (auto simp: apply_set own_channels Let_def rev_swap split: list.split)
  with fams(1) show ?thesis by blast
qed

theorem scrape_channel_gauges_witness:
  "\<exists>fams. collect Debug plain_prometheus sample_collector sample_lock = Inr fams \<and>
     reading fams ''lightning_channel_balance_msat'' [''bob'', []] = Some (Gauge_value 20)"
  using scrape_channel_gauges [OF plain_prometheus_documented sample_collector_new sample_lock_fits,
      of "''lightning_channel_balance_msat''" ch_balance_msat Debug "''bob''" "[]"]
  by (auto simp: channel_gauge_names_def sample_lock_def sample_cache_def sample_snapshot_def i64_as_f64_exact)

text \<open>
  C21. A counter of a channel is the number lightningd reports, read as an unsigned 64-bit
  integer, also when it passes 2^63 and is negative in the snapshot; where several channels
  share the labels it is their sum in 64 bits. What is collected is the double nearest to it:
  the number itself below 2^53, and off by at most its 2^53th part above.
\<close>

theorem scrape_channel_counters:
  assumes "prometheus_documented describe p" and "derived_collector_new p node_id = Inr dc"
    and "\<not> lk_poisoned lock" and "prof = Release \<or> scrape_fits (lk_content lock)"
    and "(nm, field) \<in> set channel_counter_names"
  shows "\<exists>fams. collect prof p dc lock = Inr fams \<and>
    reading fams nm [peer, scid] =
      (case filter (\<lambda>ch. ch_peer_id ch = peer \<and> ch_scid ch = scid) (cd_channels (lk_content lock)) of
         [] \<Rightarrow> None
       | ch # rest \<Rightarrow> Some (Counter_value (u64_as_f64 (as_u64 (field ch) + sum_list (map (\<lambda>ch. as_u64 (field ch)) rest))))) \<and>
    (\<forall>x. (unat x < 2 ^ 53 \<longrightarrow> u64_as_f64 x = int (unat x)) \<and> 2 ^ 53 * \<bar>u64_as_f64 x - int (unat x)\<bar> \<le> int (unat x))"
proof -
  let ?chs = "cd_channels (lk_content lock)"
  obtain i where i: "i < 8" "nm = metric_names ! (14 + i)" "field = channel_counter_fields ! i"
    using channel_counter_names_nth [OF assms(5)] by blast
  obtain fams where fams: "collect prof p dc lock = Inr fams" "map mf_opts fams = all_opts (derived_opts node_id)"
    "\<forall>i<8. map_of (mf_samples (fams ! (14 + i))) = apply_updates inc_act
      (map (\<lambda>ch. (channel_labels ch, as_u64 ((channel_counter_fields ! i) ch))) ?chs)"
    by (rule collect_run [OF assms(1-4)]) blast
  have "reading fams nm [peer, scid] =
      apply_updates inc_act (map (\<lambda>ch. (channel_labels ch, as_u64 (field ch))) ?chs) [peer, scid]"
    using reading_index [OF fams(2), of "14 + i"] i fams(3) by simp
  then have "reading fams nm [peer, scid] =
      (case filter (\<lambda>ch. ch_peer_id ch = peer \<and> ch_scid ch = scid) ?chs of
         [] \<Rightarrow> None
       | ch # rest \<Rightarrow> Some (Counter_value (u64_as_f64 (as_u64 (field ch) + sum_list (map (\<lambda>ch. as_u64 (field ch)) rest)))))"
    by (auto simp: apply_inc own_channels Let_def split: list.split)
  with fams(1) u64_as_f64_exact u64_as_f64_error show ?thesis by blast
qed

theorem scrape_channel_counters_witness:
  "\<exists>fams. collect Release plain_prometheus sample_collector sample_lock = Inr fams \<and>
     reading fams ''lightning_channel_in_payments_offered_total'' [''bob'', []] = Some (Counter_value 30)"
  using scrape_channel_counters [OF plain_prometheus_documented sample_collector_new sample_lock_fits,
      of "''lightning_channel_in_payments_offered_total''" ch_in_payments_offered Release "''bob''" "[]"]
  by (auto simp: channel_counter_names_def sample_lock_def sample_cache_def sample_snapshot_def as_u64_def u64_as_f64_exact)

text \<open>
  C22. The node-wide totals of a scrape are the sums of the same snapshot: the funds of the
  wallet and of the channels, and the spendable and receivable amounts of all channels,
  each the double nearest to the sum as a natural number, so off by at most one part in
  2^53; peers and channels are counted.
\<close>

theorem scrape_totals:
  assumes "prometheus_documented describe p" and "derived_collector_new p node_id = Inr dc"
    and "\<not> lk_poisoned lock" and fits: "scrape_fits (lk_content lock)" and cache: "cache = lk_content lock"
  shows "\<exists>fams. collect prof p dc lock = Inr fams \<and>
    reading fams ''lightning_funds_total_msat'' [] = Some (Gauge_value (f64_of_int
      (int (unat (fn_output_msat (cd_funds cache)) + unat (fn_channel_msat (cd_funds cache)))))) \<and>
    reading fams ''lightning_total_outbound_msat'' [] = Some (Gauge_value (f64_of_int
      (int (sum_list (map (\<lambda>ch. unat (ch_spendable_msat ch)) (cd_channels cache)))))) \<and>
    reading fams ''lightning_total_inbound_msat'' [] = Some (Gauge_value (f64_of_int
      (int (sum_list (map (\<lambda>ch. unat (ch_receivable_msat ch)) (cd_channels cache)))))) \<and>
    reading fams ''lightning_peers'' [] = Some (Gauge_value (usize_as_f64 (length (cd_peers cache)))) \<and>
    reading fams ''lightning_channels'' [] = Some (Gauge_value (usize_as_f64 (length (cd_channels cache)))) \<and>
    (\<forall>x. 2 ^ 53 * \<bar>f64_of_int x - x\<bar> \<le> \<bar>x\<bar>)"
proof -
  have fits': "prof = Release \<or> scrape_fits (lk_content lock)" using fits by simp
  obtain fams where fams: "collect prof p dc lock = Inr fams" "map mf_opts fams = all_opts (derived_opts node_id)"
    "\<forall>i<9. mf_samples (fams ! i) = [([], Gauge_value (scalar_values (lk_content lock) ! i))]"
    by (rule collect_run [OF assms(1-3) fits']) blast
  have at: "reading fams (metric_names ! i) [] = Some (Gauge_value (scalar_values cache ! i))" if "i < 9" for i
    using reading_index [OF fams(2), of i] fams(3) that cache by simp
  have exact: "i64_as_f64 x = f64_of_int (int (unat x))" if "unat x < 2 ^ 63" for x
    using sint_small [OF that] by (simp add: i64_as_f64_def)
  have sums: "unat (sum_list (map f xs)) = sum_list (map (\<lambda>ch. unat (f ch)) xs)"
    if "sum_list (map (\<lambda>ch. unat (f ch)) xs) < 2 ^ 63" for f :: "channel_snapshot \<Rightarrow> i64" and xs
    using sum_i64_exact [of "map f xs" Release] that by (auto simp: comp_def sum_i64_Release)
  note in_range = fits [unfolded scrape_fits_def, folded cache]
  have "unat (fn_output_msat (cd_funds cache) + fn_channel_msat (cd_funds cache)) =
      unat (fn_output_msat (cd_funds cache)) + unat (fn_channel_msat (cd_funds cache))"
    using in_range by (intro add_i64_exact(2)) simp
  then have "scalar_values cache ! 4 = f64_of_int
      (int (unat (fn_output_msat (cd_funds cache)) + unat (fn_channel_msat (cd_funds cache))))"
    using in_range by (simp add: scalar_values_def exact)
  moreover have "scalar_values cache ! 5 = f64_of_int
      (int (sum_list (map (\<lambda>ch. unat (ch_spendable_msat ch)) (cd_channels cache))))"
    using in_range by (simp add: scalar_values_def outbound_def exact sums)
  moreover have "scalar_values cache ! 6 = f64_of_int
      (int (sum_list (map (\<lambda>ch. unat (ch_receivable_msat ch)) (cd_channels cache))))"
    using in_range by (simp add: scalar_values_def inbound_def exact sums)
  ultimately show ?thesis
    using fams(1) at [of 4] at [of 5] at [of 6] at [of 7] at [of 8] f64_relative_error
    by (intro exI [of _ fams]) (simp add: metric_names_eq scalar_values_def)
qed

theorem scrape_totals_witness:
  "\<exists>fams. collect Debug plain_prometheus sample_collector sample_lock = Inr fams \<and>
     reading fams ''lightning_funds_total_msat'' [] = Some (Gauge_value 740) \<and>
     reading fams ''lightning_total_outbound_msat'' [] = Some (Gauge_value 37)"
  using scrape_totals [OF plain_prometheus_documented sample_collector_new sample_lock_fits(1) _ refl, of Debug]
    sample_lock_fits(2) [of Debug]
  by (auto simp: sample_lock_def sample_cache_def sample_snapshot_def f64_exact)

end
