(* ===== verification/Auth.thy ===== *)
theory Auth
  imports RustInt
begin

text \<open>
  The bearer-token protection of \<open>/metrics\<close>: \<open>validate_token\<close> of
  \<open>metrics-plugin/src/main.rs\<close>, and the comparison, the middleware and the routing of
  \<open>metrics-plugin/src/metrics.rs\<close>. The HTTP library (\<open>http\<close>, \<open>axum\<close>) and the
  text encoder of \<open>prometheus\<close> are parameters.
\<close>

unbundle bit_operations_syntax

section \<open>The token of the environment\<close>

definition METRICS_TOKEN_ENV :: string where
  "METRICS_TOKEN_ENV = ''METRICS_TOKEN''"

definition MIN_TOKEN_LEN :: nat where
  "MIN_TOKEN_LEN = 16"

definition validate_token :: "string \<Rightarrow> string result" where
  "validate_token raw =
    (let token = trim raw in
     if token = [] then bail (METRICS_TOKEN_ENV @ '' env var is empty'')
     else if length token < MIN_TOKEN_LEN
       then bail (METRICS_TOKEN_ENV @ '' env var holds a token shorter than '' @ show_nat MIN_TOKEN_LEN
         @ '' characters; use a longer, random value'')
     else Inr token)"

text \<open>
  The token the server compares with is the value of the environment variable without
  the white space around it, whatever that white space is; it is accepted exactly when at
  least sixteen bytes are left, and validating it again changes nothing. The two errors
  tell an empty value from a short one.
\<close>

theorem validate_token_outcome:
  "case validate_token raw of
     Inr token \<Rightarrow> token = trim raw \<and> trimmed token \<and> 16 \<le> length token \<and> validate_token token = Inr token
   | Inl e \<Rightarrow> length (trim raw) < 16 \<and>
       (e = Anyhow [''METRICS_TOKEN env var is empty''] \<longleftrightarrow> trim raw = [])"
proof -
  have "validate_token t = Inr t" if "trimmed t" "16 \<le> length t" for t
    using that by (cases t) (simp_all add: validate_token_def Let_def bail_def MIN_TOKEN_LEN_def)
  from this [of "trim raw"] show ?thesis
    by (auto simp: validate_token_def Let_def bail_def MIN_TOKEN_LEN_def METRICS_TOKEN_ENV_def)
qed

section \<open>Comparing tokens\<close>

text \<open>The constant-time comparison: every byte is looked at, the differences are gathered.\<close>

definition tokens_match :: "u8 list \<Rightarrow> u8 list \<Rightarrow> bool" where
  "tokens_match provided expected =
    (if length provided \<noteq> length expected then False
     else fold (\<lambda>(a, b) acc. acc OR (a XOR b)) (zip provided expected) 0 = 0)"

lemma or_zero_word: "(x :: 'a :: len word) OR y = 0 \<longleftrightarrow> x = 0 \<and> y = 0"
  by (auto simp: bit_eq_iff bit_simps)

lemma xor_zero_word: "(x :: 'a :: len word) XOR y = 0 \<longleftrightarrow> x = y"
  by (auto simp: bit_eq_iff bit_simps)

lemma fold_difference:
  "fold (\<lambda>(a, b) acc. acc OR (a XOR b)) ps (z :: u8) = 0 \<longleftrightarrow> z = 0 \<and> (\<forall>(a, b)\<in>set ps. a = b)"
  by (induction ps arbitrary: z) (auto simp: or_zero_word xor_zero_word)

lemma tokens_match_eq: "tokens_match provided expected \<longleftrightarrow> provided = expected"
proof (cases "length provided = length expected")
  case True
  then show ?thesis
    by (induction provided expected rule: list_induct2) (auto simp: tokens_match_def fold_difference xor_zero_word)
qed (auto simp: tokens_match_def)

text \<open>
  The constant-time comparison decides equality of the two byte strings: no difference
  is lost in the accumulator, and a length mismatch is a difference.
\<close>

theorem tokens_match_iff: "tokens_match (as_bytes provided) (as_bytes expected) \<longleftrightarrow> provided = expected"
  by (simp add: tokens_match_eq)

section \<open>The middleware\<close>

text \<open>
  A request, with what the code reads of it: the bytes of the first \<open>Authorization\<close>
  header. \<open>to_str\<close> is \<open>HeaderValue::to_str\<close>.
\<close>

datatype http_method = GET | HEAD | Other_method

record http_request =
  rq_method :: http_method
  rq_path :: string
  rq_authorization :: "u8 list option"

record response =
  rs_status :: nat
  rs_content_type :: "string option"
  rs_body :: "u8 list"

type_synonym 'w service = "http_request \<Rightarrow> 'w \<Rightarrow> response \<times> 'w"

definition is_authorized :: "(u8 list \<Rightarrow> string option) \<Rightarrow> http_request \<Rightarrow> string \<Rightarrow> bool" where
  "is_authorized to_str request token =
    (case rq_authorization request of
       None \<Rightarrow> False
     | Some header \<Rightarrow>
        (case to_str header of
           None \<Rightarrow> False
         | Some header \<Rightarrow>
            (case strip_prefix ''Bearer '' header of
               None \<Rightarrow> False
             | Some provided \<Rightarrow> tokens_match (as_bytes provided) (as_bytes token))))"

definition unauthorized :: response where
  "unauthorized = \<lparr>rs_status = 401, rs_content_type = Some ''text/plain; charset=utf-8'',
     rs_body = as_bytes (''Unauthorized'' @ [CHR 0x0A])\<rparr>"

definition require_bearer_token :: "(u8 list \<Rightarrow> string option) \<Rightarrow> string \<Rightarrow> 'w service \<Rightarrow> 'w service" where
  "require_bearer_token to_str token next_run request w =
    (if is_authorized to_str request token then next_run request w else (unauthorized, w))"

lemma is_authorized_iff:
  "is_authorized to_str q token \<longleftrightarrow>
     (\<exists>header. rq_authorization q = Some header \<and> to_str header = Some (''Bearer '' @ token))"
proof -
  have "strip_prefix ''Bearer '' (''Bearer '' @ token) = Some token" by (rule strip_prefix_append)
  then show ?thesis
    unfolding is_authorized_def
    by (auto simp: tokens_match_eq strip_prefix_Some split: option.splits simp del: append.simps)
qed

section \<open>The handler and the routes\<close>

record ('w, 'fam) exporter =
  ex_gather :: "'w \<Rightarrow> 'fam \<times> 'w"
  ex_encode :: "'fam \<Rightarrow> string + u8 list"
  ex_format_type :: string

definition metrics_handler :: "('w, 'fam) exporter \<Rightarrow> 'w service" where
  "metrics_handler ex request w =
    (case ex_gather ex w of (families, w') \<Rightarrow>
      (case ex_encode ex families of
         Inl e \<Rightarrow> (\<lparr>rs_status = 500, rs_content_type = None, rs_body = []\<rparr>, w')
       | Inr buffer \<Rightarrow>
          (\<lparr>rs_status = 200, rs_content_type = Some (ex_format_type ex), rs_body = buffer\<rparr>, w')))"

text \<open>The operations of \<open>axum::Router\<close> the code uses; \<open>ax_call\<close> is what \<open>serve\<close> does with a request.\<close>

record ('r, 'w) axum =
  ax_new :: 'r
  ax_route_get :: "'r \<Rightarrow> string \<Rightarrow> 'w service \<Rightarrow> 'r"
  ax_route_layer :: "'r \<Rightarrow> ('w service \<Rightarrow> 'w service) \<Rightarrow> 'r"
  ax_call :: "'r \<Rightarrow> 'w service"

definition start_metrics_server ::
  "('r, 'w) axum \<Rightarrow> (u8 list \<Rightarrow> string option) \<Rightarrow> ('w, 'fam) exporter \<Rightarrow> string option \<Rightarrow> 'r" where
  "start_metrics_server ax to_str ex auth_token =
    (let app = ax_route_get ax (ax_new ax) ''/metrics'' (metrics_handler ex) in
     case auth_token of
       Some token \<Rightarrow> ax_route_layer ax app (require_bearer_token to_str token)
     | None \<Rightarrow> app)"

text \<open>
  What the documentation of \<open>axum\<close> says of a router with one \<open>get\<close> route and a layer on its
  routes: the handler is called for \<open>GET\<close> and also for \<open>HEAD\<close>, whose answer loses its body; other
  methods of the path get 405, inside the layer; other paths get 404 and the layer is
  not run for them.
\<close>

definition status_only :: "nat \<Rightarrow> response" where
  "status_only code = \<lparr>rs_status = code, rs_content_type = None, rs_body = []\<rparr>"

definition method_router :: "'w service \<Rightarrow> 'w service" where
  "method_router h q w = (if rq_method q = Other_method then (status_only 405, w) else h q w)"

definition body_removed :: "http_request \<Rightarrow> response \<times> 'w \<Rightarrow> response \<times> 'w" where
  "body_removed q r = (if rq_method q = HEAD then (fst r\<lparr>rs_body := []\<rparr>, snd r) else r)"

definition routed :: "string \<Rightarrow> 'w service \<Rightarrow> 'w service" where
  "routed path h q w = (if rq_path q = path then body_removed q (h q w) else (status_only 404, w))"

definition axum_documented :: "('r, 'w) axum \<Rightarrow> bool" where
  "axum_documented ax \<longleftrightarrow>
    (\<forall>path h q w. ax_call ax (ax_route_get ax (ax_new ax) path h) q w = routed path (method_router h) q w) \<and>
    (\<forall>path h m q w. ax_call ax (ax_route_layer ax (ax_route_get ax (ax_new ax) path h) m) q w =
       routed path (m (method_router h)) q w)"

text \<open>A router that behaves so: a path and the service behind it.\<close>

definition plain_axum :: "(string \<times> 'w service, 'w) axum" where
  "plain_axum =
    \<lparr>ax_new = ([], method_router (\<lambda>q w. (status_only 404, w))),
     ax_route_get = (\<lambda>r path h. (path, method_router h)), ax_route_layer = (\<lambda>r m. (fst r, m (snd r))),
     ax_call = (\<lambda>r. routed (fst r) (snd r))\<rparr>"

lemma plain_axum_documented: "axum_documented plain_axum"
  by (simp add: axum_documented_def plain_axum_def)

text \<open>
  C4. With a token, the metrics are gathered only for a \<open>GET\<close> or a \<open>HEAD\<close> whose authorization
  header reads \<open>Bearer \<close> followed by exactly the token, and returned only for such a \<open>GET\<close>: the
  answer to a \<open>HEAD\<close> has no body. Every other request for the path is answered 401, or
  405 when it has the token but another method, and nothing is gathered for it: the world is
  untouched, and the answer says nothing of the token.
\<close>

theorem metrics_need_token:
  assumes "axum_documented ax"
  shows "ax_call ax (start_metrics_server ax to_str ex (Some token)) q w =
    (if rq_path q \<noteq> ''/metrics'' then (status_only 404, w)
     else if (\<nexists>header. rq_authorization q = Some header \<and> to_str header = Some (''Bearer '' @ token))
       then body_removed q (unauthorized, w)
     else if rq_method q = Other_method then (status_only 405, w)
     else body_removed q (metrics_handler ex q w))"
  using assms
  by (auto simp: start_metrics_server_def Let_def axum_documented_def require_bearer_token_def
    is_authorized_iff routed_def method_router_def body_removed_def)

definition sample_exporter :: "(nat, nat) exporter" where
  "sample_exporter = \<lparr>ex_gather = (\<lambda>n. (n, Suc n)), ex_encode = (\<lambda>n. Inr (replicate n 7)), ex_format_type = ''text''\<rparr>"

definition visible :: "string \<Rightarrow> bool" where
  "visible s \<longleftrightarrow> (\<forall>c\<in>set s. let b = (of_char c :: nat) in 32 \<le> b \<and> b < 127 \<or> b = 9)"

definition visible_to_str :: "u8 list \<Rightarrow> string option" where
  "visible_to_str bs =
    (let s = map (\<lambda>b. char_of (unat b)) bs in if visible s then Some s else None)"

definition ask :: "string option \<Rightarrow> http_request" where
  "ask auth = \<lparr>rq_method = GET, rq_path = ''/metrics'', rq_authorization = map_option as_bytes auth\<rparr>"

lemma chars_as_bytes: "map (\<lambda>b. char_of (unat b)) (as_bytes s) = s"
  by (auto simp: as_bytes_def unat_of_char_u8 intro: map_idI)

lemma visible_to_str_as_bytes: "visible_to_str (as_bytes s) = (if visible s then Some s else None)"
  by (simp add: visible_to_str_def chars_as_bytes)

theorem metrics_need_token_witness:
  "ax_call plain_axum (start_metrics_server plain_axum visible_to_str sample_exporter (Some ''secret'')) (ask (Some ''Bearer secret'')) 2
     = (\<lparr>rs_status = 200, rs_content_type = Some ''text'', rs_body = [7, 7]\<rparr>, 3) \<and>
   ax_call plain_axum (start_metrics_server plain_axum visible_to_str sample_exporter (Some ''secret''))
     ((ask (Some ''Bearer secret''))\<lparr>rq_method := HEAD\<rparr>) 2
     = (\<lparr>rs_status = 200, rs_content_type = Some ''text'', rs_body = []\<rparr>, 3) \<and>
   ax_call plain_axum (start_metrics_server plain_axum visible_to_str sample_exporter (Some ''secret'')) (ask (Some ''Bearer wrong'')) 2
     = (unauthorized, 2) \<and>
   ax_call plain_axum (start_metrics_server plain_axum visible_to_str sample_exporter (Some ''secret'')) (ask None) 2
     = (unauthorized, 2)"
  unfolding metrics_need_token [OF plain_axum_documented]
  by (auto simp: ask_def visible_to_str_as_bytes visible_def metrics_handler_def sample_exporter_def body_removed_def
    numeral_2_eq_2)

text \<open>
  Without a token every \<open>GET\<close> of the path is served, whatever its headers.
\<close>

theorem metrics_open_without_token:
  assumes "axum_documented ax" and "rq_path q = ''/metrics''" and "rq_method q = GET"
  shows "ax_call ax (start_metrics_server ax to_str ex None) q w = metrics_handler ex q w"
  using assms by (simp add: start_metrics_server_def axum_documented_def routed_def method_router_def body_removed_def)

theorem metrics_open_without_token_witness:
  "ax_call plain_axum (start_metrics_server plain_axum visible_to_str sample_exporter None) (ask None) 1
     = (\<lparr>rs_status = 200, rs_content_type = Some ''text'', rs_body = [7]\<rparr>, 2)"
  using metrics_open_without_token [OF plain_axum_documented, of "ask None" visible_to_str sample_exporter 1]
  by (simp add: ask_def metrics_handler_def sample_exporter_def)

section \<open>A token nobody can present\<close>

text \<open>
  C40. \<open>HeaderValue::to_str\<close> only returns text of visible ASCII characters. A validated
  token with any other character, which \<open>validate_token\<close> accepts, therefore locks everyone
  out: no header at all authorizes a request.
\<close>

theorem unpresentable_token:
  assumes "\<And>header s. to_str header = Some s \<Longrightarrow> visible s"
    and "validate_token raw = Inr token" and "\<not> visible token"
  shows "\<not> is_authorized to_str q token"
proof
  assume "is_authorized to_str q token"
  then obtain header where "to_str header = Some (''Bearer '' @ token)"
    by (auto simp: is_authorized_iff)
  with assms(1) have "visible (''Bearer '' @ token)" by blast
  with assms(3) show False by (simp add: visible_def)
qed

theorem unpresentable_token_witness:
  "(let token = concat (replicate 8 [CHR 0xC3, CHR 0xA9]) in
    \<not> is_authorized visible_to_str (ask (Some (''Bearer '' @ token))) token)"
proof -
  let ?t = "concat (replicate 8 [CHR 0xC3, CHR 0xA9])"
  have "trimmed ?t"
    by (auto simp: trimmed_def white_space_def numeral_eq_Suc suffix_to_prefix)
  then have "validate_token ?t = Inr ?t"
    by (simp add: validate_token_def Let_def MIN_TOKEN_LEN_def length_concat numeral_eq_Suc)
  moreover have "\<not> visible ?t" by (simp add: visible_def)
  ultimately have "\<not> is_authorized visible_to_str (ask (Some (''Bearer '' @ ?t))) ?t"
    by (intro unpresentable_token) (auto simp: visible_to_str_def Let_def split: if_splits)
  then show ?thesis by (simp add: Let_def)
qed

end
