(* ===== verification/MetricsPlugin.thy ===== *)
theory MetricsPlugin
  imports Scrape Auth Hook Options
begin

text \<open>
  The rest of the metrics plugin: the event counters and the health metrics of
  \<open>metrics.rs\<close>, the handlers of \<open>events.rs\<close>, and \<open>main.rs\<close> with the choice of the
  authentication, the refresh loop and the status method. The running plugin is a step
  relation over the events lightningd sends and the ticks of the loop.
\<close>

section \<open>Counters and the registry\<close>

text \<open>
  \<open>IntCounter\<close> and the global registry of \<open>prometheus\<close>. Registering looks at descriptors
  only; the handles are shared with the registry, so what a handle counts is what is gathered.
\<close>

record ('desc, 'c, 'w) registry =
  counter_with_opts :: "opts \<Rightarrow> string + 'c"
  counter_desc :: "'c \<Rightarrow> 'desc list"
  counter_inc :: "'c \<Rightarrow> 'c"
  counter_collect :: "'c \<Rightarrow> metric_family list"
  register_descs :: "'desc list \<Rightarrow> 'w \<Rightarrow> (string + unit) \<times> 'w"

definition reg :: "('desc, 'c, 'w) registry \<Rightarrow> ('a \<Rightarrow> 'desc list) \<Rightarrow> 'a \<Rightarrow> ('w, 'a) io" where
  "reg r desc c = io_bind (io_lib (register_descs r (desc c))) (\<lambda>_. io_return c)"

record ('g, 'c) refresh_health =
  last_refresh_timestamp_seconds :: 'g
  refresh_failures_total :: 'c

record ('c, 'cv) event_counters =
  forward_events_total :: 'cv
  channel_opened_total :: 'c
  htlc_accepted_total :: 'c
  channel_state_changes_total :: 'cv

text \<open>\<open>reg(Gauge::with_opts(o(..))?)?\<close> and the same for the other types.\<close>

definition reg_gauge :: "('desc, 'g, 'gv, 'cv) prometheus \<Rightarrow> ('desc, 'c, 'w) registry \<Rightarrow> opts \<Rightarrow> ('w, 'g) io" where
  "reg_gauge p r op = io_bind (io_lift (from_lib (gauge_with_opts p op))) (reg r (gauge_desc p))"

definition reg_counter :: "('desc, 'c, 'w) registry \<Rightarrow> opts \<Rightarrow> ('w, 'c) io" where
  "reg_counter r op = io_bind (io_lift (from_lib (counter_with_opts r op))) (reg r (counter_desc r))"

definition reg_cvec :: "('desc, 'g, 'gv, 'cv) prometheus \<Rightarrow> ('desc, 'c, 'w) registry \<Rightarrow> opts \<Rightarrow> string list \<Rightarrow> ('w, 'cv) io" where
  "reg_cvec p r op labels = io_bind (io_lift (from_lib (cvec_new p op labels))) (reg r (cvec_desc p))"

definition refresh_health_new ::
  "('desc, 'g, 'gv, 'cv) prometheus \<Rightarrow> ('desc, 'c, 'w) registry \<Rightarrow> string \<Rightarrow> ('w, ('g, 'c) refresh_health) io" where
  "refresh_health_new p r node_id =
    io_bind (reg_gauge p r (opts_for node_id ''lightning_metrics_last_refresh_timestamp_seconds''
       ''Unix timestamp of the most recent successful CLN data refresh.'')) (\<lambda>g.
    io_bind (reg_counter r (opts_for node_id ''lightning_metrics_refresh_failures_total''
       ''Total number of refresh attempts that failed since plugin start.'')) (\<lambda>c.
    io_return \<lparr>last_refresh_timestamp_seconds = g, refresh_failures_total = c\<rparr>))"

definition event_counters_new ::
  "('desc, 'g, 'gv, 'cv) prometheus \<Rightarrow> ('desc, 'c, 'w) registry \<Rightarrow> string \<Rightarrow> ('w, ('c, 'cv) event_counters) io" where
  "event_counters_new p r node_id =
    io_bind (reg_cvec p r (opts_for node_id ''lightning_forward_events_total''
       ''Payment forwarding events observed by this node.'') [''status'']) (\<lambda>forwards.
    io_bind (reg_counter r (opts_for node_id ''lightning_channel_opened_total''
       ''Total number of channels opened since plugin start.'')) (\<lambda>opened.
    io_bind (reg_counter r (opts_for node_id ''lightning_htlc_accepted_total''
       ''Total number of HTLCs accepted since plugin start.'')) (\<lambda>accepted.
    io_bind (reg_cvec p r (opts_for node_id ''lightning_channel_state_changes_total''
       ''Channel state change events.'') [''old_state'', ''new_state'']) (\<lambda>changes.
    io_return \<lparr>forward_events_total = forwards, channel_opened_total = opened,
      htlc_accepted_total = accepted, channel_state_changes_total = changes\<rparr>))))"

definition register_build_info ::
  "('desc, 'g, 'gv, 'cv) prometheus \<Rightarrow> ('desc, 'c, 'w) registry \<Rightarrow> string \<Rightarrow> string \<Rightarrow> ('w, 'gv) io" where
  "register_build_info p r node_id version =
    io_bind (io_lift (from_lib (gvec_new p (opts_for node_id ''lightning_build_info'' ''Plugin version info.'') [''version'']))) (\<lambda>gv.
    io_bind (io_lib (register_descs r (gvec_desc p gv))) (\<lambda>_.
    io_lift (gvec_set p [version] 1 gv)))"

section \<open>The handlers\<close>

record ('g, 'c, 'cv) metrics_state =
  ms_counters :: "('c, 'cv) event_counters"
  ms_health :: "('g, 'c) refresh_health"
  ms_cache :: "cached_data rw_lock"

text \<open>What the handlers read of the two notifications of \<open>cln_rpc\<close>, with the states printed.\<close>

record forward_event = fe_status :: string

record channel_state_changed =
  cs_old_state :: "string option"
  cs_new_state :: string

record notification_parsers =
  parse_forward_event :: "json \<Rightarrow> string + forward_event"
  parse_channel_state_changed :: "json \<Rightarrow> string + channel_state_changed"

definition counters_on_forward_event ::
  "('desc, 'g, 'gv, 'cv) prometheus \<Rightarrow> forward_event \<Rightarrow> ('c, 'cv) event_counters \<Rightarrow> ('c, 'cv) event_counters result" where
  "counters_on_forward_event p event ec =
    and_then (cvec_inc_by p [fe_status event] 1 (forward_events_total ec)) (\<lambda>cv.
    Inr (ec\<lparr>forward_events_total := cv\<rparr>))"

definition counters_on_channel_opened :: "('desc, 'c, 'w) registry \<Rightarrow> ('c, 'cv) event_counters \<Rightarrow> ('c, 'cv) event_counters" where
  "counters_on_channel_opened r ec = ec\<lparr>channel_opened_total := counter_inc r (channel_opened_total ec)\<rparr>"

definition counters_on_channel_state_changed ::
  "('desc, 'g, 'gv, 'cv) prometheus \<Rightarrow> channel_state_changed \<Rightarrow> ('c, 'cv) event_counters \<Rightarrow> ('c, 'cv) event_counters result" where
  "counters_on_channel_state_changed p event ec =
    (let old = (case cs_old_state event of Some s \<Rightarrow> s | None \<Rightarrow> ''unknown'');
         new_state = cs_new_state event in
     and_then (cvec_inc_by p [old, new_state] 1 (channel_state_changes_total ec)) (\<lambda>cv.
     Inr (ec\<lparr>channel_state_changes_total := cv\<rparr>)))"

definition counters_on_htlc_accepted :: "('desc, 'c, 'w) registry \<Rightarrow> ('c, 'cv) event_counters \<Rightarrow> ('c, 'cv) event_counters" where
  "counters_on_htlc_accepted r ec = ec\<lparr>htlc_accepted_total := counter_inc r (htlc_accepted_total ec)\<rparr>"

definition on_channel_opened :: "('desc, 'c, 'w) registry \<Rightarrow> json \<Rightarrow> (('g, 'c, 'cv) metrics_state, unit) io" where
  "on_channel_opened r v s = (Inr (), s\<lparr>ms_counters := counters_on_channel_opened r (ms_counters s)\<rparr>)"

definition on_forward_event ::
  "('desc, 'g, 'gv, 'cv) prometheus \<Rightarrow> notification_parsers \<Rightarrow> json \<Rightarrow> (('g, 'c, 'cv) metrics_state, unit) io" where
  "on_forward_event p np v s =
    (case parse_forward_event np v of
       Inl e \<Rightarrow> (Inl (Anyhow [e]), s)
     | Inr n \<Rightarrow>
        (case counters_on_forward_event p n (ms_counters s) of
           Inl e \<Rightarrow> (Inl e, s)
         | Inr ec \<Rightarrow> (Inr (), s\<lparr>ms_counters := ec\<rparr>)))"

definition metrics_hook_htlc_accepted :: "('desc, 'c, 'w) registry \<Rightarrow> json \<Rightarrow> (('g, 'c, 'cv) metrics_state, json) io" where
  "metrics_hook_htlc_accepted r v s =
    (Inr json_continue, s\<lparr>ms_counters := counters_on_htlc_accepted r (ms_counters s)\<rparr>)"

definition on_channel_state_changed ::
  "('desc, 'g, 'gv, 'cv) prometheus \<Rightarrow> notification_parsers \<Rightarrow> json \<Rightarrow> (('g, 'c, 'cv) metrics_state, unit) io" where
  "on_channel_state_changed p np v s =
    (case parse_channel_state_changed np v of
       Inl e \<Rightarrow> (Inl (Anyhow [e]), s)
     | Inr n \<Rightarrow>
        (case counters_on_channel_state_changed p n (ms_counters s) of
           Inl e \<Rightarrow> (Inl e, s)
         | Inr ec \<Rightarrow> (Inr (), s\<lparr>ms_counters := ec\<rparr>)))"

text \<open>The hook counts and lets the HTLC pass, whatever the payload is.\<close>

interpretation metrics_htlc: infallible_hook "metrics_hook_htlc_accepted r" for r
  by unfold_locales (auto simp: metrics_hook_htlc_accepted_def)

section \<open>Start-up\<close>

definition DEFAULT_REFRESH_SECS :: u64 where
  "DEFAULT_REFRESH_SECS = 30"

text \<open>\<open>.unwrap_or(DEFAULT_REFRESH_SECS as i64).max(5) as u64\<close>; the maximum is of signed integers.\<close>

definition refresh_secs_of :: "string + i64 \<Rightarrow> u64" where
  "refresh_secs_of opt =
    (let secs = (case opt of Inr v \<Rightarrow> v | Inl _ \<Rightarrow> as_i64 DEFAULT_REFRESH_SECS) in
     as_u64 (if sint secs < 5 then 5 else secs))"

text \<open>
  \<open>std::env::var\<close> tells a variable that is not set from one whose value is not Unicode;
  \<open>Result::ok\<close> drops the difference.
\<close>

datatype var_error = NotPresent | NotUnicode

definition ok_value :: "'e + 'a \<Rightarrow> 'a option" where
  "ok_value r = (case r of Inr x \<Rightarrow> Some x | Inl _ \<Rightarrow> None)"

definition choose_auth :: "string option \<Rightarrow> bool \<Rightarrow> string option result" where
  "choose_auth metrics_token_env disable_auth =
    (case (metrics_token_env, disable_auth) of
       (Some token, _) \<Rightarrow> and_then (validate_token token) (\<lambda>t. Inr (Some t))
     | (None, True) \<Rightarrow> Inr None
     | (None, False) \<Rightarrow> bail (METRICS_TOKEN_ENV @
         '' env var is required to protect /metrics; set --metrics-disable-auth to run without authentication''))"

definition OPT_METRICS_ADDR :: plain_option where
  "OPT_METRICS_ADDR =
    \<lparr>po_name = ''metrics-addr'', po_description = ''Address and port to expose the Prometheus /metrics endpoint on''\<rparr>"

definition OPT_REFRESH_SECS :: "i64 default_option" where
  "OPT_REFRESH_SECS =
    \<lparr>dn_name = ''metrics-refresh'', dn_default = as_i64 DEFAULT_REFRESH_SECS,
     dn_description = ''How often (seconds) to refresh CLN node data for gauge metrics''\<rparr>"

definition OPT_METRICS_DISABLE_AUTH :: "bool default_option" where
  "OPT_METRICS_DISABLE_AUTH =
    \<lparr>dn_name = ''metrics-disable-auth'', dn_default = False,
     dn_description = ''Serve /metrics without authentication (INSECURE - local/dev use only)''\<rparr>"

definition metrics_plugin :: declared_plugin where
  "metrics_plugin =
    \<lparr>dp_options = [po_name OPT_METRICS_ADDR, dn_name OPT_REFRESH_SECS, dn_name OPT_METRICS_DISABLE_AUTH],
     dp_rpcmethods = [''metrics-status''],
     dp_subscriptions = [''channel_opened'', ''forward_event'', ''channel_state_changed''],
     dp_hooks = [''htlc_accepted''], dp_dynamic = True\<rparr>"

text \<open>What the user set, by type, and the three readings of \<open>main\<close>.\<close>

record metrics_config =
  mc_strings :: "string user_options"
  mc_integers :: "i64 user_options"
  mc_booleans :: "bool user_options"

definition opt_metrics_addr :: "metrics_config \<Rightarrow> string + string option" where
  "opt_metrics_addr configured = plain_value (mc_strings configured) OPT_METRICS_ADDR"

definition opt_metrics_refresh :: "metrics_config \<Rightarrow> string + i64" where
  "opt_metrics_refresh configured = default_value (mc_integers configured) OPT_REFRESH_SECS"

definition opt_metrics_disable_auth :: "metrics_config \<Rightarrow> string + bool" where
  "opt_metrics_disable_auth configured = default_value (mc_booleans configured) OPT_METRICS_DISABLE_AUTH"

record ('addr, 'lst, 'w) metrics_env =
  me_configure :: "declared_plugin \<Rightarrow> 'w \<Rightarrow> (string + metrics_config option) \<times> 'w"
  me_parse_addr :: "string \<Rightarrow> string + 'addr"
  me_env_var :: "string \<Rightarrow> var_error + string"
  me_version :: string
  me_bind :: "'addr \<Rightarrow> 'w \<Rightarrow> (string + 'lst) \<times> 'w"
  me_start :: "'w \<Rightarrow> (string + unit) \<times> 'w"

record ('desc, 'g, 'c, 'cv, 'lst) metrics_running =
  rn_state :: "('g, 'c, 'cv) metrics_state"
  rn_collector :: "'desc derived_collector"
  rn_listener :: 'lst
  rn_auth_token :: "string option"
  rn_refresh_secs :: u64

text \<open>The metrics of the plugin, created and registered.\<close>

definition register_metrics ::
  "('desc, 'g, 'gv, 'cv) prometheus \<Rightarrow> ('desc, 'c, 'w) registry \<Rightarrow> string \<Rightarrow> string
    \<Rightarrow> ('w, ('g, 'c, 'cv) metrics_state \<times> 'desc derived_collector) io" where
  "register_metrics p r version node_id =
    io_bind (event_counters_new p r node_id) (\<lambda>counters.
    io_bind (refresh_health_new p r node_id) (\<lambda>health.
    let cache = \<lparr>lk_poisoned = False, lk_content = default_cache\<rparr> in
    io_bind (register_build_info p r node_id version) (\<lambda>_.
    io_bind (io_lift (derived_collector_new p node_id)) (\<lambda>derived.
    io_bind (io_lib (register_descs r (dc_descs derived))) (\<lambda>_.
    io_return (\<lparr>ms_counters = counters, ms_health = health, ms_cache = cache\<rparr>, derived))))))"

text \<open>\<open>main\<close> up to the point where the server and the refresh loop run.\<close>

definition metrics_main ::
  "('desc, 'g, 'gv, 'cv) prometheus \<Rightarrow> ('desc, 'c, 'w) registry \<Rightarrow> 'w cln_env \<Rightarrow> ('addr, 'lst, 'w) metrics_env
    \<Rightarrow> ('w, ('desc, 'g, 'c, 'cv, 'lst) metrics_running option) io" where
  "metrics_main p r cln env =
    io_bind (io_lib (me_configure env metrics_plugin)) (\<lambda>configured.
    case configured of
      None \<Rightarrow> io_return None
    | Some configured \<Rightarrow>
        io_bind (io_lift (from_lib (opt_metrics_addr configured))) (\<lambda>addr_opt.
        io_bind (io_lift (ok_or ''metrics-addr option is required'' addr_opt)) (\<lambda>addr_str.
        io_bind (io_lift (from_lib (me_parse_addr env addr_str))) (\<lambda>addr.
        let refresh_secs = refresh_secs_of (opt_metrics_refresh configured);
            metrics_token_env = ok_value (me_env_var env METRICS_TOKEN_ENV) in
        io_bind (io_lift (from_lib (opt_metrics_disable_auth configured))) (\<lambda>disable_auth.
        io_bind (io_lift (choose_auth metrics_token_env disable_auth)) (\<lambda>auth_token.
        io_bind (io_lib (cln_connect cln)) (\<lambda>_.
        io_bind (io_lib (cln_getinfo cln)) (\<lambda>node_info.
        io_bind (register_metrics p r (me_version env) (gi_id node_info)) (\<lambda>(state, derived).
        io_bind (io_lib (me_bind env addr)) (\<lambda>listener.
        io_bind (io_lib (me_start env)) (\<lambda>_.
        io_return (Some \<lparr>rn_state = state, rn_collector = derived, rn_listener = listener,
          rn_auth_token = auth_token, rn_refresh_secs = refresh_secs\<rparr>))))))))))))"

section \<open>The refresh loop and the status method\<close>

definition refresh_tick ::
  "profile \<Rightarrow> ('desc, 'g, 'gv, 'cv) prometheus \<Rightarrow> ('desc, 'c, 'w) registry \<Rightarrow> 'w cln_env
    \<Rightarrow> ('w \<Rightarrow> (string + nat) \<times> 'w) \<Rightarrow> ('g, 'c, 'cv) metrics_state
    \<Rightarrow> ('w, ('g, 'c, 'cv) metrics_state) io" where
  "refresh_tick prof p r cln clock s w =
    (case fetch prof cln w of
       (Inr data, w1) \<Rightarrow>
         (case lock_write (ms_cache s) data of
            Inl e \<Rightarrow> (Inl e, w1)
          | Inr cache \<Rightarrow>
             (case clock w1 of (since_epoch, w2) \<Rightarrow>
               let now = (case since_epoch of Inr secs \<Rightarrow> usize_as_f64 secs | Inl _ \<Rightarrow> 0);
                   health = ms_health s in
               (Inr (s\<lparr>ms_cache := cache,
                  ms_health := health\<lparr>last_refresh_timestamp_seconds :=
                    gauge_set p now (last_refresh_timestamp_seconds health)\<rparr>\<rparr>), w2)))
     | (Inl (Anyhow chain), w1) \<Rightarrow>
         (let health = ms_health s in
          (Inr (s\<lparr>ms_health := health\<lparr>refresh_failures_total :=
             counter_inc r (refresh_failures_total health)\<rparr>\<rparr>), w1))
     | (Inl (Panic msg), w1) \<Rightarrow> (Inl (Panic msg), w1))"

definition json_i64 :: "i64 \<Rightarrow> json" where
  "json_i64 x = JNumber (if sint x < 0 then NegInt x else PosInt x)"

definition rpc_status :: "('g, 'c, 'cv) metrics_state \<Rightarrow> json \<Rightarrow> json result" where
  "rpc_status s args =
    and_then (lock_read (ms_cache s)) (\<lambda>cache.
    Inr (JObject
      [(''blockheight'', json_i64 (nd_blockheight (cd_node cache))),
       (''channels'', JNumber (PosInt (of_nat (length (cd_channels cache))))),
       (''status'', JString ''running'')]))"

section \<open>The running plugin\<close>

text \<open>
  What happens to the plugin once it runs: the notifications and the hook of lightningd, the
  ticks of the loop with the outcome of their poll, and anything else that moves the
  outside world. A panic in the loop ends its task; the handlers go on without it.
\<close>

datatype metrics_event =
    Opened json
  | Forward json
  | State_changed json
  | Htlc json
  | Tick "cached_data result"
  | Elsewhere

type_synonym ('g, 'c, 'cv, 'w) metrics_conf = "('g, 'c, 'cv) metrics_state \<times> bool \<times> 'w"

inductive metrics_step ::
  "profile \<Rightarrow> ('desc, 'g, 'gv, 'cv) prometheus \<Rightarrow> ('desc, 'c, 'w) registry \<Rightarrow> notification_parsers
    \<Rightarrow> 'w cln_env \<Rightarrow> ('w \<Rightarrow> (string + nat) \<times> 'w) \<Rightarrow> metrics_event
    \<Rightarrow> ('g, 'c, 'cv, 'w) metrics_conf \<Rightarrow> ('g, 'c, 'cv, 'w) metrics_conf \<Rightarrow> bool"
  for prof p r np cln clock where
  opened: "on_channel_opened r v s = (res, s') \<Longrightarrow>
    metrics_step prof p r np cln clock (Opened v) (s, alive, w) (s', alive, w)"
| forward: "on_forward_event p np v s = (res, s') \<Longrightarrow>
    metrics_step prof p r np cln clock (Forward v) (s, alive, w) (s', alive, w)"
| state_changed: "on_channel_state_changed p np v s = (res, s') \<Longrightarrow>
    metrics_step prof p r np cln clock (State_changed v) (s, alive, w) (s', alive, w)"
| htlc: "metrics_hook_htlc_accepted r v s = (res, s') \<Longrightarrow>
    metrics_step prof p r np cln clock (Htlc v) (s, alive, w) (s', alive, w)"
| tick: "refresh_tick prof p r cln clock s w = (Inr s', w') \<Longrightarrow>
    metrics_step prof p r np cln clock (Tick (fst (fetch prof cln w))) (s, True, w) (s', True, w')"
| tick_panics: "refresh_tick prof p r cln clock s w = (Inl e, w') \<Longrightarrow>
    metrics_step prof p r np cln clock (Tick (fst (fetch prof cln w))) (s, True, w) (s, False, w')"
| elsewhere: "metrics_step prof p r np cln clock Elsewhere (s, alive, w) (s, alive, w')"

inductive metrics_run ::
  "profile \<Rightarrow> ('desc, 'g, 'gv, 'cv) prometheus \<Rightarrow> ('desc, 'c, 'w) registry \<Rightarrow> notification_parsers
    \<Rightarrow> 'w cln_env \<Rightarrow> ('w \<Rightarrow> (string + nat) \<times> 'w) \<Rightarrow> ('g, 'c, 'cv, 'w) metrics_conf
    \<Rightarrow> metrics_event list \<Rightarrow> ('g, 'c, 'cv, 'w) metrics_conf \<Rightarrow> bool"
  for prof p r np cln clock c0 where
  start: "metrics_run prof p r np cln clock c0 [] c0"
| more: "metrics_run prof p r np cln clock c0 evs c \<Longrightarrow> metrics_step prof p r np cln clock ev c c' \<Longrightarrow>
    metrics_run prof p r np cln clock c0 (evs @ [ev]) c'"

inductive_cases metrics_stepE: "metrics_step prof p r np cln clock ev c c'"

end
