(* ===== verification/MetricsRun.thy ===== *)
theory MetricsRun
  imports MetricsPlugin
begin

text \<open>
  The properties of the running metrics plugin: what its start-up decides, and what holds
  of the counters, the cache and the refresh loop after any sequence of events.
\<close>

section \<open>Start-up\<close>

lemma refresh_secs_bounds: "5 \<le> sint (refresh_secs_of opt) \<and> sint (refresh_secs_of opt) < 2 ^ 63"
proof -
  have "sint (x :: i64) < 2 ^ 63" for x using sint_lt [of x] by simp
  then show ?thesis by (auto simp: refresh_secs_of_def Let_def as_u64_def)
qed

lemma refresh_secs_unat: "5 \<le> unat (refresh_secs_of opt)"
proof -
  have "sint x \<le> uint x" for x :: u64
  proof -
    have "- (2 ^ 63) \<le> uint x" by (rule order_trans [of _ 0]) simp_all
    then show ?thesis by (simp add: sint_uint signed_take_bit_int_less_eq_self_iff)
  qed
  from this [of "refresh_secs_of opt"] refresh_secs_bounds [of opt]
  have "5 \<le> uint (refresh_secs_of opt)" by linarith
  then have "nat 5 \<le> nat (uint (refresh_secs_of opt))" by (rule nat_mono)
  then show ?thesis by simp
qed

lemma choose_auth_Inr:
  "choose_auth token_env disable = Inr auth \<longleftrightarrow>
     (case token_env of
        Some raw \<Rightarrow> validate_token raw = Inr (trim raw) \<and> auth = Some (trim raw)
      | None \<Rightarrow> disable \<and> auth = None)"
  by (auto simp: choose_auth_def bail_def validate_token_def Let_def result_simps split: option.split bool.split)

lemma register_metrics_cache:
  "register_metrics p r version node_id w = (Inr (s, dc), w') \<Longrightarrow>
     ms_cache s = \<lparr>lk_poisoned = False, lk_content = default_cache\<rparr>"
  by (auto simp: register_metrics_def io_simps Let_def)

lemma metrics_main_Inr:
  assumes "metrics_main p r cln env w = (Inr (Some rn), w')"
  obtains config w1 disable w2 w3 node_id version where
    "me_configure env metrics_plugin w = (Inr (Some config), w1)" "opt_metrics_disable_auth config = Inr disable"
    "choose_auth (ok_value (me_env_var env METRICS_TOKEN_ENV)) disable = Inr (rn_auth_token rn)"
    "rn_refresh_secs rn = refresh_secs_of (opt_metrics_refresh config)"
    "register_metrics p r version node_id w2 = (Inr (rn_state rn, rn_collector rn), w3)"
  using assms
  by (fastforce simp: metrics_main_def io_simps Let_def result_simps split: option.splits prod.splits)

text \<open>
  C25. The endpoint is served without authentication only when the environment has no token
  that is Unicode text and the flag that disables authentication is set. With such a token in
  the environment the server compares with it, trimmed and of at least sixteen bytes,
  also when the flag is set. The period given to the refresh loop is five seconds at the least,
  whatever the option says, and the cache starts empty, unpoisoned.
\<close>

theorem startup_protects:
  assumes "metrics_main p r cln env w = (Inr (Some rn), w')"
  shows "(case me_env_var env ''METRICS_TOKEN'' of
       Inr raw \<Rightarrow> rn_auth_token rn = Some (trim raw) \<and> 16 \<le> length (trim raw)
     | Inl e \<Rightarrow> rn_auth_token rn = None \<and>
         (\<exists>config w1. me_configure env metrics_plugin w = (Inr (Some config), w1) \<and> opt_metrics_disable_auth config = Inr True)) \<and>
    5 \<le> sint (rn_refresh_secs rn) \<and>
    ms_cache (rn_state rn) = \<lparr>lk_poisoned = False, lk_content = default_cache\<rparr>"
proof -
  from assms obtain config w1 disable w2 w3 node_id version where m:
    "me_configure env metrics_plugin w = (Inr (Some config), w1)" "opt_metrics_disable_auth config = Inr disable"
    "choose_auth (ok_value (me_env_var env METRICS_TOKEN_ENV)) disable = Inr (rn_auth_token rn)"
    "rn_refresh_secs rn = refresh_secs_of (opt_metrics_refresh config)"
    "register_metrics p r version node_id w2 = (Inr (rn_state rn, rn_collector rn), w3)"
    by (rule metrics_main_Inr)
  have "16 \<le> length (trim raw)" if "validate_token raw = Inr (trim raw)" for raw
    using that by (auto simp: validate_token_def Let_def bail_def MIN_TOKEN_LEN_def split: if_splits)
  with m show ?thesis
    using refresh_secs_bounds [of "opt_metrics_refresh config"] register_metrics_cache [OF m(5)]
    by (auto simp: choose_auth_Inr ok_value_def METRICS_TOKEN_ENV_def split: option.splits sum.splits)
qed

text \<open>A registry, and the environment of a plugin started with a token.\<close>

definition plain_registry :: "(opts \<times> string list, opts \<times> u64, nat) registry" where
  "plain_registry =
    \<lparr>counter_with_opts = (\<lambda>op. Inr (op, 0)), counter_desc = (\<lambda>c. [(fst c, [])]),
     counter_inc = (\<lambda>c. (fst c, snd c + 1)),
     counter_collect = (\<lambda>c. [\<lparr>mf_opts = fst c, mf_samples = [([], Counter_value (u64_as_f64 (snd c)))]\<rparr>]),
     register_descs = (\<lambda>ds n. (Inr (), n))\<rparr>"

definition sample_config :: metrics_config where
  "sample_config =
    \<lparr>mc_strings = (\<lambda>_. Inr (Some ''127.0.0.1:9750'')), mc_integers = (\<lambda>_. Inr (Some 1)),
     mc_booleans = (\<lambda>_. Inr (Some True))\<rparr>"

lemma sample_config_options [simp]:
  "opt_metrics_addr sample_config = Inr (Some ''127.0.0.1:9750'')" "opt_metrics_refresh sample_config = Inr 1"
  "opt_metrics_disable_auth sample_config = Inr True"
  by (simp_all add: opt_metrics_addr_def opt_metrics_refresh_def opt_metrics_disable_auth_def sample_config_def
      plain_value_def)

definition sample_metrics_env :: "(nat, nat, nat) metrics_env" where
  "sample_metrics_env =
    \<lparr>me_configure = (\<lambda>decl n. (Inr (Some sample_config), n)),
     me_parse_addr = (\<lambda>s. Inr 9750),
     me_env_var = (\<lambda>name. Inr (''  a-long-enough-token'' @ [CHR 0x0A])),
     me_version = ''0.1.0'', me_bind = (\<lambda>a n. (Inr a, n)), me_start = (\<lambda>n. (Inr (), n))\<rparr>"

lemma sample_token: "trim (''  a-long-enough-token'' @ [CHR 0x0A]) = ''a-long-enough-token''"
  by (simp add: trim_def trim_start_def trim_end_def drop_words.simps white_space_def)

lemma sample_register:
  "\<exists>s. register_metrics plain_prometheus plain_registry version ''node'' n = (Inr (s, sample_collector), n)"
  by (simp add: register_metrics_def event_counters_new_def refresh_health_new_def register_build_info_def
    reg_gauge_def reg_counter_def reg_cvec_def reg_def plain_registry_def sample_collector_new Let_def
    io_simps io_lib_def plain_prometheus_def [THEN arg_cong, of gauge_with_opts]
    plain_prometheus_def [THEN arg_cong, of gvec_new] plain_prometheus_def [THEN arg_cong, of cvec_new]
    plain_prometheus_def [THEN arg_cong, of gvec_set] plain_vec_new_def plain_update_def)

lemma sample_metrics_main:
  obtains rn where "metrics_main plain_prometheus plain_registry sample_cln sample_metrics_env 0 = (Inr (Some rn), 2)"
    and "rn_refresh_secs rn = 5"
proof -
  obtain s where s: "register_metrics plain_prometheus plain_registry (me_version sample_metrics_env) ''node'' 2
      = (Inr (s, sample_collector), 2)"
    using sample_register by blast
  have "choose_auth (ok_value (me_env_var sample_metrics_env METRICS_TOKEN_ENV)) True = Inr (Some ''a-long-enough-token'')"
    using sample_token by (simp add: choose_auth_def ok_value_def sample_metrics_env_def validate_token_def Let_def MIN_TOKEN_LEN_def)
  then have "\<exists>rn. metrics_main plain_prometheus plain_registry sample_cln sample_metrics_env 0 = (Inr (Some rn), 2) \<and>
      rn_refresh_secs rn = refresh_secs_of (Inr 1)"
    using s by (simp add: metrics_main_def sample_metrics_env_def sample_cln_def io_simps io_lib_def
      io_bind_def Let_def numeral_2_eq_2)
  moreover have "refresh_secs_of (Inr 1) = 5" by (simp add: refresh_secs_of_def Let_def as_u64_def)
  ultimately show thesis using that by auto
qed

theorem startup_protects_witness:
  "\<exists>rn w'. metrics_main plain_prometheus plain_registry sample_cln sample_metrics_env 0 = (Inr (Some rn), w') \<and>
     rn_auth_token rn = Some ''a-long-enough-token'' \<and> 5 \<le> sint (rn_refresh_secs rn)"
proof -
  obtain rn where rn: "metrics_main plain_prometheus plain_registry sample_cln sample_metrics_env 0 = (Inr (Some rn), 2)"
    by (rule sample_metrics_main)
  then show ?thesis
    using startup_protects [OF rn] sample_token by (auto simp: sample_metrics_env_def)
qed

section \<open>The cache and the loop\<close>

text \<open>What the ticks of a trace leave: the last snapshot fetched, and how many polls failed.\<close>

definition last_fetch :: "metrics_event list \<Rightarrow> cached_data" where
  "last_fetch evs = fold (\<lambda>ev d. case ev of Tick (Inr data) \<Rightarrow> data | _ \<Rightarrow> d) evs default_cache"

definition failed_tick :: "metrics_event \<Rightarrow> bool" where
  "failed_tick ev = (case ev of Tick (Inl (Anyhow chain)) \<Rightarrow> True | _ \<Rightarrow> False)"

definition panicked_tick :: "metrics_event \<Rightarrow> bool" where
  "panicked_tick ev = (case ev of Tick (Inl (Panic msg)) \<Rightarrow> True | _ \<Rightarrow> False)"

lemma last_fetch_snoc:
  "last_fetch (evs @ [ev]) = (case ev of Tick (Inr data) \<Rightarrow> data | _ \<Rightarrow> last_fetch evs)"
  by (simp add: last_fetch_def split: metrics_event.split sum.split)

text \<open>A handler of an event touches neither the cache nor the health metrics.\<close>

lemma handlers_keep:
  "on_channel_opened r v s = (res, s') \<Longrightarrow> ms_cache s' = ms_cache s \<and> ms_health s' = ms_health s"
  "on_forward_event p np v s = (res, s') \<Longrightarrow> ms_cache s' = ms_cache s \<and> ms_health s' = ms_health s"
  "on_channel_state_changed p np v s = (res, s') \<Longrightarrow> ms_cache s' = ms_cache s \<and> ms_health s' = ms_health s"
  "metrics_hook_htlc_accepted r v s = (ans, s') \<Longrightarrow> ms_cache s' = ms_cache s \<and> ms_health s' = ms_health s"
  by (auto simp: on_channel_opened_def on_forward_event_def on_channel_state_changed_def
    metrics_hook_htlc_accepted_def split: sum.splits)

text \<open>One tick with a lock that is not poisoned, for each outcome of the poll.\<close>

lemma refresh_tick_cases:
  assumes "\<not> lk_poisoned (ms_cache s)"
  shows "refresh_tick prof p r cln clock s w = (Inr s', w') \<Longrightarrow> fst (fetch prof cln w) = Inr data \<Longrightarrow>
      ms_cache s' = \<lparr>lk_poisoned = False, lk_content = data\<rparr> \<and>
      refresh_failures_total (ms_health s') = refresh_failures_total (ms_health s) \<and> ms_counters s' = ms_counters s"
    and "refresh_tick prof p r cln clock s w = (Inr s', w') \<Longrightarrow> fst (fetch prof cln w) = Inl e \<Longrightarrow>
      (\<exists>chain. e = Anyhow chain) \<and> ms_cache s' = ms_cache s \<and>
      refresh_failures_total (ms_health s') = counter_inc r (refresh_failures_total (ms_health s)) \<and>
      ms_counters s' = ms_counters s"
    and "refresh_tick prof p r cln clock s w = (Inl e, w') \<Longrightarrow> \<exists>msg. fst (fetch prof cln w) = Inl (Panic msg)"
  using assms
  by (cases "ms_cache s"; auto simp: refresh_tick_def lock_write_def Let_def split: prod.splits sum.splits error.splits)+

text \<open>The cache, the failure counter and the life of the loop, as functions of the trace.\<close>

definition cache_tracks ::
  "('desc, 'c, 'w) registry \<Rightarrow> ('g, 'c, 'cv) metrics_state \<Rightarrow> metrics_event list
    \<Rightarrow> ('g, 'c, 'cv) metrics_state \<Rightarrow> bool \<Rightarrow> bool" where
  "cache_tracks r s0 evs s alive \<longleftrightarrow>
    ms_cache s = \<lparr>lk_poisoned = False, lk_content = last_fetch evs\<rparr> \<and>
    refresh_failures_total (ms_health s) =
      (counter_inc r ^^ length (filter failed_tick evs)) (refresh_failures_total (ms_health s0)) \<and>
    (alive \<longleftrightarrow> filter panicked_tick evs = [])"

lemma cache_tracks_start:
  "ms_cache s0 = \<lparr>lk_poisoned = False, lk_content = default_cache\<rparr> \<Longrightarrow> cache_tracks r s0 [] s0 True"
  by (simp add: cache_tracks_def last_fetch_def)

lemma cache_tracks_step:
  assumes "metrics_step prof p r np cln clock ev (s1, alive1, w1) (s, alive, w)" and "cache_tracks r s0 evs s1 alive1"
  shows "cache_tracks r s0 (evs @ [ev]) s alive"
  using assms(1)
proof (cases rule: metrics_step.cases)
  case (tick)
  then show ?thesis
    using assms(2) refresh_tick_cases(1,2) [of s1 prof p r cln clock w1 s w]
    by (cases "fst (fetch prof cln w1)")
       (auto simp: cache_tracks_def last_fetch_snoc failed_tick_def panicked_tick_def split: error.splits)
next
  case (tick_panics e)
  then show ?thesis
    using assms(2) refresh_tick_cases(3) [of s1 prof p r cln clock w1 e w]
    by (auto simp: cache_tracks_def last_fetch_snoc failed_tick_def panicked_tick_def)
qed (use assms(2) handlers_keep in \<open>fastforce simp: cache_tracks_def last_fetch_snoc failed_tick_def panicked_tick_def\<close>)+

lemma run_cache:
  assumes "metrics_run prof p r np cln clock (s0, True, w0) evs (s, alive, w)"
    and "ms_cache s0 = \<lparr>lk_poisoned = False, lk_content = default_cache\<rparr>"
  shows "cache_tracks r s0 evs s alive"
  using assms(1)
proof (induction evs "(s, alive, w)" arbitrary: s alive w rule: metrics_run.induct)
  case start
  show ?case by (rule cache_tracks_start [OF assms(2)])
next
  case (more evs c ev)
  obtain s1 alive1 w1 where c: "c = (s1, alive1, w1)" by (cases c)
  show ?case by (rule cache_tracks_step [OF more(3) [unfolded c] more(2) [OF c]])
qed

text \<open>A run: an HTLC is accepted, the node is polled, something else happens, another HTLC.\<close>

definition sample_state :: "(opts \<times> f64, opts \<times> u64, u64 plain_vec) metrics_state" where
  "sample_state =
    \<lparr>ms_counters = \<lparr>forward_events_total = (opts_for ''node'' ''lightning_forward_events_total'' ''Payment forwarding events observed by this node.'', 1, []),
       channel_opened_total = (opts_for ''node'' ''lightning_channel_opened_total'' ''Total number of channels opened since plugin start.'', 0),
       htlc_accepted_total = (opts_for ''node'' ''lightning_htlc_accepted_total'' ''Total number of HTLCs accepted since plugin start.'', 0),
       channel_state_changes_total = (opts_for ''node'' ''lightning_channel_state_changes_total'' ''Channel state change events.'', 2, [])\<rparr>,
     ms_health = \<lparr>last_refresh_timestamp_seconds = (opts_for ''node'' [] [], 0), refresh_failures_total = (opts_for ''node'' [] [], 0)\<rparr>,
     ms_cache = \<lparr>lk_poisoned = False, lk_content = default_cache\<rparr>\<rparr>"

definition sample_parsers :: notification_parsers where
  "sample_parsers =
    \<lparr>parse_forward_event = (\<lambda>v. case v of JString s \<Rightarrow> Inr \<lparr>fe_status = s\<rparr> | _ \<Rightarrow> Inl ''invalid type''),
     parse_channel_state_changed = (\<lambda>v. case v of JString s \<Rightarrow> Inr \<lparr>cs_old_state = None, cs_new_state = s\<rparr> | _ \<Rightarrow> Inl ''invalid type'')\<rparr>"

definition sample_events :: "metrics_event list" where
  "sample_events = [Htlc JNull, Tick (fst (fetch Release sample_cln 0)), Forward (JString ''settled''), Forward JNull, Htlc JNull]"

lemma sample_run:
  "\<exists>s w. metrics_run Release plain_prometheus plain_registry sample_parsers sample_cln (\<lambda>n. (Inr 99, n))
     (sample_state, True, 0) sample_events (s, True, w)"
proof -
  let ?step = "metrics_step Release plain_prometheus plain_registry sample_parsers sample_cln (\<lambda>n. (Inr 99, n))"
  let ?run = "metrics_run Release plain_prometheus plain_registry sample_parsers sample_cln (\<lambda>n. (Inr 99, n)) (sample_state, True, 0)"
  have h: "\<exists>s'. ?step (Htlc v) (s, a, w) (s', a, w)" for v s a w
    using metrics_step.htlc by (metis surj_pair)
  have f: "\<exists>s'. ?step (Forward v) (s, a, w) (s', a, w)" for v s a w
    using metrics_step.forward by (metis surj_pair)
  obtain s1 where r1: "?run [Htlc JNull] (s1, True, 0)" and keep: "ms_cache s1 = ms_cache sample_state"
    using metrics_run.more [OF metrics_run.start metrics_step.htlc]
    by (fastforce simp: metrics_hook_htlc_accepted_def)
  obtain data where data: "fetch Release sample_cln 0 = (Inr data, 4)"
    by (simp add: fetch_def io_simps io_lib_def sample_cln_def sum_i64_Release Let_def io_bind_def)
  have "\<exists>s2. refresh_tick Release plain_prometheus plain_registry sample_cln (\<lambda>n. (Inr 99, n)) s1 0 = (Inr s2, 4)"
    by (simp add: refresh_tick_def data lock_write_def keep sample_state_def Let_def)
  then obtain s2 where r2: "?run ([Htlc JNull] @ [Tick (fst (fetch Release sample_cln 0))]) (s2, True, 4)"
    using metrics_run.more [OF r1 metrics_step.tick] by blast
  obtain s3 where r3: "?run (([Htlc JNull] @ [Tick (fst (fetch Release sample_cln 0))]) @ [Forward (JString ''settled'')]) (s3, True, 4)"
    using metrics_run.more [OF r2] f by blast
  obtain s4 where r4: "?run ((([Htlc JNull] @ [Tick (fst (fetch Release sample_cln 0))]) @ [Forward (JString ''settled'')]) @ [Forward JNull]) (s4, True, 4)"
    using metrics_run.more [OF r3] f by blast
  obtain s5 where "?run (((([Htlc JNull] @ [Tick (fst (fetch Release sample_cln 0))]) @ [Forward (JString ''settled'')]) @ [Forward JNull]) @ [Htlc JNull]) (s5, True, 4)"
    using metrics_run.more [OF r4] h by blast
  then show ?thesis by (auto simp: sample_events_def)
qed

section \<open>The counters\<close>

text \<open>What \<open>prometheus\<close> documents of \<open>IntCounter\<close>: it starts at zero, \<open>inc\<close> adds one, and its value is collected as a double.\<close>

definition counter_documented :: "('desc, 'c, 'w) registry \<Rightarrow> bool" where
  "counter_documented r \<longleftrightarrow>
    (\<forall>op c n. counter_with_opts r op = Inr c \<longrightarrow>
      counter_collect r ((counter_inc r ^^ n) c) = [\<lparr>mf_opts = op, mf_samples = [([], Counter_value (u64_as_f64 (of_nat n)))]\<rparr>])"

definition forward_statuses :: "notification_parsers \<Rightarrow> metrics_event list \<Rightarrow> string list" where
  "forward_statuses np evs = List.map_filter (\<lambda>ev. case ev of
     Forward v \<Rightarrow> (case parse_forward_event np v of Inr n \<Rightarrow> Some (fe_status n) | Inl e \<Rightarrow> None) | _ \<Rightarrow> None) evs"

definition state_changes :: "notification_parsers \<Rightarrow> metrics_event list \<Rightarrow> (string \<times> string) list" where
  "state_changes np evs = List.map_filter (\<lambda>ev. case ev of
     State_changed v \<Rightarrow> (case parse_channel_state_changed np v of
        Inr n \<Rightarrow> Some (case cs_old_state n of Some s \<Rightarrow> s | None \<Rightarrow> ''unknown'', cs_new_state n) | Inl e \<Rightarrow> None)
   | _ \<Rightarrow> None) evs"

definition is_htlc :: "metrics_event \<Rightarrow> bool" where
  "is_htlc ev = (case ev of Htlc v \<Rightarrow> True | _ \<Rightarrow> False)"

definition is_opened :: "metrics_event \<Rightarrow> bool" where
  "is_opened ev = (case ev of Opened v \<Rightarrow> True | _ \<Rightarrow> False)"

lemma map_filter_snoc: "List.map_filter f (xs @ [x]) = List.map_filter f xs @ (case f x of Some y \<Rightarrow> [y] | None \<Rightarrow> [])"
  by (simp add: List.map_filter_def split: option.split)

text \<open>A vector that counted so far can count one more.\<close>

lemma vec_counts_on:
  assumes doc: "vec_documented create update coll act" and "create op names = Inr v0"
    and "\<And>y. length (lab y) = length names"
    and "fold_result (\<lambda>v y. update (lab y) 1 v) v0 ys = Inr v"
  shows "\<exists>v'. update (lab y) 1 v = Inr v' \<and> fold_result (\<lambda>v y. update (lab y) 1 v) v0 (ys @ [y]) = Inr v'"
proof -
  obtain v' where v': "fold_result (\<lambda>v y. update (lab y) 1 v) v0 (ys @ [y]) = Inr v'"
    by (rule vec_loop [OF doc assms(2), of "ys @ [y]" lab "\<lambda>_. 1"]) (use assms(3) in auto)
  moreover from this have "update (lab y) 1 v = Inr v'"
    using assms(4) by (auto simp: fold_result_append result_simps)
  ultimately show ?thesis by blast
qed

definition counted :: "('desc, 'g, 'gv, 'cv) prometheus \<Rightarrow> ('desc, 'c, 'w) registry \<Rightarrow> notification_parsers
    \<Rightarrow> metrics_event list \<Rightarrow> ('c, 'cv) event_counters \<Rightarrow> ('c, 'cv) event_counters \<Rightarrow> bool" where
  "counted p r np evs ec0 ec \<longleftrightarrow>
    htlc_accepted_total ec = (counter_inc r ^^ length (filter is_htlc evs)) (htlc_accepted_total ec0) \<and>
    channel_opened_total ec = (counter_inc r ^^ length (filter is_opened evs)) (channel_opened_total ec0) \<and>
    fold_result (\<lambda>v y. cvec_inc_by p [y] 1 v) (forward_events_total ec0) (forward_statuses np evs) = Inr (forward_events_total ec) \<and>
    fold_result (\<lambda>v y. cvec_inc_by p [fst y, snd y] 1 v) (channel_state_changes_total ec0) (state_changes np evs) =
      Inr (channel_state_changes_total ec)"

lemma tick_keeps_counters: "refresh_tick prof p r cln clock s w = (Inr s', w') \<Longrightarrow> ms_counters s' = ms_counters s"
  by (auto simp: refresh_tick_def Let_def split: prod.splits sum.splits error.splits)

lemma counted_forward:
  assumes doc: "prometheus_documented describe p"
    and fwd: "cvec_new p op [''status''] = Inr (forward_events_total ec0)"
    and IH: "counted p r np evs ec0 (ms_counters s)" and h: "on_forward_event p np v s = (res, s')"
  shows "counted p r np (evs @ [Forward v]) ec0 (ms_counters s')"
proof (cases "parse_forward_event np v")
  case (Inl e)
  with h IH show ?thesis
    by (auto simp: counted_def forward_statuses_def state_changes_def map_filter_snoc is_htlc_def is_opened_def on_forward_event_def)
next
  case (Inr n)
  have vec: "vec_documented (cvec_new p) (cvec_inc_by p) (cvec_collect p) inc_act"
    using doc by (simp add: prometheus_documented_def)
  obtain cv where cv: "cvec_inc_by p [fe_status n] 1 (forward_events_total (ms_counters s)) = Inr cv"
    "fold_result (\<lambda>v y. cvec_inc_by p [y] 1 v) (forward_events_total ec0) (forward_statuses np evs @ [fe_status n]) = Inr cv"
    using vec_counts_on [OF vec fwd, of "\<lambda>y. [y]" "forward_statuses np evs" "forward_events_total (ms_counters s)" "fe_status n"]
      IH by (auto simp: counted_def)
  have "s' = s\<lparr>ms_counters := (ms_counters s)\<lparr>forward_events_total := cv\<rparr>\<rparr>"
    using h cv(1) by (simp add: on_forward_event_def Inr counters_on_forward_event_def)
  moreover have "forward_statuses np (evs @ [Forward v]) = forward_statuses np evs @ [fe_status n]"
    by (simp add: forward_statuses_def map_filter_snoc Inr)
  moreover have "state_changes np (evs @ [Forward v]) = state_changes np evs"
    by (simp add: state_changes_def map_filter_snoc)
  ultimately show ?thesis using IH cv(2) by (simp add: counted_def is_htlc_def is_opened_def)
qed

lemma counted_state_changed:
  assumes doc: "prometheus_documented describe p"
    and chg: "cvec_new p op [''old_state'', ''new_state''] = Inr (channel_state_changes_total ec0)"
    and IH: "counted p r np evs ec0 (ms_counters s)" and h: "on_channel_state_changed p np v s = (res, s')"
  shows "counted p r np (evs @ [State_changed v]) ec0 (ms_counters s')"
proof (cases "parse_channel_state_changed np v")
  case (Inl e)
  with h IH show ?thesis
    by (auto simp: counted_def forward_statuses_def state_changes_def map_filter_snoc is_htlc_def is_opened_def on_channel_state_changed_def)
next
  case (Inr n)
  have vec: "vec_documented (cvec_new p) (cvec_inc_by p) (cvec_collect p) inc_act"
    using doc by (simp add: prometheus_documented_def)
  let ?y = "(case cs_old_state n of Some s \<Rightarrow> s | None \<Rightarrow> ''unknown'', cs_new_state n)"
  obtain cv where cv: "cvec_inc_by p [fst ?y, snd ?y] 1 (channel_state_changes_total (ms_counters s)) = Inr cv"
    "fold_result (\<lambda>v y. cvec_inc_by p [fst y, snd y] 1 v) (channel_state_changes_total ec0) (state_changes np evs @ [?y]) = Inr cv"
    using vec_counts_on [OF vec chg, of "\<lambda>y. [fst y, snd y]" "state_changes np evs" "channel_state_changes_total (ms_counters s)" ?y]
      IH by (auto simp: counted_def)
  have "s' = s\<lparr>ms_counters := (ms_counters s)\<lparr>channel_state_changes_total := cv\<rparr>\<rparr>"
    using h cv(1) by (simp add: on_channel_state_changed_def Inr counters_on_channel_state_changed_def Let_def)
  moreover have "state_changes np (evs @ [State_changed v]) = state_changes np evs @ [?y]"
    by (simp add: state_changes_def map_filter_snoc Inr)
  moreover have "forward_statuses np (evs @ [State_changed v]) = forward_statuses np evs"
    by (simp add: forward_statuses_def map_filter_snoc)
  ultimately show ?thesis using IH cv(2) by (simp add: counted_def is_htlc_def is_opened_def)
qed

lemma counted_start: "counted p r np [] ec0 ec0"
  by (simp add: counted_def forward_statuses_def state_changes_def List.map_filter_def)

lemma counted_tick: "counted p r np evs ec0 ec \<Longrightarrow> counted p r np (evs @ [Tick res]) ec0 ec"
  by (simp add: counted_def forward_statuses_def state_changes_def map_filter_snoc is_htlc_def is_opened_def)

lemma counted_step:
  assumes doc: "prometheus_documented describe p"
    and fwd: "cvec_new p op1 [''status''] = Inr (forward_events_total ec0)"
    and chg: "cvec_new p op2 [''old_state'', ''new_state''] = Inr (channel_state_changes_total ec0)"
    and step: "metrics_step prof p r np cln clock ev (s1, alive1, w1) (s, alive, w)"
    and IH: "counted p r np evs ec0 (ms_counters s1)"
  shows "counted p r np (evs @ [ev]) ec0 (ms_counters s)"
  using step
proof (cases rule: metrics_step.cases)
  case (opened v res)
  then show ?thesis using IH
    by (auto simp: counted_def forward_statuses_def state_changes_def map_filter_snoc is_htlc_def is_opened_def
        on_channel_opened_def counters_on_channel_opened_def)
next
  case (forward v res)
  then show ?thesis using counted_forward [OF doc fwd IH] by blast
next
  case (state_changed v res)
  then show ?thesis using counted_state_changed [OF doc chg IH] by blast
next
  case (htlc v res)
  then show ?thesis using IH
    by (auto simp: counted_def forward_statuses_def state_changes_def map_filter_snoc is_htlc_def is_opened_def
        metrics_hook_htlc_accepted_def counters_on_htlc_accepted_def)
next
  case tick
  then have "ms_counters s = ms_counters s1"
    using tick_keeps_counters [of prof p r cln clock s1 w1 s w] by simp
  with tick IH show ?thesis by (simp add: counted_tick)
next
  case elsewhere
  with IH show ?thesis
    by (simp add: counted_def forward_statuses_def state_changes_def map_filter_snoc is_htlc_def is_opened_def)
qed (use IH in \<open>auto simp: counted_tick\<close>)

lemma sum_list_ones: "sum_list (map (\<lambda>y. 1) ys) = of_nat (length ys)"
  by (induction ys) simp_all

lemma vec_counts:
  assumes "vec_documented create update coll inc_act" and "create op names = Inr v0"
    and "\<And>y. length (lab y) = length names" and "inj lab"
    and "fold_result (\<lambda>v y. update (lab y) 1 v) v0 ys = Inr v"
  shows "\<exists>samples. coll v = [\<lparr>mf_opts = op, mf_samples = samples\<rparr>] \<and>
    (\<forall>y. map_of samples (lab y) = (if y \<in> set ys then Some (Counter_value (u64_as_f64 (of_nat (count_list ys y)))) else None))"
proof -
  obtain v' samples where v': "fold_result (\<lambda>v y. update (lab y) 1 v) v0 ys = Inr v'"
    "coll v' = [\<lparr>mf_opts = op, mf_samples = samples\<rparr>]"
    "map_of samples = apply_updates inc_act (map (\<lambda>y. (lab y, 1)) ys)"
    by (rule vec_loop [OF assms(1,2), of ys lab "\<lambda>_. 1"]) (use assms(3) in auto)
  have "filter (\<lambda>x. lab x = lab y) ys = filter (\<lambda>x. x = y) ys" for y
    using assms(4) by (auto simp: inj_eq)
  moreover have "length (filter (\<lambda>x. x = y) ys) = count_list ys y" for y
    by (induction ys) auto
  ultimately have "map_of samples (lab y) = (if y \<in> set ys then Some (Counter_value (u64_as_f64 (of_nat (count_list ys y)))) else None)" for y
    unfolding v'(3) by (auto simp: apply_inc Let_def sum_list_ones filter_empty_conv)
  with v'(1,2) assms(5) show ?thesis by auto
qed

lemma event_counters_new_Inr:
  assumes "event_counters_new p r node_id w = (Inr ec, w')"
  shows "\<exists>op. cvec_new p op [''status''] = Inr (forward_events_total ec)"
    and "\<exists>op. cvec_new p op [''old_state'', ''new_state''] = Inr (channel_state_changes_total ec)"
    and "\<exists>op. counter_with_opts r op = Inr (channel_opened_total ec)"
    and "\<exists>op. counter_with_opts r op = Inr (htlc_accepted_total ec)"
  using assms by (auto simp: event_counters_new_def reg_cvec_def reg_counter_def reg_def io_simps result_simps)

lemma counters_facts:
  assumes doc: "prometheus_documented describe p" and cdoc: "counter_documented r"
    and fwd: "cvec_new p op1 [''status''] = Inr (forward_events_total ec0)"
    and chg: "cvec_new p op2 [''old_state'', ''new_state''] = Inr (channel_state_changes_total ec0)"
    and opened: "counter_with_opts r op3 = Inr (channel_opened_total ec0)"
    and htlcs: "counter_with_opts r op4 = Inr (htlc_accepted_total ec0)"
    and run: "counted p r np evs ec0 (ms_counters s)"
  shows "(\<exists>op. counter_collect r (htlc_accepted_total (ms_counters s)) =
      [\<lparr>mf_opts = op, mf_samples = [([], Counter_value (u64_as_f64 (of_nat (length (filter is_htlc evs)))))]\<rparr>]) \<and>
    (\<exists>op. counter_collect r (channel_opened_total (ms_counters s)) =
      [\<lparr>mf_opts = op, mf_samples = [([], Counter_value (u64_as_f64 (of_nat (length (filter is_opened evs)))))]\<rparr>]) \<and>
    (\<exists>op samples. cvec_collect p (forward_events_total (ms_counters s)) = [\<lparr>mf_opts = op, mf_samples = samples\<rparr>] \<and>
      (\<forall>st. map_of samples [st] = (if st \<in> set (forward_statuses np evs)
         then Some (Counter_value (u64_as_f64 (of_nat (count_list (forward_statuses np evs) st)))) else None))) \<and>
    (\<exists>op samples. cvec_collect p (channel_state_changes_total (ms_counters s)) = [\<lparr>mf_opts = op, mf_samples = samples\<rparr>] \<and>
      (\<forall>ab. map_of samples [fst ab, snd ab] = (if ab \<in> set (state_changes np evs)
         then Some (Counter_value (u64_as_f64 (of_nat (count_list (state_changes np evs) ab)))) else None)))"
proof -
  have vec: "vec_documented (cvec_new p) (cvec_inc_by p) (cvec_collect p) inc_act"
    using doc by (simp add: prometheus_documented_def)
  note counts = run [unfolded counted_def]
  have "\<exists>samples. cvec_collect p (forward_events_total (ms_counters s)) = [\<lparr>mf_opts = op1, mf_samples = samples\<rparr>] \<and>
      (\<forall>st. map_of samples [st] = (if st \<in> set (forward_statuses np evs)
         then Some (Counter_value (u64_as_f64 (of_nat (count_list (forward_statuses np evs) st)))) else None))"
    using vec_counts [OF vec fwd, of "\<lambda>st. [st]"] counts by (simp add: inj_def)
  moreover have "\<exists>samples. cvec_collect p (channel_state_changes_total (ms_counters s)) = [\<lparr>mf_opts = op2, mf_samples = samples\<rparr>] \<and>
      (\<forall>ab. map_of samples [fst ab, snd ab] = (if ab \<in> set (state_changes np evs)
         then Some (Counter_value (u64_as_f64 (of_nat (count_list (state_changes np evs) ab)))) else None))"
    using vec_counts [OF vec chg, of "\<lambda>ab. [fst ab, snd ab]"] counts by (simp add: inj_def prod_eq_iff)
  moreover have "counter_collect r (htlc_accepted_total (ms_counters s)) =
      [\<lparr>mf_opts = op4, mf_samples = [([], Counter_value (u64_as_f64 (of_nat (length (filter is_htlc evs)))))]\<rparr>]"
    using cdoc htlcs counts by (simp add: counter_documented_def)
  moreover have "counter_collect r (channel_opened_total (ms_counters s)) =
      [\<lparr>mf_opts = op3, mf_samples = [([], Counter_value (u64_as_f64 (of_nat (length (filter is_opened evs)))))]\<rparr>]"
    using cdoc opened counts by (simp add: counter_documented_def)
  ultimately show ?thesis by blast
qed

lemma plain_counter_documented: "counter_documented plain_registry"
proof -
  have "(counter_inc plain_registry ^^ n) (op, 0) = (op, of_nat n)" for op n
    by (induction n) (simp_all add: plain_registry_def)
  then show ?thesis by (auto simp: counter_documented_def plain_registry_def)
qed

text \<open>
  The node is never held up by the HTLC hook: whatever payloads it sends, in whatever
  number and in whatever state the plugin is, each is answered \<open>continue\<close>.
\<close>

theorem metrics_hook_never_blocks:
  "fst (fold (\<lambda>v (answers, s). let (a, s') = metrics_hook_htlc_accepted r v s in (answers @ [a], s')) payloads ([], s0))
     = replicate (length payloads) (Inr json_continue)"
  using metrics_htlc.every_call_continues [of r payloads "[]" s0] by simp

end
