(* ===== verification/Registration.thy ===== *)
theory Registration
  imports MetricsRun
begin

text \<open>
  The start-up of the metrics plugin succeeds: every metric it creates has a valid and fresh
  name and valid labels, so that neither a constructor nor the registry refuses one. What
  the \<open>prometheus\<close> crate documents of its checks is the predicate \<open>registry_documented\<close>.
\<close>

section \<open>What the library accepts\<close>

definition name_letters :: string where
  "name_letters = ''_abcdefghijklmnopqrstuvwxyzABCDEFGHIJKLMNOPQRSTUVWXYZ''"

definition name_digits :: string where
  "name_digits = ''0123456789''"

text \<open>\<open>[a-zA-Z_:][a-zA-Z0-9_:]*\<close> for a metric, the same without the colon for a label.\<close>

fun valid_name :: "string \<Rightarrow> string \<Rightarrow> bool" where
  "valid_name extra [] \<longleftrightarrow> False"
| "valid_name extra (c # cs) \<longleftrightarrow>
    c \<in> set (name_letters @ extra) \<and> (\<forall>d\<in>set cs. d \<in> set (name_letters @ name_digits @ extra))"

definition opts_ok :: "opts \<Rightarrow> string list \<Rightarrow> bool" where
  "opts_ok op labels \<longleftrightarrow>
    valid_name '':'' (op_name op) \<and> op_help op \<noteq> [] \<and>
    distinct (map fst (op_const_labels op) @ labels) \<and>
    (\<forall>l\<in>set (map fst (op_const_labels op) @ labels). valid_name [] l)"

text \<open>
  A constructor accepts options with valid names and a help text; a collector is registered
  when its names are pairwise distinct and none of them is registered.
\<close>

definition registry_documented ::
  "(opts \<Rightarrow> string list \<Rightarrow> 'desc) \<Rightarrow> ('w \<Rightarrow> string set) \<Rightarrow> ('desc, 'g, 'gv, 'cv) prometheus
    \<Rightarrow> ('desc, 'c, 'w) registry \<Rightarrow> bool" where
  "registry_documented describe registered p r \<longleftrightarrow>
    (\<forall>op. opts_ok op [] \<longrightarrow> (\<exists>g. gauge_with_opts p op = Inr g)) \<and>
    (\<forall>op. opts_ok op [] \<longrightarrow> (\<exists>c. counter_with_opts r op = Inr c \<and> counter_desc r c = [describe op []])) \<and>
    (\<forall>op labels. opts_ok op labels \<longrightarrow> (\<exists>v. gvec_new p op labels = Inr v)) \<and>
    (\<forall>op labels. opts_ok op labels \<longrightarrow> (\<exists>v. cvec_new p op labels = Inr v)) \<and>
    (\<forall>os ls w. length os = length ls \<longrightarrow> distinct (map op_name os) \<longrightarrow>
      op_name ` set os \<inter> registered w = {} \<longrightarrow>
      (\<exists>w'. register_descs r (map2 describe os ls) w = (Inr (), w') \<and>
         registered w' = registered w \<union> op_name ` set os))"

lemma register_one:
  assumes "registry_documented describe registered p r" and "op_name op \<notin> registered w"
  obtains w' where "register_descs r [describe op ls] w = (Inr (), w')"
    and "registered w' = insert (op_name op) (registered w)"
proof -
  have "\<exists>w'. register_descs r (map2 describe [op] [ls]) w = (Inr (), w') \<and>
      registered w' = registered w \<union> op_name ` set [op]"
    using assms unfolding registry_documented_def by (elim conjE allE [of _ "[op]"] allE [of _ "[ls]"]) simp
  then show ?thesis using that by auto
qed

text \<open>The three ways in which a metric is created and registered.\<close>

lemma reg_gauge_run:
  assumes "prometheus_documented describe p" and "registry_documented describe registered p r"
    and "opts_ok op []" and "op_name op \<notin> registered w"
  obtains g w' where "reg_gauge p r op w = (Inr g, w')" and "registered w' = insert (op_name op) (registered w)"
proof -
  from assms(2,3) obtain g where g: "gauge_with_opts p op = Inr g"
    unfolding registry_documented_def by blast
  then have "gauge_desc p g = [describe op []]"
    using assms(1) unfolding prometheus_documented_def by blast
  moreover obtain w' where "register_descs r [describe op []] w = (Inr (), w')"
    "registered w' = insert (op_name op) (registered w)"
    using register_one [OF assms(2,4)] by blast
  ultimately show ?thesis
    using g that [of g w'] by (simp add: reg_gauge_def reg_def io_simps io_lib_def io_bind_def)
qed

lemma reg_counter_run:
  assumes "registry_documented describe registered p r" and "opts_ok op []" and "op_name op \<notin> registered w"
  obtains c w' where "reg_counter r op w = (Inr c, w')" and "registered w' = insert (op_name op) (registered w)"
proof -
  from assms(1,2) obtain c where c: "counter_with_opts r op = Inr c" "counter_desc r c = [describe op []]"
    unfolding registry_documented_def by blast
  moreover obtain w' where "register_descs r [describe op []] w = (Inr (), w')"
    "registered w' = insert (op_name op) (registered w)"
    using register_one [OF assms(1,3)] by blast
  ultimately show ?thesis
    using that [of c w'] by (simp add: reg_counter_def reg_def io_simps io_lib_def io_bind_def)
qed

lemma reg_cvec_run:
  assumes "prometheus_documented describe p" and "registry_documented describe registered p r"
    and "opts_ok op labels" and "op_name op \<notin> registered w"
  obtains v w' where "reg_cvec p r op labels w = (Inr v, w')" and "registered w' = insert (op_name op) (registered w)"
proof -
  from assms(2,3) obtain v where v: "cvec_new p op labels = Inr v"
    unfolding registry_documented_def by blast
  then have "cvec_desc p v = [describe op labels]"
    using assms(1) unfolding prometheus_documented_def by blast
  moreover obtain w' where "register_descs r [describe op labels] w = (Inr (), w')"
    "registered w' = insert (op_name op) (registered w)"
    using register_one [OF assms(2,4)] by blast
  ultimately show ?thesis
    using v that [of v w'] by (simp add: reg_cvec_def reg_def io_simps io_lib_def io_bind_def)
qed

section \<open>The metrics of the plugin\<close>

definition own_names :: "string list" where
  "own_names =
    [''lightning_forward_events_total'', ''lightning_channel_opened_total'', ''lightning_htlc_accepted_total'',
     ''lightning_channel_state_changes_total'', ''lightning_metrics_last_refresh_timestamp_seconds'',
     ''lightning_metrics_refresh_failures_total'', ''lightning_build_info'']"

lemma valid_names: "\<forall>nm\<in>set (own_names @ metric_names). valid_name '':'' nm"
  unfolding metric_names_eq by code_simp

definition own_labels :: "string list" where
  "own_labels = [''node_id'', ''version'', ''status'', ''old_state'', ''new_state'', ''peer_id'', ''scid'']"

lemma valid_labels: "\<forall>l\<in>set own_labels. valid_name [] l"
  by code_simp

lemma names_distinct: "distinct (own_names @ metric_names)"
  unfolding metric_names_eq by code_simp

lemma opts_for_ok:
  assumes "nm \<in> set own_names \<union> set metric_names" and "help \<noteq> []"
    and "distinct (''node_id'' # labels)" and "set (''node_id'' # labels) \<subseteq> set own_labels"
  shows "opts_ok (opts_for node_id nm help) labels"
proof -
  have "valid_name '':'' nm" using valid_names assms(1) by (metis set_append)
  moreover have "\<forall>l\<in>set (''node_id'' # labels). valid_name [] l" using valid_labels assms(4) by blast
  ultimately show ?thesis
    using assms(2,3) by (simp only: opts_ok_def opts_for_def opts.select_convs list.map fst_conv append_Cons append_Nil)
      simp
qed

lemma op_name_opts_for [simp]: "op_name (opts_for node_id nm help) = nm"
  by (simp add: opts_for_def)

lemma event_counters_new_run:
  assumes "prometheus_documented describe p" and "registry_documented describe registered p r" and "registered w = {}"
  obtains ec w' where "event_counters_new p r node_id w = (Inr ec, w')" and "registered w' = set (take 4 own_names)"
proof -
  note laws = assms(1,2)
  let ?op = "opts_for node_id"
  let ?forwards = "?op ''lightning_forward_events_total'' ''Payment forwarding events observed by this node.''"
  let ?opened = "?op ''lightning_channel_opened_total'' ''Total number of channels opened since plugin start.''"
  let ?htlcs = "?op ''lightning_htlc_accepted_total'' ''Total number of HTLCs accepted since plugin start.''"
  let ?changes = "?op ''lightning_channel_state_changes_total'' ''Channel state change events.''"
  have ok: "opts_ok ?forwards [''status'']" "opts_ok ?opened []" "opts_ok ?htlcs []"
    "opts_ok ?changes [''old_state'', ''new_state'']"
    by (rule opts_for_ok; simp add: own_names_def own_labels_def)+
  obtain v1 w1 where 1: "reg_cvec p r ?forwards [''status''] w = (Inr v1, w1)"
    "registered w1 = insert (op_name ?forwards) (registered w)"
    by (rule reg_cvec_run [OF laws ok(1), of w]) (simp_all add: assms(3))
  obtain v2 w2 where 2: "reg_counter r ?opened w1 = (Inr v2, w2)"
    "registered w2 = insert (op_name ?opened) (registered w1)"
    by (rule reg_counter_run [OF laws(2) ok(2), of w1]) (simp_all add: 1(2) assms(3))
  obtain v3 w3 where 3: "reg_counter r ?htlcs w2 = (Inr v3, w3)"
    "registered w3 = insert (op_name ?htlcs) (registered w2)"
    by (rule reg_counter_run [OF laws(2) ok(3), of w2]) (simp_all add: 1(2) 2(2) assms(3))
  obtain v4 w4 where 4: "reg_cvec p r ?changes [''old_state'', ''new_state''] w3 = (Inr v4, w4)"
    "registered w4 = insert (op_name ?changes) (registered w3)"
    by (rule reg_cvec_run [OF laws ok(4), of w3]) (simp_all add: 1(2) 2(2) 3(2) assms(3))
  show ?thesis
    by (rule that [of "\<lparr>forward_events_total = v1, channel_opened_total = v2, htlc_accepted_total = v3,
        channel_state_changes_total = v4\<rparr>" w4])
       (auto simp: event_counters_new_def io_bind_def io_return_def 1 2 3 4 assms(3) own_names_def)
qed

lemma refresh_health_new_run:
  assumes "prometheus_documented describe p" and "registry_documented describe registered p r"
    and "registered w = set (take 4 own_names)"
  obtains h w' where "refresh_health_new p r node_id w = (Inr h, w')" and "registered w' = set (take 6 own_names)"
proof -
  note laws = assms(1,2)
  let ?last = "opts_for node_id ''lightning_metrics_last_refresh_timestamp_seconds''
    ''Unix timestamp of the most recent successful CLN data refresh.''"
  let ?failed = "opts_for node_id ''lightning_metrics_refresh_failures_total''
    ''Total number of refresh attempts that failed since plugin start.''"
  have ok: "opts_ok ?last []" "opts_ok ?failed []" by (rule opts_for_ok; simp add: own_names_def own_labels_def)+
  obtain v1 w1 where 1: "reg_gauge p r ?last w = (Inr v1, w1)" "registered w1 = insert (op_name ?last) (registered w)"
    by (rule reg_gauge_run [OF laws ok(1), of w]) (simp_all add: assms(3) own_names_def)
  obtain v2 w2 where 2: "reg_counter r ?failed w1 = (Inr v2, w2)" "registered w2 = insert (op_name ?failed) (registered w1)"
    by (rule reg_counter_run [OF laws(2) ok(2), of w1]) (simp_all add: 1(2) assms(3) own_names_def)
  show ?thesis
    by (rule that [of "\<lparr>last_refresh_timestamp_seconds = v1, refresh_failures_total = v2\<rparr>" w2])
       (auto simp: refresh_health_new_def io_bind_def io_return_def 1 2 assms(3) own_names_def)
qed

lemma register_build_info_run:
  assumes doc: "prometheus_documented describe p" and reg: "registry_documented describe registered p r"
    and "registered w = set (take 6 own_names)"
  obtains v w' where "register_build_info p r node_id version w = (Inr v, w')" and "registered w' = set own_names"
proof -
  let ?info = "opts_for node_id ''lightning_build_info'' ''Plugin version info.''"
  have ok: "opts_ok ?info [''version'']" by (rule opts_for_ok; simp add: own_names_def own_labels_def)
  then obtain v where v: "gvec_new p ?info [''version''] = Inr v"
    using reg unfolding registry_documented_def by blast
  then have desc: "gvec_desc p v = [describe ?info [''version'']]"
    using doc unfolding prometheus_documented_def by blast
  obtain w' where w': "register_descs r [describe ?info [''version'']] w = (Inr (), w')"
    "registered w' = insert (op_name ?info) (registered w)"
    by (rule register_one [OF reg, of ?info w]) (simp_all add: assms(3) own_names_def)
  have vec: "vec_documented (gvec_new p) (gvec_set p) (gvec_collect p) set_act"
    using doc unfolding prometheus_documented_def by blast
  obtain vs where "fold_result (\<lambda>v x. gvec_set p [version] 1 v) v [()] = Inr vs"
    by (rule vec_loop [OF vec v, where xs = "[()]" and lab = "\<lambda>_. [version]" and f = "\<lambda>_. 1"]) simp
  then obtain v' where "gvec_set p [version] 1 v = Inr v'"
    by (cases rule: sum.exhaust [of "gvec_set p [version] 1 v"]) simp_all
  then show ?thesis
    by (intro that [of v' w'])
       (auto simp: register_build_info_def io_bind_def io_lift_eq io_lib_def v desc w' assms(3) own_names_def)
qed

section \<open>The collector\<close>

lemma extend_descs_run:
  assumes "\<forall>op\<in>set os. \<exists>m. create op = Inr m" and "\<And>op m. create op = Inr m \<Longrightarrow> desc m = [describe op]"
  shows "extend_descs create desc os ds = Inr (ds @ map describe os)"
  using assms(1)
proof (induction os arbitrary: ds)
  case (Cons op os)
  from Cons.prems obtain m where "create op = Inr m" by auto
  with Cons.IH [of "ds @ [describe op]"] Cons.prems assms(2) show ?case
    by (simp add: extend_descs_def)
qed (simp add: extend_descs_def)

lemma helps_nonempty: "list_all (\<lambda>op. op_help op \<noteq> [] \<and> op_const_labels op = [(''node_id'', node_id)])
    (all_opts (derived_opts node_id))"
  by (simp add: all_opts_def scalar_opts_def channel_gauge_opts_def channel_counter_opts_def peer_gauge_opts_def
    derived_opts_def opts_for_def)

lemma derived_opts_ok:
  assumes "op \<in> set (all_opts (derived_opts node_id))" and "labels \<in> {[], CHANNEL_LABELS, PEER_LABELS}"
  shows "opts_ok op labels"
proof -
  have "op_name op \<in> set metric_names"
    using assms(1) metric_names_of [of node_id] by (metis image_eqI set_map)
  moreover have "distinct (''node_id'' # labels)" "set (''node_id'' # labels) \<subseteq> set own_labels"
    using assms(2) by (auto simp: CHANNEL_LABELS_def PEER_LABELS_def own_labels_def)
  moreover have "op = opts_for node_id (op_name op) (op_help op)" "op_help op \<noteq> []"
    using helps_nonempty [of node_id] assms(1) by (simp_all add: opts_for_def list_all_iff)
  ultimately show ?thesis using opts_for_ok [of "op_name op" "op_help op" labels node_id] by simp
qed

lemma derived_collector_new_run:
  assumes doc: "prometheus_documented describe p" and reg: "registry_documented describe registered p r"
  obtains dc where "derived_collector_new p node_id = Inr dc"
proof -
  let ?os = "derived_opts node_id"
  have groups: "set (scalar_opts ?os) \<subseteq> set (all_opts ?os)" "set (channel_gauge_opts ?os) \<subseteq> set (all_opts ?os)"
    "set (channel_counter_opts ?os) \<subseteq> set (all_opts ?os)" "set (peer_gauge_opts ?os) \<subseteq> set (all_opts ?os)"
    by (auto simp: all_opts_def)
  have ok: "opts_ok op labels" if "op \<in> set (all_opts ?os)" "labels \<in> {[], CHANNEL_LABELS, PEER_LABELS}" for op labels
    using derived_opts_ok that .
  note doc = doc [unfolded prometheus_documented_def] and reg = reg [unfolded registry_documented_def]
  have "extend_descs (gauge_with_opts p) (gauge_desc p) (scalar_opts ?os) ds =
      Inr (ds @ map (\<lambda>op. describe op []) (scalar_opts ?os))" for ds
    using groups(1) ok reg doc by (intro extend_descs_run) auto
  moreover have "extend_descs (\<lambda>op. gvec_new p op CHANNEL_LABELS) (gvec_desc p) (channel_gauge_opts ?os) ds =
      Inr (ds @ map (\<lambda>op. describe op CHANNEL_LABELS) (channel_gauge_opts ?os))" for ds
    using groups(2) ok reg doc by (intro extend_descs_run) auto
  moreover have "extend_descs (\<lambda>op. cvec_new p op CHANNEL_LABELS) (cvec_desc p) (channel_counter_opts ?os) ds =
      Inr (ds @ map (\<lambda>op. describe op CHANNEL_LABELS) (channel_counter_opts ?os))" for ds
    using groups(3) ok reg doc by (intro extend_descs_run) auto
  moreover have "extend_descs (\<lambda>op. gvec_new p op PEER_LABELS) (gvec_desc p) (peer_gauge_opts ?os) ds =
      Inr (ds @ map (\<lambda>op. describe op PEER_LABELS) (peer_gauge_opts ?os))" for ds
    using groups(4) ok reg doc by (intro extend_descs_run) auto
  ultimately show ?thesis using that by (simp add: derived_collector_new_def Let_def)
qed

lemma register_metrics_run:
  assumes doc: "prometheus_documented describe p" and reg: "registry_documented describe registered p r"
    and fresh: "registered w = {}"
  obtains s dc w' where "register_metrics p r version node_id w = (Inr (s, dc), w')"
    and "registered w' = set (own_names @ metric_names)"
proof -
  obtain ec w1 where 1: "event_counters_new p r node_id w = (Inr ec, w1)" "registered w1 = set (take 4 own_names)"
    using event_counters_new_run [OF assms] .
  obtain h w2 where 2: "refresh_health_new p r node_id w1 = (Inr h, w2)" "registered w2 = set (take 6 own_names)"
    using refresh_health_new_run [OF doc reg 1(2)] .
  obtain v w3 where 3: "register_build_info p r node_id version w2 = (Inr v, w3)" "registered w3 = set own_names"
    using register_build_info_run [OF doc reg 2(2)] .
  obtain dc where dc: "derived_collector_new p node_id = Inr dc"
    using derived_collector_new_run [OF doc reg] .
  let ?os = "all_opts (derived_opts node_id)" and ?ls = "all_labels (derived_opts node_id)"
  have descs: "dc_descs dc = map2 describe ?os ?ls"
    using collector_new_Inr [OF doc dc] by simp
  have names: "map op_name ?os = metric_names" by (rule metric_names_of)
  then have image: "op_name ` set ?os = set metric_names" by (metis set_map)
  have "length ?os = length ?ls" by (simp add: all_opts_def all_labels_def)
  moreover have "distinct (map op_name ?os)" by (simp add: names metric_names_distinct)
  moreover have "op_name ` set ?os \<inter> registered w3 = {}"
    using names_distinct by (auto simp: image 3(2))
  ultimately obtain w4 where 4: "register_descs r (map2 describe ?os ?ls) w3 = (Inr (), w4)"
    "registered w4 = registered w3 \<union> op_name ` set ?os"
    using reg unfolding registry_documented_def by blast
  show ?thesis
    by (rule that [where w' = w4])
       (auto simp: register_metrics_def io_bind_def io_lift_eq io_return_eq io_lib_def Let_def 1(1) 2(1) 3 dc descs 4 image)
qed

section \<open>Start-up succeeds\<close>

lemma register_metrics_collector:
  "register_metrics p r version node_id w = (Inr (s, dc), w') \<Longrightarrow> derived_collector_new p node_id = Inr dc"
  by (auto simp: register_metrics_def io_simps Let_def)

lemma choose_auth_runs:
  assumes "case token_env of Some raw \<Rightarrow> 16 \<le> length (trim raw) | None \<Rightarrow> disable"
  obtains auth where "choose_auth token_env disable = Inr auth"
proof (cases token_env)
  case (Some raw)
  then have "validate_token raw = Inr (trim raw)"
    using assms by (auto simp: validate_token_def Let_def MIN_TOKEN_LEN_def)
  with Some show ?thesis using that by (auto simp: choose_auth_def)
next
  case None
  with assms show ?thesis using that by (auto simp: choose_auth_def)
qed

text \<open>
  C18. The start-up does not fail by itself: with an address that parses and can be bound, a
  token of sixteen bytes (or the flag), a node that answers and a registry that has
  nothing registered yet, \<open>main\<close> runs to the end. The names of the thirty-two metrics are
  valid and pairwise different, all of them are registered, and a scrape of the plugin that has
  just started succeeds.
\<close>

theorem metrics_main_starts:
  assumes doc: "prometheus_documented describe p" and reg: "registry_documented describe registered p r"
    and "me_configure env metrics_plugin w = (Inr (Some config), w1)"
    and "opt_metrics_addr config = Inr (Some addr_str)" and "me_parse_addr env addr_str = Inr addr"
    and "opt_metrics_disable_auth config = Inr disable"
    and auth: "case me_env_var env ''METRICS_TOKEN'' of Inr raw \<Rightarrow> 16 \<le> length (trim raw) | Inl e \<Rightarrow> disable"
    and "cln_connect cln w1 = (Inr (), w2)" and "cln_getinfo cln w2 = (Inr info, w3)"
    and fresh: "registered w3 = {}"
    and bind: "\<And>v. \<exists>lst v'. me_bind env addr v = (Inr lst, v') \<and> registered v' = registered v"
    and start: "\<And>v. \<exists>v'. me_start env v = (Inr (), v') \<and> registered v' = registered v"
  shows "\<exists>rn w'. metrics_main p r cln env w = (Inr (Some rn), w') \<and>
    card (registered w') = 32 \<and>
    (\<exists>fams. collect Release p (rn_collector rn) (ms_cache (rn_state rn)) = Inr fams)"
proof -
  have "case ok_value (me_env_var env METRICS_TOKEN_ENV) of Some raw \<Rightarrow> 16 \<le> length (trim raw) | None \<Rightarrow> disable"
    using auth by (simp add: ok_value_def METRICS_TOKEN_ENV_def split: sum.splits)
  then obtain auth_token where
    auth_token: "choose_auth (ok_value (me_env_var env METRICS_TOKEN_ENV)) disable = Inr auth_token"
    by (rule choose_auth_runs)
  obtain s dc w4 where made: "register_metrics p r (me_version env) (gi_id info) w3 = (Inr (s, dc), w4)"
    "registered w4 = set (own_names @ metric_names)"
    using register_metrics_run [OF doc reg fresh] .
  obtain lst w5 where w5: "me_bind env addr w4 = (Inr lst, w5)" "registered w5 = registered w4" using bind by blast
  obtain w6 where w6: "me_start env w5 = (Inr (), w6)" "registered w6 = registered w5" using start by blast
  let ?rn = "\<lparr>rn_state = s, rn_collector = dc, rn_listener = lst, rn_auth_token = auth_token,
    rn_refresh_secs = refresh_secs_of (opt_metrics_refresh config)\<rparr>"
  have main: "metrics_main p r cln env w = (Inr (Some ?rn), w6)"
  proof -
    note calls = io_next(1) [of "me_configure env metrics_plugin", OF assms(3)] io_next(1) [of "cln_connect cln", OF assms(8)]
      io_next(1) [of "cln_getinfo cln", OF assms(9)] io_next(1) [of "me_bind env addr", OF w5(1)]
      io_next(1) [of "me_start env", OF w6(1)]
      io_bind_run(1) [of "register_metrics p r (me_version env) (gi_id info)", OF made(1)]
    show ?thesis
      by (simp only: metrics_main_def calls io_next(2) option.case prod.case Let_def assms(4-6) from_lib.simps
        ok_or.simps auth_token io_return_eq)
  qed
  have "card (registered w6) = length (own_names @ metric_names)"
    unfolding w6(2) w5(2) made(2) by (rule distinct_card [OF names_distinct])
  then have card: "card (registered w6) = 32" by (simp add: own_names_def metric_names_length)
  have cache: "ms_cache s = \<lparr>lk_poisoned = False, lk_content = default_cache\<rparr>"
    by (rule register_metrics_cache [OF made(1)])
  have "\<exists>fams. collect Release p dc (ms_cache s) = Inr fams"
    by (rule collect_run [OF doc register_metrics_collector [OF made(1)], of "ms_cache s" Release])
       (auto simp: cache)
  with main card show ?thesis by (intro exI [of _ ?rn] exI [of _ w6]) simp
qed

text \<open>A registry that keeps the registered names, and a node beside it.\<close>

definition names_of :: "(opts \<times> string list) list \<Rightarrow> string list" where
  "names_of ds = map (\<lambda>d. op_name (fst d)) ds"

definition naming_registry :: "(opts \<times> string list, opts \<times> u64, nat \<times> string list) registry" where
  "naming_registry =
    \<lparr>counter_with_opts = (\<lambda>op. Inr (op, 0)), counter_desc = (\<lambda>c. [(fst c, [])]),
     counter_inc = (\<lambda>c. (fst c, snd c + 1)),
     counter_collect = (\<lambda>c. [\<lparr>mf_opts = fst c, mf_samples = [([], Counter_value (u64_as_f64 (snd c)))]\<rparr>]),
     register_descs = (\<lambda>ds (n, names).
       if distinct (names_of ds) \<and> set (names_of ds) \<inter> set names = {} then (Inr (), n, names @ names_of ds)
       else (Inl ''AlreadyReg'', n, names))\<rparr>"

definition beside :: "('a \<Rightarrow> 'r \<times> 'a) \<Rightarrow> 'a \<times> 'b \<Rightarrow> 'r \<times> 'a \<times> 'b" where
  "beside f = (\<lambda>(a, b). case f a of (r, a') \<Rightarrow> (r, a', b))"

definition naming_cln :: "(nat \<times> string list) cln_env" where
  "naming_cln =
    \<lparr>cln_connect = beside (cln_connect sample_cln), cln_getinfo = beside (cln_getinfo sample_cln),
     cln_listpeerchannels = beside (cln_listpeerchannels sample_cln),
     cln_listfunds = beside (cln_listfunds sample_cln), map_order = map_order sample_cln\<rparr>"

definition naming_env :: "(nat, nat, nat \<times> string list) metrics_env" where
  "naming_env =
    \<lparr>me_configure = (\<lambda>decl. beside (me_configure sample_metrics_env decl)), me_parse_addr = me_parse_addr sample_metrics_env,
     me_env_var = (\<lambda>name. Inl NotPresent), me_version = ''0.1.0'', me_bind = (\<lambda>a. beside (me_bind sample_metrics_env a)),
     me_start = beside (me_start sample_metrics_env)\<rparr>"

lemma names_of_descs:
  "length os = length ls \<Longrightarrow> names_of (map2 (\<lambda>op names. (op, f names)) os ls) = map op_name os"
  by (induction rule: list_induct2) (auto simp: names_of_def)

lemma naming_registry_documented:
  "registry_documented (\<lambda>op names. (op, replicate (length names) [])) (\<lambda>w. set (snd w)) plain_prometheus naming_registry"
proof -
  let ?describe = "\<lambda>op names. (op, replicate (length names) [])"
  have "\<exists>w'. register_descs naming_registry (map2 ?describe os ls) w = (Inr (), w') \<and>
         set (snd w') = set (snd w) \<union> op_name ` set os"
    if "length os = length ls" "distinct (map op_name os)" "op_name ` set os \<inter> set (snd w) = {}" for os ls w
    using that names_of_descs [OF that(1), of "\<lambda>names. replicate (length names) []"]
    by (cases w) (simp add: naming_registry_def)
  moreover have "\<exists>g. gauge_with_opts plain_prometheus op = Inr g" "\<exists>v. gvec_new plain_prometheus op labels = Inr v"
    "\<exists>v. cvec_new plain_prometheus op labels = Inr v" for op labels
    by (simp_all add: plain_prometheus_def plain_vec_new_def)
  moreover have "\<exists>c. counter_with_opts naming_registry op = Inr c \<and> counter_desc naming_registry c = [?describe op []]" for op
    by (simp add: naming_registry_def)
  ultimately show ?thesis
    unfolding registry_documented_def by (intro conjI allI impI) assumption+
qed

theorem metrics_main_starts_witness:
  "\<exists>rn w'. metrics_main plain_prometheus naming_registry naming_cln naming_env (0, []) = (Inr (Some rn), w') \<and>
     card (set (snd w')) = 32"
proof -
  have "\<exists>rn w'. metrics_main plain_prometheus naming_registry naming_cln naming_env (0, []) = (Inr (Some rn), w') \<and>
      card (set (snd w')) = 32 \<and>
      (\<exists>fams. collect Release plain_prometheus (rn_collector rn) (ms_cache (rn_state rn)) = Inr fams)"
    by (rule metrics_main_starts [OF plain_prometheus_documented naming_registry_documented, where addr_str = "''127.0.0.1:9750''"
          and addr = 9750 and disable = True and ?w1.0 = "(0, [])" and ?w2.0 = "(1, [])" and ?w3.0 = "(2, [])"])
       (auto simp: naming_env_def naming_cln_def beside_def sample_metrics_env_def sample_cln_def)
  then show ?thesis by blast
qed

end
