(* ===== verification/Observer.thy ===== *)
theory Observer
  imports MetricsRun
begin

text \<open>
  What the metrics plugin promises, without its caches, handles and library: an observer that
  sees the events of the node and remembers the last answer and how often each thing happened.
  The plugin refines it: after any run, what can be read from the plugin (the cache, the
  status method, the collected counters) is what the observer remembers.
\<close>

section \<open>The observer\<close>

record observation =
  ob_snapshot :: cached_data
  ob_failed_polls :: nat
  ob_htlcs :: nat
  ob_opened :: nat
  ob_forwards :: "string \<Rightarrow> nat"
  ob_changes :: "string \<times> string \<Rightarrow> nat"
  ob_polling :: bool

definition nothing_observed :: observation where
  "nothing_observed =
    \<lparr>ob_snapshot = default_cache, ob_failed_polls = 0, ob_htlcs = 0, ob_opened = 0,
     ob_forwards = (\<lambda>_. 0), ob_changes = (\<lambda>_. 0), ob_polling = True\<rparr>"

definition one_more :: "'k \<Rightarrow> ('k \<Rightarrow> nat) \<Rightarrow> 'k \<Rightarrow> nat" where
  "one_more k f = f(k := Suc (f k))"

fun observe :: "notification_parsers \<Rightarrow> metrics_event \<Rightarrow> observation \<Rightarrow> observation" where
  "observe np (Opened v) ob = ob\<lparr>ob_opened := Suc (ob_opened ob)\<rparr>"
| "observe np (Htlc v) ob = ob\<lparr>ob_htlcs := Suc (ob_htlcs ob)\<rparr>"
| "observe np (Forward v) ob =
    (case parse_forward_event np v of
       Inl e \<Rightarrow> ob
     | Inr n \<Rightarrow> ob\<lparr>ob_forwards := one_more (fe_status n) (ob_forwards ob)\<rparr>)"
| "observe np (State_changed v) ob =
    (case parse_channel_state_changed np v of
       Inl e \<Rightarrow> ob
     | Inr n \<Rightarrow> ob\<lparr>ob_changes := one_more (case cs_old_state n of Some s \<Rightarrow> s | None \<Rightarrow> ''unknown'', cs_new_state n)
         (ob_changes ob)\<rparr>)"
| "observe np (Tick (Inr data)) ob = ob\<lparr>ob_snapshot := data\<rparr>"
| "observe np (Tick (Inl (Anyhow chain))) ob = ob\<lparr>ob_failed_polls := Suc (ob_failed_polls ob)\<rparr>"
| "observe np (Tick (Inl (Panic msg))) ob = ob\<lparr>ob_polling := False\<rparr>"
| "observe np Elsewhere ob = ob"

lemma count_list_snoc: "count_list (xs @ [k]) = one_more k (count_list xs)"
  by (auto simp: one_more_def fun_eq_iff)

text \<open>What the observer has seen, as a function of the trace.\<close>

lemma observed:
  "fold (observe np) evs nothing_observed =
    \<lparr>ob_snapshot = last_fetch evs, ob_failed_polls = length (filter failed_tick evs),
     ob_htlcs = length (filter is_htlc evs), ob_opened = length (filter is_opened evs),
     ob_forwards = count_list (forward_statuses np evs), ob_changes = count_list (state_changes np evs),
     ob_polling = (filter panicked_tick evs = [])\<rparr>"
proof (induction evs rule: rev_induct)
  case Nil
  then show ?case
    by (simp add: nothing_observed_def last_fetch_def forward_statuses_def state_changes_def List.map_filter_def fun_eq_iff)
next
  case (snoc ev evs)
  note simps = last_fetch_snoc failed_tick_def panicked_tick_def is_htlc_def is_opened_def
    forward_statuses_def state_changes_def map_filter_snoc
  show ?case
  proof (cases ev)
    case (Tick res)
    show ?thesis
    proof (cases res)
      case (Inl e)
      with Tick snoc show ?thesis by (cases e) (simp_all add: simps)
    qed (use Tick snoc in \<open>simp add: simps\<close>)
  next
    case (Forward v)
    with snoc show ?thesis
      by (simp add: simps count_list_snoc del: count_list_append split: sum.split)
  next
    case (State_changed v)
    with snoc show ?thesis
      by (simp add: simps count_list_snoc del: count_list_append split: sum.split)
  qed (use snoc in \<open>simp_all add: simps\<close>)
qed

section \<open>What can be read from the plugin\<close>

definition counter_shows :: "('desc, 'c, 'w) registry \<Rightarrow> 'c \<Rightarrow> nat \<Rightarrow> bool" where
  "counter_shows r c n \<longleftrightarrow>
    (\<exists>op. counter_collect r c = [\<lparr>mf_opts = op, mf_samples = [([], Counter_value (u64_as_f64 (of_nat n)))]\<rparr>])"

definition vec_shows :: "('desc, 'g, 'gv, 'cv) prometheus \<Rightarrow> ('k \<Rightarrow> string list) \<Rightarrow> 'cv \<Rightarrow> ('k \<Rightarrow> nat) \<Rightarrow> bool" where
  "vec_shows p lab cv f \<longleftrightarrow>
    (\<exists>op samples. cvec_collect p cv = [\<lparr>mf_opts = op, mf_samples = samples\<rparr>] \<and>
      (\<forall>k. map_of samples (lab k) = (if f k = 0 then None else Some (Counter_value (u64_as_f64 (of_nat (f k)))))))"

definition displays ::
  "('desc, 'g, 'gv, 'cv) prometheus \<Rightarrow> ('desc, 'c, 'w) registry \<Rightarrow> ('g, 'c, 'cv) metrics_state \<Rightarrow> bool \<Rightarrow> observation \<Rightarrow> bool" where
  "displays p r s alive ob \<longleftrightarrow>
    lock_read (ms_cache s) = Inr (ob_snapshot ob) \<and>
    (\<forall>args. \<exists>v. rpc_status s args = Inr v \<and>
      json_at [Key ''blockheight''] v = Some (json_i64 (nd_blockheight (cd_node (ob_snapshot ob)))) \<and>
      json_at [Key ''channels''] v = Some (JNumber (PosInt (of_nat (length (cd_channels (ob_snapshot ob))))))) \<and>
    alive = ob_polling ob \<and>
    counter_shows r (refresh_failures_total (ms_health s)) (ob_failed_polls ob) \<and>
    counter_shows r (htlc_accepted_total (ms_counters s)) (ob_htlcs ob) \<and>
    counter_shows r (channel_opened_total (ms_counters s)) (ob_opened ob) \<and>
    vec_shows p (\<lambda>st. [st]) (forward_events_total (ms_counters s)) (ob_forwards ob) \<and>
    vec_shows p (\<lambda>(old, new). [old, new]) (channel_state_changes_total (ms_counters s)) (ob_changes ob)"

lemma register_metrics_parts:
  assumes "register_metrics p r version node_id v0 = (Inr (s0, dc), v1)"
  obtains u0 u1 where "event_counters_new p r node_id u0 = (Inr (ms_counters s0), u1)"
    and "\<exists>op. counter_with_opts r op = Inr (refresh_failures_total (ms_health s0))"
    and "ms_cache s0 = \<lparr>lk_poisoned = False, lk_content = default_cache\<rparr>"
  using assms
  by (fastforce simp: register_metrics_def refresh_health_new_def reg_counter_def reg_def io_simps result_simps Let_def)

lemma status_reads:
  "lock_read (ms_cache s) = Inr data \<Longrightarrow>
     \<exists>v. rpc_status s args = Inr v \<and>
       json_at [Key ''blockheight''] v = Some (json_i64 (nd_blockheight (cd_node data))) \<and>
       json_at [Key ''channels''] v = Some (JNumber (PosInt (of_nat (length (cd_channels data)))))"
  by (simp add: rpc_status_def)

text \<open>A state that tracks the trace displays what the observer has seen of it.\<close>

lemma tracking_displays:
  assumes doc: "prometheus_documented describe p" and cdoc: "counter_documented r"
    and made: "register_metrics p r version node_id v0 = (Inr (s0, dc), v1)"
    and cache: "cache_tracks r s0 evs s alive" and counts: "counted p r np evs (ms_counters s0) (ms_counters s)"
  shows "displays p r s alive (fold (observe np) evs nothing_observed)"
proof -
  obtain u0 u1 op where new: "event_counters_new p r node_id u0 = (Inr (ms_counters s0), u1)"
    and op: "counter_with_opts r op = Inr (refresh_failures_total (ms_health s0))"
    using register_metrics_parts [OF made] by metis
  obtain op1 op2 op3 op4 where
    "cvec_new p op1 [''status''] = Inr (forward_events_total (ms_counters s0))"
    "cvec_new p op2 [''old_state'', ''new_state''] = Inr (channel_state_changes_total (ms_counters s0))"
    "counter_with_opts r op3 = Inr (channel_opened_total (ms_counters s0))"
    "counter_with_opts r op4 = Inr (htlc_accepted_total (ms_counters s0))"
    using event_counters_new_Inr [OF new] by blast
  note counts = counters_facts [OF doc cdoc this counts]
  have read: "lock_read (ms_cache s) = Inr (last_fetch evs)" using cache by (simp add: cache_tracks_def lock_read_def)
  have failed: "counter_shows r (refresh_failures_total (ms_health s)) (length (filter failed_tick evs))"
    using cache op cdoc by (auto simp: counter_shows_def counter_documented_def cache_tracks_def)
  have "vec_shows p (\<lambda>st. [st]) (forward_events_total (ms_counters s)) (count_list (forward_statuses np evs))"
    "vec_shows p (\<lambda>(old, new). [old, new]) (channel_state_changes_total (ms_counters s)) (count_list (state_changes np evs))"
    using counts by (auto simp: vec_shows_def count_list_0_iff case_prod_beta)
  with read failed cache counts show ?thesis
    by (auto simp: displays_def observed counter_shows_def cache_tracks_def intro: status_reads)
qed

end
