(* ===== verification/PollTask.thy ===== *)
theory PollTask
  imports Observer
begin

text \<open>
  The refresh loop of \<open>metrics-plugin/src/main.rs\<close> at the level of its single calls. \<open>metrics_run\<close>
  takes a poll as one step; in the process the loop waits at every call to lightningd, and the
  handlers, the status method and the scrapes run in between. Here the loop is a task
  that can be interrupted at each of these points. Left alone it is \<open>refresh_tick\<close>; interleaved
  with anything else, the plugin still refines the observer, because a poll touches the
  shared state only at its end. When a poll starts is the subject of \<open>RefreshTimer\<close>.
\<close>

section \<open>The task\<close>

text \<open>
  Where the loop is: before connecting, before each of the three calls, before storing the
  snapshot, before reading the clock, and after a panic. It keeps the answers it has.
\<close>

datatype poll_task =
    Idle
  | Connected
  | Informed getinfo_response
  | Listed getinfo_response "peer_channel list"
  | Fetched cached_data
  | Stored
  | Dead

text \<open>The end of \<open>fetch\<close>, when all the answers are there.\<close>

definition assemble ::
  "profile \<Rightarrow> (string hash_map \<Rightarrow> string hash_map) \<Rightarrow> getinfo_response \<Rightarrow> peer_channel list
    \<Rightarrow> listfunds_response \<Rightarrow> cached_data result" where
  "assemble prof order info channels_resp funds_resp =
    and_then (sum_i64 prof (map (\<lambda>x. as_i64 (fo_amount_msat x)) (lf_outputs funds_resp))) (\<lambda>output_msat.
    and_then (sum_i64 prof (map (\<lambda>x. as_i64 (fc_our_amount_msat x)) (lf_channels funds_resp))) (\<lambda>channel_msat.
    let acc = fetch_channels channels_resp in
    Inr
      \<lparr>cd_node = \<lparr>nd_blockheight = ucast (gi_blockheight info),
                  nd_fees_collected_msat = as_i64 (gi_fees_collected_msat info)\<rparr>,
       cd_funds = \<lparr>fn_output_msat = output_msat, fn_channel_msat = channel_msat\<rparr>,
       cd_channels = fa_channels acc,
       cd_peers = map (peer_snapshot_of (fa_connected acc)) (order (fa_count acc))\<rparr>))"

lemma io_bind_lift: "io_bind (io_lift r) f w = (case r of Inl e \<Rightarrow> (Inl e, w) | Inr x \<Rightarrow> f x w)"
  by (simp add: io_bind_def io_lift_def split: sum.split)

lemma fetch_assemble:
  "fetch prof cln =
    io_bind (io_lib (cln_connect cln)) (\<lambda>_.
    io_bind (io_lib (cln_getinfo cln)) (\<lambda>info.
    io_bind (io_lib (cln_listpeerchannels cln)) (\<lambda>cs.
    io_bind (io_lib (cln_listfunds cln)) (\<lambda>funds.
    io_lift (assemble prof (map_order cln) info cs funds)))))"
  unfolding fetch_def assemble_def Let_def
  by (intro ext arg_cong2 [where f = io_bind] refl)
     (simp add: io_bind_lift io_return_eq io_lift_eq fun_eq_iff split: sum.split)

text \<open>One step of the loop: the events the observer sees, the task, the state and the world after it.\<close>

definition poll_fails ::
  "('desc, 'c, 'w) registry \<Rightarrow> string list \<Rightarrow> ('g, 'c, 'cv) metrics_state \<Rightarrow> 'w
    \<Rightarrow> metrics_event list \<times> poll_task \<times> ('g, 'c, 'cv) metrics_state \<times> 'w" where
  "poll_fails r chain s w =
    ([Tick (Inl (Anyhow chain))], Idle,
     s\<lparr>ms_health := (ms_health s)\<lparr>refresh_failures_total := counter_inc r (refresh_failures_total (ms_health s))\<rparr>\<rparr>, w)"

fun poll_move ::
  "profile \<Rightarrow> ('desc, 'g, 'gv, 'cv) prometheus \<Rightarrow> ('desc, 'c, 'w) registry \<Rightarrow> 'w cln_env
    \<Rightarrow> ('w \<Rightarrow> (string + nat) \<times> 'w) \<Rightarrow> poll_task \<Rightarrow> ('g, 'c, 'cv) metrics_state \<Rightarrow> 'w
    \<Rightarrow> metrics_event list \<times> poll_task \<times> ('g, 'c, 'cv) metrics_state \<times> 'w" where
  "poll_move prof p r cln clock Idle s w =
    (case cln_connect cln w of
       (Inl e, w') \<Rightarrow> poll_fails r [e] s w'
     | (Inr _, w') \<Rightarrow> ([], Connected, s, w'))"
| "poll_move prof p r cln clock Connected s w =
    (case cln_getinfo cln w of
       (Inl e, w') \<Rightarrow> poll_fails r [e] s w'
     | (Inr info, w') \<Rightarrow> ([], Informed info, s, w'))"
| "poll_move prof p r cln clock (Informed info) s w =
    (case cln_listpeerchannels cln w of
       (Inl e, w') \<Rightarrow> poll_fails r [e] s w'
     | (Inr cs, w') \<Rightarrow> ([], Listed info cs, s, w'))"
| "poll_move prof p r cln clock (Listed info cs) s w =
    (case cln_listfunds cln w of
       (Inl e, w') \<Rightarrow> poll_fails r [e] s w'
     | (Inr funds, w') \<Rightarrow>
         (case assemble prof (map_order cln) info cs funds of
            Inl (Anyhow chain) \<Rightarrow> poll_fails r chain s w'
          | Inl (Panic msg) \<Rightarrow> ([Tick (Inl (Panic msg))], Dead, s, w')
          | Inr data \<Rightarrow> ([], Fetched data, s, w')))"
| "poll_move prof p r cln clock (Fetched data) s w =
    (case lock_write (ms_cache s) data of
       Inl e \<Rightarrow> ([Tick (Inr data)], Dead, s, w)
     | Inr cache \<Rightarrow> ([Tick (Inr data)], Stored, s\<lparr>ms_cache := cache\<rparr>, w))"
| "poll_move prof p r cln clock Stored s w =
    (case clock w of (since_epoch, w') \<Rightarrow>
       let now = (case since_epoch of Inr secs \<Rightarrow> usize_as_f64 secs | Inl _ \<Rightarrow> 0) in
       ([], Idle, s\<lparr>ms_health := (ms_health s)\<lparr>last_refresh_timestamp_seconds :=
          gauge_set p now (last_refresh_timestamp_seconds (ms_health s))\<rparr>\<rparr>, w'))"
| "poll_move prof p r cln clock Dead s w = ([], Dead, s, w)"

text \<open>The loop left alone for some steps.\<close>

fun poll_alone ::
  "profile \<Rightarrow> ('desc, 'g, 'gv, 'cv) prometheus \<Rightarrow> ('desc, 'c, 'w) registry \<Rightarrow> 'w cln_env
    \<Rightarrow> ('w \<Rightarrow> (string + nat) \<times> 'w) \<Rightarrow> nat \<Rightarrow> poll_task \<times> ('g, 'c, 'cv) metrics_state \<times> 'w
    \<Rightarrow> metrics_event list \<times> poll_task \<times> ('g, 'c, 'cv) metrics_state \<times> 'w" where
  "poll_alone prof p r cln clock 0 (t, s, w) = ([], t, s, w)"
| "poll_alone prof p r cln clock (Suc n) (t, s, w) =
    (case poll_move prof p r cln clock t s w of (evs, c) \<Rightarrow>
      case poll_alone prof p r cln clock n c of (evs', c') \<Rightarrow> (evs @ evs', c'))"

text \<open>What a poll leaves, given the outcome of \<open>fetch\<close> and the world after it.\<close>

definition poll_result ::
  "('desc, 'g, 'gv, 'cv) prometheus \<Rightarrow> ('desc, 'c, 'w) registry \<Rightarrow> ('w \<Rightarrow> (string + nat) \<times> 'w)
    \<Rightarrow> ('g, 'c, 'cv) metrics_state \<Rightarrow> cached_data result \<times> 'w
    \<Rightarrow> poll_task \<times> ('g, 'c, 'cv) metrics_state \<times> 'w \<Rightarrow> bool" where
  "poll_result p r clock s outcome c \<longleftrightarrow>
    (case outcome of
       (Inl (Anyhow chain), w) \<Rightarrow> ([Tick (Inl (Anyhow chain))], c) = poll_fails r chain s w
     | (Inl (Panic msg), w) \<Rightarrow> c = (Dead, s, w)
     | (Inr data, w) \<Rightarrow>
         (case lock_write (ms_cache s) data of
            Inl e \<Rightarrow> c = (Dead, s, w)
          | Inr cache \<Rightarrow> (case clock w of (now, w') \<Rightarrow>
              c = (Idle, s\<lparr>ms_cache := cache, ms_health := (ms_health s)\<lparr>last_refresh_timestamp_seconds :=
                gauge_set p (case now of Inr secs \<Rightarrow> usize_as_f64 secs | Inl _ \<Rightarrow> 0)
                  (last_refresh_timestamp_seconds (ms_health s))\<rparr>\<rparr>, w'))))"

lemma poll_result_tick:
  "poll_result p r clock s (fetch prof cln w) (t, s', w') \<Longrightarrow>
     (case refresh_tick prof p r cln clock s w of
        (Inr s1, w1) \<Rightarrow> t = Idle \<and> s' = s1 \<and> w' = w1
      | (Inl e, w1) \<Rightarrow> t = Dead \<and> s' = s \<and> w' = w1)"
  by (auto simp: poll_result_def refresh_tick_def poll_fails_def Let_def split: prod.splits sum.splits error.splits)

text \<open>The last steps, when the channels have been listed.\<close>

lemma poll_last_steps:
  assumes "cln_listfunds cln w = (Inr funds, w1)"
  shows "\<exists>n\<in>{1..3}. \<exists>c. poll_alone prof p r cln clock n (Listed info cs, s, w) =
      ([Tick (assemble prof (map_order cln) info cs funds)], c) \<and>
    poll_result p r clock s (assemble prof (map_order cln) info cs funds, w1) c"
proof (cases "assemble prof (map_order cln) info cs funds")
  case (Inl e)
  with assms show ?thesis
    by (cases e; intro bexI [of _ 1]) (simp_all add: poll_result_def poll_fails_def)
next
  case (Inr data)
  show ?thesis
  proof (cases "lock_write (ms_cache s) data")
    case (Inl e)
    with assms Inr show ?thesis by (intro bexI [of _ 2]) (simp_all add: poll_result_def numeral_2_eq_2)
  next
    case cache: (Inr cache)
    obtain now w2 where "clock w1 = (now, w2)" by (cases "clock w1")
    with assms Inr cache show ?thesis
      by (intro bexI [of _ 3]) (simp_all add: poll_result_def numeral_3_eq_3 Let_def)
  qed
qed

text \<open>An answer that is an error ends the poll at once.\<close>

lemma poll_fails_result: "\<exists>c. poll_fails r chain s w = ([Tick (Inl (Anyhow chain))], c) \<and> poll_result p r clock s (Inl (Anyhow chain), w) c"
  by (simp add: poll_result_def poll_fails_def)

lemma poll_steps:
  "\<exists>n\<in>{1..6}. \<exists>c. poll_alone prof p r cln clock n (Idle, s, w) = ([Tick (fst (fetch prof cln w))], c) \<and>
     poll_result p r clock s (fetch prof cln w) c"
proof -
  note run = fetch_assemble io_bind_def io_lib_def io_lift_eq
  obtain r1 w1 where c1: "cln_connect cln w = (r1, w1)" by (cases "cln_connect cln w")
  obtain r2 w2 where c2: "cln_getinfo cln w1 = (r2, w2)" by (cases "cln_getinfo cln w1")
  obtain r3 w3 where c3: "cln_listpeerchannels cln w2 = (r3, w3)" by (cases "cln_listpeerchannels cln w2")
  obtain r4 w4 where c4: "cln_listfunds cln w3 = (r4, w4)" by (cases "cln_listfunds cln w3")
  note calls = c1 c2 c3 c4
  consider e where "r1 = Inl e" | u e where "r1 = Inr u" "r2 = Inl e"
    | u info e where "r1 = Inr u" "r2 = Inr info" "r3 = Inl e"
    | u info cs e where "r1 = Inr u" "r2 = Inr info" "r3 = Inr cs" "r4 = Inl e"
    | u info cs funds where "r1 = Inr u" "r2 = Inr info" "r3 = Inr cs" "r4 = Inr funds"
    by (metis sum.exhaust)
  then show ?thesis
  proof cases
    case (1 e)
    with calls poll_fails_result [of r "[e]" s w1 p clock] show ?thesis
      by (intro bexI [of _ 1]) (auto simp: run)
  next
    case (2 u e)
    with calls poll_fails_result [of r "[e]" s w2 p clock] show ?thesis
      by (intro bexI [of _ 2]) (auto simp: run numeral_2_eq_2)
  next
    case (3 u info e)
    with calls poll_fails_result [of r "[e]" s w3 p clock] show ?thesis
      by (intro bexI [of _ 3]) (auto simp: run numeral_3_eq_3)
  next
    case (4 u info cs e)
    with calls poll_fails_result [of r "[e]" s w4 p clock] show ?thesis
      by (intro bexI [of _ 4]) (auto simp: run eval_nat_numeral)
  next
    case (5 u info cs funds)
    then obtain n c where "n \<in> {1..3}" "poll_alone prof p r cln clock n (Listed info cs, s, w3) =
        ([Tick (assemble prof (map_order cln) info cs funds)], c)"
      "poll_result p r clock s (assemble prof (map_order cln) info cs funds, w4) c"
      using poll_last_steps c4 by metis
    with 5 calls show ?thesis
      by (intro bexI [of _ "Suc (Suc (Suc n))"]) (auto simp: run)
  qed
qed

text \<open>
  The loop left alone is \<open>refresh_tick\<close>. From the start of a poll, after one to six steps of its
  own, it is back at the start with the state and the world that \<open>refresh_tick\<close> gives, or it
  is dead where \<open>refresh_tick\<close> panics; and what it reports is the outcome of \<open>fetch\<close>.
\<close>

lemma poll_task_alone:
  "\<exists>n\<in>{1..6}. \<exists>t s' w'. poll_alone prof p r cln clock n (Idle, s, w) = ([Tick (fst (fetch prof cln w))], t, s', w') \<and>
     (case refresh_tick prof p r cln clock s w of
        (Inr s1, w1) \<Rightarrow> t = Idle \<and> s' = s1 \<and> w' = w1
      | (Inl e, w1) \<Rightarrow> t = Dead \<and> s' = s \<and> w' = w1)"
proof -
  obtain n t s' w' where n: "n \<in> {1..6}"
    and run: "poll_alone prof p r cln clock n (Idle, s, w) = ([Tick (fst (fetch prof cln w))], t, s', w')"
    and res: "poll_result p r clock s (fetch prof cln w) (t, s', w')"
    using poll_steps [of prof p r cln clock s w] by auto
  show ?thesis
    by (rule bexI [OF _ n], intro exI conjI, rule run, rule poll_result_tick [OF res])
qed

section \<open>The interleaved plugin\<close>

text \<open>
  A handler, the status method or a scrape runs whole, between two steps of the loop, and the
  node moves whenever it likes. The trace collects the events in the order in which they
  take effect.
\<close>

inductive tasks_step ::
  "profile \<Rightarrow> ('desc, 'g, 'gv, 'cv) prometheus \<Rightarrow> ('desc, 'c, 'w) registry \<Rightarrow> notification_parsers
    \<Rightarrow> 'w cln_env \<Rightarrow> ('w \<Rightarrow> (string + nat) \<times> 'w) \<Rightarrow> metrics_event list
    \<Rightarrow> ('g, 'c, 'cv) metrics_state \<times> poll_task \<times> 'w \<Rightarrow> ('g, 'c, 'cv) metrics_state \<times> poll_task \<times> 'w \<Rightarrow> bool"
  for prof p r np cln clock where
  handler: "metrics_step prof p r np cln clock ev (s, t \<noteq> Dead, w) (s', t \<noteq> Dead, w') \<Longrightarrow> \<nexists>res. ev = Tick res \<Longrightarrow>
    tasks_step prof p r np cln clock [ev] (s, t, w) (s', t, w')"
| poll: "poll_move prof p r cln clock t s w = (evs, t', s', w') \<Longrightarrow> t \<noteq> Dead \<Longrightarrow>
    tasks_step prof p r np cln clock evs (s, t, w) (s', t', w')"

inductive tasks_run ::
  "profile \<Rightarrow> ('desc, 'g, 'gv, 'cv) prometheus \<Rightarrow> ('desc, 'c, 'w) registry \<Rightarrow> notification_parsers
    \<Rightarrow> 'w cln_env \<Rightarrow> ('w \<Rightarrow> (string + nat) \<times> 'w) \<Rightarrow> ('g, 'c, 'cv) metrics_state \<times> poll_task \<times> 'w
    \<Rightarrow> metrics_event list \<Rightarrow> ('g, 'c, 'cv) metrics_state \<times> poll_task \<times> 'w \<Rightarrow> bool"
  for prof p r np cln clock c0 where
  start: "tasks_run prof p r np cln clock c0 [] c0"
| more: "tasks_run prof p r np cln clock c0 evs c \<Longrightarrow> tasks_step prof p r np cln clock evs' c c' \<Longrightarrow>
    tasks_run prof p r np cln clock c0 (evs @ evs') c'"

inductive_cases tasks_stepE: "tasks_step prof p r np cln clock evs c c'"

lemma last_fetch_in: "last_fetch evs = default_cache \<or> Tick (Inr (last_fetch evs)) \<in> set evs"
  by (induction evs rule: rev_induct)
     (auto simp: last_fetch_snoc last_fetch_def [of "[]"] split: metrics_event.splits sum.splits)

text \<open>A snapshot is made of one answer to each call, and the task keeps those it has.\<close>

definition answered :: "('w \<Rightarrow> (string + 'a) \<times> 'w) \<Rightarrow> 'a \<Rightarrow> bool" where
  "answered call a \<longleftrightarrow> (\<exists>w w'. call w = (Inr a, w'))"

definition of_answers :: "profile \<Rightarrow> 'w cln_env \<Rightarrow> cached_data \<Rightarrow> bool" where
  "of_answers prof cln data \<longleftrightarrow>
    (\<exists>info cs funds. answered (cln_getinfo cln) info \<and> answered (cln_listpeerchannels cln) cs \<and>
       answered (cln_listfunds cln) funds \<and> assemble prof (map_order cln) info cs funds = Inr data)"

fun answers_kept :: "profile \<Rightarrow> 'w cln_env \<Rightarrow> poll_task \<Rightarrow> bool" where
  "answers_kept prof cln (Informed info) = answered (cln_getinfo cln) info"
| "answers_kept prof cln (Listed info cs) =
    (answered (cln_getinfo cln) info \<and> answered (cln_listpeerchannels cln) cs)"
| "answers_kept prof cln (Fetched data) = of_answers prof cln data"
| "answers_kept prof cln _ = True"

lemma answeredI: "call w = (Inr a, w') \<Longrightarrow> answered call a"
  by (auto simp: answered_def)

lemma of_answersI:
  "assemble prof (map_order cln) info cs funds = Inr data \<Longrightarrow> answered (cln_getinfo cln) info \<Longrightarrow>
     answered (cln_listpeerchannels cln) cs \<Longrightarrow> cln_listfunds cln w = (Inr funds, w') \<Longrightarrow> of_answers prof cln data"
  unfolding of_answers_def answered_def by blast

lemma poll_move_answers:
  "poll_move prof p r cln clock t s w = (evs, t', s', w') \<Longrightarrow> answers_kept prof cln t \<Longrightarrow>
     answers_kept prof cln t' \<and> (\<forall>data. Tick (Inr data) \<in> set evs \<longrightarrow> of_answers prof cln data)"
  by (cases t)
     (auto simp: poll_fails_def Let_def split: prod.splits sum.splits error.splits intro: answeredI of_answersI)

text \<open>In a release build a poll does not panic: the sums wrap, and nobody poisons the lock.\<close>

lemma poll_move_Release:
  assumes "poll_move Release p r cln clock t s w = (evs, t', s', w')" and "t \<noteq> Dead" and "\<not> lk_poisoned (ms_cache s)"
  shows "t' \<noteq> Dead"
  using assms
  by (cases t)
     (auto simp: poll_fails_def assemble_def sum_i64_Release lock_write_def Let_def
       split: prod.splits sum.splits error.splits)

text \<open>Only the end of a poll touches what the trace determines.\<close>

lemma poll_move_tracks:
  assumes "poll_move prof p r cln clock t s w = (evs', t', s', w')" and "t \<noteq> Dead"
    and "cache_tracks r s0 evs s True"
  shows "cache_tracks r s0 (evs @ evs') s' (t' \<noteq> Dead)"
  using assms
  by (cases t)
     (auto simp: poll_fails_def cache_tracks_def last_fetch_snoc failed_tick_def panicked_tick_def lock_write_def
       Let_def split: prod.splits sum.splits error.splits)

lemma poll_move_counted:
  assumes "poll_move prof p r cln clock t s w = (evs', t', s', w')"
    and "counted p r np evs ec0 (ms_counters s)"
  shows "counted p r np (evs @ evs') ec0 (ms_counters s')"
  using assms
  by (cases t)
     (auto simp: poll_fails_def counted_tick Let_def split: prod.splits sum.splits error.splits)

lemma tasks_track:
  assumes "tasks_run prof p r np cln clock (s0, Idle, w0) evs (s, t, w)"
    and "ms_cache s0 = \<lparr>lk_poisoned = False, lk_content = default_cache\<rparr>"
  shows "cache_tracks r s0 evs s (t \<noteq> Dead) \<and> answers_kept prof cln t \<and>
    (\<forall>data. Tick (Inr data) \<in> set evs \<longrightarrow> of_answers prof cln data)"
  using assms(1)
proof (induction evs "(s, t, w)" arbitrary: s t w rule: tasks_run.induct)
  case start
  then show ?case using cache_tracks_start [OF assms(2), of r] by simp
next
  case (more evs c evs')
  obtain s1 t1 w1 where c: "c = (s1, t1, w1)" by (cases c)
  note IH = more(2) [OF c]
  from more(3) [unfolded c] show ?case
  proof (cases rule: tasks_step.cases)
    case (handler ev)
    with IH cache_tracks_step show ?thesis by fastforce
  next
    case poll
    with IH poll_move_tracks [OF poll(1), of s0 evs] poll_move_answers [OF poll(1)] show ?thesis by auto
  qed
qed

lemma tasks_counted:
  assumes doc: "prometheus_documented describe p"
    and fwd: "cvec_new p op1 [''status''] = Inr (forward_events_total (ms_counters s0))"
    and chg: "cvec_new p op2 [''old_state'', ''new_state''] = Inr (channel_state_changes_total (ms_counters s0))"
    and "tasks_run prof p r np cln clock (s0, Idle, w0) evs (s, t, w)"
  shows "counted p r np evs (ms_counters s0) (ms_counters s)"
  using assms(4)
proof (induction evs "(s, t, w)" arbitrary: s t w rule: tasks_run.induct)
  case start
  show ?case by (rule counted_start)
next
  case (more evs c evs')
  obtain s1 t1 w1 where c: "c = (s1, t1, w1)" by (cases c)
  note IH = more(2) [OF c]
  from more(3) [unfolded c] show ?case
  proof (cases rule: tasks_step.cases)
    case (handler ev)
    with counted_step [OF doc fwd chg handler(3) IH] show ?thesis by simp
  next
    case poll
    from poll_move_counted [OF poll(1) IH] show ?thesis .
  qed
qed

text \<open>A run goes on while the loop runs alone.\<close>

lemma tasks_alone:
  "tasks_run prof p r np cln clock c0 evs (s, t, w) \<Longrightarrow> poll_alone prof p r cln clock n (t, s, w) = (evs', t', s', w') \<Longrightarrow>
     tasks_run prof p r np cln clock c0 (evs @ evs') (s', t', w')"
proof (induction n arbitrary: evs evs' s t w)
  case (Suc n)
  obtain evs1 t1 s1 w1 where move: "poll_move prof p r cln clock t s w = (evs1, t1, s1, w1)"
    by (metis surj_pair)
  obtain evs2 where rest: "poll_alone prof p r cln clock n (t1, s1, w1) = (evs2, t', s', w')" "evs' = evs1 @ evs2"
    using Suc.prems(2) move by (auto split: prod.splits)
  have "tasks_run prof p r np cln clock c0 (evs @ evs1) (s1, t1, w1)"
  proof (cases "t = Dead")
    case True
    with move Suc.prems(1) show ?thesis by simp
  next
    case False
    with move Suc.prems(1) show ?thesis by (blast intro: tasks_run.more tasks_step.poll)
  qed
  from Suc.IH [OF this rest(1)] rest(2) show ?case by simp
qed simp

lemma tasks_Release:
  assumes "tasks_run Release p r np cln clock (s0, Idle, w0) evs (s, t, w)"
    and "ms_cache s0 = \<lparr>lk_poisoned = False, lk_content = default_cache\<rparr>"
  shows "t \<noteq> Dead"
  using assms(1)
proof (induction evs "(s, t, w)" arbitrary: s t w rule: tasks_run.induct)
  case (more evs c evs')
  obtain s1 t1 w1 where c: "c = (s1, t1, w1)" by (cases c)
  have "\<not> lk_poisoned (ms_cache s1)"
    using tasks_track [OF more(1) [unfolded c] assms(2)] by (simp add: cache_tracks_def)
  with more(2) [OF c] more(3) [unfolded c] show ?case
    by (auto elim!: tasks_step.cases dest: poll_move_Release)
qed simp

text \<open>
  C6. The cache is always the snapshot of the last poll that succeeded. At every moment of every
  interleaving of the refresh loop with the handlers (in particular in the middle of a poll,
  when some answers are there and others are not), a scrape or the status method that reads the cache
  sees the empty snapshot of the start or the whole one of the last successful poll, made
  of one answer of the node to each of the three calls, and the lock is never poisoned. Each
  failed poll is counted and keeps the cache; the loop dies only where a sum panics, which cannot
  happen in a release build.
\<close>

theorem cache_is_last_poll:
  assumes "tasks_run prof p r np cln clock (s0, Idle, w0) evs (s, t, w)"
    and "ms_cache s0 = \<lparr>lk_poisoned = False, lk_content = default_cache\<rparr>"
  shows "lock_read (ms_cache s) = Inr (last_fetch evs) \<and>
    (last_fetch evs = default_cache \<or> of_answers prof cln (last_fetch evs)) \<and>
    refresh_failures_total (ms_health s) =
      (counter_inc r ^^ length (filter failed_tick evs)) (refresh_failures_total (ms_health s0)) \<and>
    (t = Dead \<longleftrightarrow> filter panicked_tick evs \<noteq> []) \<and> (prof = Release \<longrightarrow> t \<noteq> Dead)"
proof -
  have track: "cache_tracks r s0 evs s (t \<noteq> Dead)" and ans: "\<forall>data. Tick (Inr data) \<in> set evs \<longrightarrow> of_answers prof cln data"
    using tasks_track [OF assms] by blast+
  have "t \<noteq> Dead" if "prof = Release"
    by (rule tasks_Release [OF assms [unfolded that]])
  with track last_fetch_in [of evs] ans show ?thesis
    by (auto simp: cache_tracks_def lock_read_def)
qed

text \<open>A run in which an HTLC is accepted while a poll waits for its second answer.\<close>

lemma sample_interleaving:
  assumes clean: "\<not> lk_poisoned (ms_cache s0)"
  shows "\<exists>s data w. tasks_run Release plain_prometheus plain_registry sample_parsers sample_cln (\<lambda>n. (Inr 99, n))
     (s0, Idle, 0) [Htlc JNull, Tick (Inr data)] (s, Idle, w)"
proof -
  let ?run = "tasks_run Release plain_prometheus plain_registry sample_parsers sample_cln (\<lambda>n. (Inr 99, n)) (s0, Idle, 0)"
  have "\<exists>info. poll_alone Release plain_prometheus plain_registry sample_cln (\<lambda>n. (Inr 99, n)) 2 (Idle, s0, 0) =
      ([], Informed info, s0, 2)"
    by (simp add: sample_cln_def numeral_2_eq_2)
  then obtain info where r1: "?run [] (s0, Informed info, 2)"
    using tasks_alone [OF tasks_run.start] by fastforce
  obtain s1 where "metrics_step Release plain_prometheus plain_registry sample_parsers sample_cln (\<lambda>n. (Inr 99, n))
      (Htlc JNull) (s0, True, 2) (s1, True, 2)" and keep: "ms_cache s1 = ms_cache s0"
    using metrics_step.htlc by (fastforce simp: metrics_hook_htlc_accepted_def)
  then have r2: "?run ([] @ [Htlc JNull]) (s1, Informed info, 2)"
    by (intro tasks_run.more [OF r1] tasks_step.handler) simp_all
  have "\<exists>data s. poll_alone Release plain_prometheus plain_registry sample_cln (\<lambda>n. (Inr 99, n)) 4 (Informed info, s1, 2) =
      ([Tick (Inr data)], Idle, s, 4)"
    using clean by (simp add: sample_cln_def eval_nat_numeral assemble_def sum_i64_Release lock_write_def keep Let_def)
  with tasks_alone [OF r2] show ?thesis by fastforce
qed

theorem cache_is_last_poll_witness:
  "\<exists>s data w. tasks_run Release plain_prometheus plain_registry sample_parsers sample_cln (\<lambda>n. (Inr 99, n))
     (sample_state, Idle, 0) [Htlc JNull, Tick (Inr data)] (s, Idle, w) \<and>
     lock_read (ms_cache s) = Inr data \<and> snd (refresh_failures_total (ms_health s)) = 0"
proof -
  obtain s data w where run: "tasks_run Release plain_prometheus plain_registry sample_parsers sample_cln (\<lambda>n. (Inr 99, n))
     (sample_state, Idle, 0) [Htlc JNull, Tick (Inr data)] (s, Idle, w)"
    using sample_interleaving [of sample_state] by (auto simp: sample_state_def)
  have "ms_cache sample_state = \<lparr>lk_poisoned = False, lk_content = default_cache\<rparr>" by (simp add: sample_state_def)
  note cache_is_last_poll [OF run this]
  then have "lock_read (ms_cache s) = Inr data"
    "refresh_failures_total (ms_health s) = refresh_failures_total (ms_health sample_state)"
    by (simp_all add: last_fetch_def failed_tick_def)
  moreover have "snd (refresh_failures_total (ms_health sample_state)) = 0" by (simp add: sample_state_def)
  ultimately show ?thesis using run by (intro exI [of _ s] exI [of _ data] exI [of _ w]) simp
qed

text \<open>
  C7. The plugin refines the observer. From the state that the registration leaves, and with
  metrics that count as their library documents, every interleaving of handlers, status calls
  and single steps of the refresh loop keeps the plugin displaying what the observer has seen: the
  cache and the status method show the last snapshot, and every counter, with every label, the number
  of its events.
\<close>

theorem metrics_refine_observer:
  assumes "prometheus_documented describe p" and "counter_documented r"
    and "register_metrics p r version node_id v0 = (Inr (s0, dc), v1)"
    and "tasks_run prof p r np cln clock (s0, Idle, w0) evs (s, t, w)"
  shows "displays p r s (t \<noteq> Dead) (fold (observe np) evs nothing_observed)"
proof -
  obtain u0 u1 where new: "event_counters_new p r node_id u0 = (Inr (ms_counters s0), u1)"
    and cache: "ms_cache s0 = \<lparr>lk_poisoned = False, lk_content = default_cache\<rparr>"
    by (rule register_metrics_parts [OF assms(3)])
  obtain op1 op2 where "cvec_new p op1 [''status''] = Inr (forward_events_total (ms_counters s0))"
    "cvec_new p op2 [''old_state'', ''new_state''] = Inr (channel_state_changes_total (ms_counters s0))"
    using event_counters_new_Inr [OF new] by blast
  from tracking_displays [OF assms(1-3) _ tasks_counted [OF assms(1) this assms(4)]]
  show ?thesis using tasks_track [OF assms(4) cache] by blast
qed

theorem metrics_refine_observer_witness:
  "\<exists>s0 dc s data w. register_metrics plain_prometheus plain_registry ''0.1.0'' ''node'' (0::nat) = (Inr (s0, dc), 0) \<and>
     tasks_run Release plain_prometheus plain_registry sample_parsers sample_cln (\<lambda>n. (Inr 99, n))
       (s0, Idle, 0) [Htlc JNull, Tick (Inr data)] (s, Idle, w) \<and>
     counter_shows plain_registry (htlc_accepted_total (ms_counters s)) 1"
proof -
  obtain s0 where made: "register_metrics plain_prometheus plain_registry ''0.1.0'' ''node'' 0 = (Inr (s0, sample_collector), 0)"
    using sample_register by blast
  then have "\<not> lk_poisoned (ms_cache s0)" using register_metrics_cache [OF made] by simp
  then obtain s data w where run: "tasks_run Release plain_prometheus plain_registry sample_parsers sample_cln (\<lambda>n. (Inr 99, n))
       (s0, Idle, 0) [Htlc JNull, Tick (Inr data)] (s, Idle, w)"
    using sample_interleaving by blast
  from metrics_refine_observer [OF plain_prometheus_documented plain_counter_documented made run]
  have "counter_shows plain_registry (htlc_accepted_total (ms_counters s)) 1"
    by (simp add: displays_def nothing_observed_def)
  with made run show ?thesis by blast
qed

end
