(* ===== verification/RefreshTimer.thy ===== *)
theory RefreshTimer
  imports PollTask
begin

text \<open>
  \<open>spawn_refresh_loop\<close> of \<open>metrics-plugin/src/main.rs\<close> with its timer: the polls of a run, one
  after the other, and the instants at which they start. The timer is \<open>tokio::time\<close>, given by
  its operations; \<open>instant\<close> reads the monotonic clock off a world, in nanoseconds.
\<close>

section \<open>The timer\<close>

datatype missed_tick_behavior = Burst | Delay | Skip

text \<open>\<open>interval\<close>, \<open>set_missed_tick_behavior\<close> and \<open>tick\<close>; a \<open>Duration\<close> is a number of nanoseconds.\<close>

record ('iv, 'w) timer =
  tm_interval :: "nat \<Rightarrow> 'w \<Rightarrow> 'iv"
  tm_set_missed_tick_behavior :: "missed_tick_behavior \<Rightarrow> 'iv \<Rightarrow> 'iv"
  tm_tick :: "'iv \<Rightarrow> 'w \<Rightarrow> 'iv \<times> 'w"

definition duration_from_secs :: "u64 \<Rightarrow> nat" where
  "duration_from_secs secs = unat secs * 10 ^ 9"

text \<open>
  The loop, for the first \<open>n\<close> rounds: the worlds in which the polls start, and what is left, which
  is an error when a poll panics.
\<close>

fun refresh_loop ::
  "profile \<Rightarrow> ('desc, 'g, 'gv, 'cv) prometheus \<Rightarrow> ('desc, 'c, 'w) registry \<Rightarrow> 'w cln_env
    \<Rightarrow> ('w \<Rightarrow> (string + nat) \<times> 'w) \<Rightarrow> ('iv, 'w) timer \<Rightarrow> nat \<Rightarrow> 'iv \<Rightarrow> ('g, 'c, 'cv) metrics_state \<Rightarrow> 'w
    \<Rightarrow> 'w list \<times> ('g, 'c, 'cv) metrics_state result \<times> 'w" where
  "refresh_loop prof p r cln clock tm 0 ticker s w = ([], Inr s, w)"
| "refresh_loop prof p r cln clock tm (Suc n) ticker s w =
    (case tm_tick tm ticker w of (ticker', w1) \<Rightarrow>
      case refresh_tick prof p r cln clock s w1 of
        (Inl e, w2) \<Rightarrow> ([w1], Inl e, w2)
      | (Inr s', w2) \<Rightarrow>
          (case refresh_loop prof p r cln clock tm n ticker' s' w2 of (polls, rest) \<Rightarrow> (w1 # polls, rest)))"

definition spawn_refresh_loop ::
  "profile \<Rightarrow> ('desc, 'g, 'gv, 'cv) prometheus \<Rightarrow> ('desc, 'c, 'w) registry \<Rightarrow> 'w cln_env
    \<Rightarrow> ('w \<Rightarrow> (string + nat) \<times> 'w) \<Rightarrow> ('iv, 'w) timer \<Rightarrow> u64 \<Rightarrow> nat \<Rightarrow> ('g, 'c, 'cv) metrics_state \<Rightarrow> 'w
    \<Rightarrow> 'w list \<times> ('g, 'c, 'cv) metrics_state result \<times> 'w" where
  "spawn_refresh_loop prof p r cln clock tm refresh_secs n s w =
    (let ticker = tm_interval tm (duration_from_secs refresh_secs) w;
         ticker = tm_set_missed_tick_behavior tm Delay ticker in
     refresh_loop prof p r cln clock tm n ticker s w)"

section \<open>What the timer documents\<close>

text \<open>
  An interval has a period, a next deadline and a behaviour for missed ticks. The first
  tick is due at once; a tick completes at its deadline or later. A tick that is at most five
  milliseconds late is on time, and the next is due a period after its deadline. After a later
  one, \<open>Burst\<close> keeps to that, \<open>Delay\<close> counts the period from the tick, and \<open>Skip\<close> takes the next
  multiple. This is said of periods up to thirty years.
\<close>

definition LATE :: nat where "LATE = 5 * 10 ^ 6"
definition THIRTY_YEARS :: nat where "THIRTY_YEARS = 30 * 365 * 24 * 3600 * 10 ^ 9"

record 'iv interval_view =
  iv_due :: "'iv \<Rightarrow> nat"
  iv_period :: "'iv \<Rightarrow> nat"
  iv_behavior :: "'iv \<Rightarrow> missed_tick_behavior"

definition next_due :: "nat \<Rightarrow> nat \<Rightarrow> missed_tick_behavior \<Rightarrow> nat \<Rightarrow> nat" where
  "next_due due period behavior now =
    (if now \<le> due + LATE then due + period
     else case behavior of
       Burst \<Rightarrow> due + period
     | Delay \<Rightarrow> now + period
     | Skip \<Rightarrow> due + ((now - due) div period + 1) * period)"

definition timer_documented :: "('w \<Rightarrow> nat) \<Rightarrow> 'iv interval_view \<Rightarrow> ('iv, 'w) timer \<Rightarrow> bool" where
  "timer_documented instant view tm \<longleftrightarrow>
    (\<forall>d w. 0 < d \<longrightarrow> d \<le> THIRTY_YEARS \<longrightarrow> iv_due view (tm_interval tm d w) = instant w \<and>
       iv_period view (tm_interval tm d w) = d \<and> iv_behavior view (tm_interval tm d w) = Burst) \<and>
    (\<forall>b iv. iv_due view (tm_set_missed_tick_behavior tm b iv) = iv_due view iv \<and>
       iv_period view (tm_set_missed_tick_behavior tm b iv) = iv_period view iv \<and>
       iv_behavior view (tm_set_missed_tick_behavior tm b iv) = b) \<and>
    (\<forall>iv w iv' w'. tm_tick tm iv w = (iv', w') \<longrightarrow> iv_period view iv \<le> THIRTY_YEARS \<longrightarrow>
       instant w \<le> instant w' \<and> iv_due view iv \<le> instant w' \<and>
       iv_due view iv' = next_due (iv_due view iv) (iv_period view iv) (iv_behavior view iv) (instant w') \<and>
       iv_period view iv' = iv_period view iv \<and> iv_behavior view iv' = iv_behavior view iv)"

section \<open>The polls\<close>

text \<open>In a release build a poll does not end the loop, whatever the node answers.\<close>

lemma from_lib_Panic [simp]: "from_lib r \<noteq> Inl (Panic msg)"
  by (cases r) simp_all

lemma fetch_Release: "fst (fetch Release cln w) \<noteq> Inl (Panic msg)"
  by (auto simp: fetch_assemble io_bind_def io_lib_def io_lift_eq assemble_def sum_i64_Release Let_def
    split: prod.splits sum.splits)

lemma refresh_tick_Release:
  assumes "\<not> lk_poisoned (ms_cache s)"
  obtains s' where "fst (refresh_tick Release p r cln clock s w) = Inr s'" and "\<not> lk_poisoned (ms_cache s')"
proof -
  obtain res w1 where fetched: "fetch Release cln w = (res, w1)" by (cases "fetch Release cln w")
  with fetch_Release [of cln w] have "res \<noteq> Inl (Panic msg)" for msg by simp
  then consider chain where "res = Inl (Anyhow chain)" | data where "res = Inr data"
    by (metis error.exhaust sum.exhaust)
  then show thesis
  proof cases
    case (1 chain)
    with fetched assms that show ?thesis by (simp add: refresh_tick_def Let_def)
  next
    case (2 data)
    obtain now w2 where "clock w1 = (now, w2)" by (cases "clock w1")
    with 2 fetched assms that show ?thesis by (simp add: refresh_tick_def lock_write_def Let_def)
  qed
qed

lemma next_due_delay: "now + period \<le> next_due due period Delay now + LATE"
  by (simp add: next_due_def)

lemma refresh_loop_spaced:
  assumes law: "timer_documented instant view tm"
    and "\<not> lk_poisoned (ms_cache s)" and "iv_behavior view ticker = Delay" and "iv_period view ticker \<le> THIRTY_YEARS"
  shows "length (fst (refresh_loop Release p r cln clock tm n ticker s w)) = n \<and>
    (0 < n \<longrightarrow> instant w \<le> instant (fst (refresh_loop Release p r cln clock tm n ticker s w) ! 0) \<and>
      iv_due view ticker \<le> instant (fst (refresh_loop Release p r cln clock tm n ticker s w) ! 0)) \<and>
    (\<forall>i. Suc i < n \<longrightarrow> instant (fst (refresh_loop Release p r cln clock tm n ticker s w) ! i) + iv_period view ticker \<le>
      instant (fst (refresh_loop Release p r cln clock tm n ticker s w) ! Suc i) + LATE)"
  using assms(2-4)
proof (induction n arbitrary: ticker s w)
  case (Suc n)
  obtain ticker' w1 where tick: "tm_tick tm ticker w = (ticker', w1)" by (cases "tm_tick tm ticker w")
  have t: "instant w \<le> instant w1" "iv_due view ticker \<le> instant w1"
    "iv_due view ticker' = next_due (iv_due view ticker) (iv_period view ticker) (iv_behavior view ticker) (instant w1)"
    "iv_period view ticker' = iv_period view ticker" "iv_behavior view ticker' = iv_behavior view ticker"
    using law tick Suc.prems(3) unfolding timer_documented_def by blast+
  obtain s' where s': "fst (refresh_tick Release p r cln clock s w1) = Inr s'" "\<not> lk_poisoned (ms_cache s')"
    by (rule refresh_tick_Release [OF Suc.prems(1)])
  then obtain w2 where poll: "refresh_tick Release p r cln clock s w1 = (Inr s', w2)" by (metis prod.collapse)
  let ?polls = "fst (refresh_loop Release p r cln clock tm n ticker' s' w2)"
  have polls: "fst (refresh_loop Release p r cln clock tm (Suc n) ticker s w) = w1 # ?polls"
    by (simp add: tick poll case_prod_beta)
  have "iv_behavior view ticker' = Delay" "iv_period view ticker' \<le> THIRTY_YEARS" using t Suc.prems by simp_all
  note rest = Suc.IH [OF s'(2) this, of w2]
  have due: "instant w1 + iv_period view ticker \<le> iv_due view ticker' + LATE"
    using next_due_delay [of "instant w1" "iv_period view ticker"] t(3) Suc.prems(2) by simp
  have "instant ((w1 # ?polls) ! i) + iv_period view ticker \<le> instant ((w1 # ?polls) ! Suc i) + LATE" if "Suc i < Suc n" for i
  proof (cases i)
    case 0
    with that rest have "iv_due view ticker' \<le> instant (?polls ! 0)" by simp
    with due 0 show ?thesis by simp
  next
    case (Suc j)
    with that rest t(4) show ?thesis by simp
  qed
  with rest t(1,2) show ?case unfolding polls by simp
qed simp

text \<open>
  C17. The node is polled every five seconds at the most, however long the polls take. After a start-up of the plugin, whatever its option for the period says, two polls
  of the refresh loop start at least the configured period apart, and that is five seconds
  or more, less the five milliseconds by which the timer may be late; after a poll that takes
  longer than the period there is no burst of polls to catch up. In a release build the loop does
  not end, whether polls fail or not.
\<close>

theorem polls_spaced:
  assumes start: "metrics_main p r cln env w0 = (Inr (Some rn), w1)"
    and law: "timer_documented instant view tm"
    and sane: "duration_from_secs (rn_refresh_secs rn) \<le> THIRTY_YEARS"
    and polls: "polls = fst (spawn_refresh_loop Release p r cln clock tm (rn_refresh_secs rn) n (rn_state rn) w)"
  shows "length polls = n \<and> (0 < n \<longrightarrow> instant w \<le> instant (polls ! 0)) \<and>
    (\<forall>i. Suc i < n \<longrightarrow> instant (polls ! i) + duration_from_secs (rn_refresh_secs rn) \<le> instant (polls ! Suc i) + 5 * 10 ^ 6 \<and>
      instant (polls ! i) + 4995 * 10 ^ 6 \<le> instant (polls ! Suc i))"
proof -
  let ?period = "duration_from_secs (rn_refresh_secs rn)"
  let ?ticker = "tm_set_missed_tick_behavior tm Delay (tm_interval tm ?period w)"
  obtain config node_id version v v' where m: "rn_refresh_secs rn = refresh_secs_of (opt_metrics_refresh config)"
    "register_metrics p r version node_id v = (Inr (rn_state rn, rn_collector rn), v')"
    by (rule metrics_main_Inr [OF start])
  then have "5 \<le> unat (rn_refresh_secs rn)" using refresh_secs_unat by simp
  then have five: "5 * 10 ^ 9 \<le> ?period" by (simp add: duration_from_secs_def)
  then have ticker: "iv_behavior view ?ticker = Delay" "iv_period view ?ticker = ?period"
    using law sane unfolding timer_documented_def by simp_all
  have "\<not> lk_poisoned (ms_cache (rn_state rn))" using register_metrics_cache [OF m(2)] by simp
  from refresh_loop_spaced [OF law this ticker(1)] sane
  have "length polls = n \<and> (0 < n \<longrightarrow> instant w \<le> instant (polls ! 0)) \<and>
    (\<forall>i. Suc i < n \<longrightarrow> instant (polls ! i) + ?period \<le> instant (polls ! Suc i) + LATE)"
    unfolding polls spawn_refresh_loop_def Let_def ticker(2) by blast
  with five show ?thesis by (fastforce simp: LATE_def)
qed

text \<open>A timer that is never late, on the world that counts the calls of the node.\<close>

definition plain_timer :: "(nat \<times> nat \<times> missed_tick_behavior, nat) timer" where
  "plain_timer =
    \<lparr>tm_interval = (\<lambda>d w. (w, d, Burst)),
     tm_set_missed_tick_behavior = (\<lambda>b (due, period, _). (due, period, b)),
     tm_tick = (\<lambda>(due, period, b) w. ((next_due due period b (max due w), period, b), max due w))\<rparr>"

definition plain_view :: "(nat \<times> nat \<times> missed_tick_behavior) interval_view" where
  "plain_view = \<lparr>iv_due = fst, iv_period = fst \<circ> snd, iv_behavior = snd \<circ> snd\<rparr>"

lemma plain_timer_documented: "timer_documented id plain_view plain_timer"
  by (auto simp: timer_documented_def plain_timer_def plain_view_def)

theorem polls_spaced_witness:
  "\<exists>rn polls. metrics_main plain_prometheus plain_registry sample_cln sample_metrics_env 0 = (Inr (Some rn), 2) \<and>
     polls = fst (spawn_refresh_loop Release plain_prometheus plain_registry sample_cln (\<lambda>n. (Inr 99, n)) plain_timer
       (rn_refresh_secs rn) 3 (rn_state rn) 2) \<and>
     length polls = 3 \<and> polls ! 0 + 4995 * 10 ^ 6 \<le> polls ! 1 \<and> polls ! 1 + 4995 * 10 ^ 6 \<le> polls ! 2"
proof -
  obtain rn where rn: "metrics_main plain_prometheus plain_registry sample_cln sample_metrics_env 0 = (Inr (Some rn), 2)"
    "rn_refresh_secs rn = 5"
    by (rule sample_metrics_main)
  let ?polls = "fst (spawn_refresh_loop Release plain_prometheus plain_registry sample_cln (\<lambda>n. (Inr 99, n)) plain_timer
    (rn_refresh_secs rn) 3 (rn_state rn) 2)"
  have "duration_from_secs (rn_refresh_secs rn) \<le> THIRTY_YEARS" by (simp add: rn duration_from_secs_def THIRTY_YEARS_def)
  note spaced = polls_spaced [OF rn(1) plain_timer_documented this refl, where n = 3 and w = 2 and clock = "\<lambda>n. (Inr 99, n)"]
  then have "?polls ! 0 + 4995 * 10 ^ 6 \<le> ?polls ! Suc 0" "?polls ! Suc 0 + 4995 * 10 ^ 6 \<le> ?polls ! Suc (Suc 0)"
    unfolding id_apply by (metis lessI less_Suc_eq numeral_3_eq_3)+
  with rn(1) spaced show ?thesis by (simp add: numeral_2_eq_2)
qed

end
