(* ===== verification/Event.thy ===== *)
theory Event
  imports RustInt Hook
begin

text \<open>
  The event plugin's \<open>events.rs\<close> and \<open>broker.rs\<close>: the event identifiers, the envelope, and
  the handlers that publish to RabbitMQ. The process has two shared cells, the AMQP channel
  and the generator of identifiers, which are part of the world the handlers run in; the
  broker client, the encoders, the generator and the clock are fields of \<open>event_env\<close>.
\<close>

unbundle bit_operations_syntax

type_synonym i32 = "32 word"
type_synonym u16 = "16 word"

section \<open>The envelope\<close>

record timestamp =
  ts_seconds :: i64
  ts_nanos :: i32

record event_envelope =
  ee_envelope_version :: u32
  ee_event_id :: u64
  ee_event_type :: string
  ee_emitted_at :: "timestamp option"
  ee_source_kind :: i32
  ee_source_node_id :: "u8 list"
  ee_producer_version :: string
  ee_payload_json :: "u8 list"

section \<open>The world of the process\<close>

text \<open>
  The channel stands behind a \<open>tokio::sync::RwLock\<close>: \<open>ew_amqp_channel\<close> is the content,
  \<open>ew_readers\<close> the number of read guards that are alive, and \<open>ew_write_wanted\<close> says that a writer
  is queued, behind which later readers have to queue. A guard is released where the value
  that holds it goes out of scope.
\<close>

record ('ch, 'gen, 'w) event_world =
  ew_amqp_channel :: "'ch option"
  ew_readers :: nat
  ew_write_wanted :: bool
  ew_generator :: "'gen option"
  ew_outside :: 'w

definition event_world_new :: "'w \<Rightarrow> ('ch, 'gen, 'w) event_world" where
  "event_world_new w =
    \<lparr>ew_amqp_channel = None, ew_readers = 0, ew_write_wanted = False, ew_generator = None, ew_outside = w\<rparr>"

definition guard_taken :: "('ch, 'gen, 'w) event_world \<Rightarrow> ('ch, 'gen, 'w) event_world" where
  "guard_taken ew = ew\<lparr>ew_readers := Suc (ew_readers ew)\<rparr>"

definition guard_dropped :: "('ch, 'gen, 'w) event_world \<Rightarrow> ('ch, 'gen, 'w) event_world" where
  "guard_dropped ew = ew\<lparr>ew_readers := ew_readers ew - 1\<rparr>"

text \<open>
  \<open>amqp_for_cleanup.write()\<close> queues a writer; when it has the lock the channel is taken away,
  and the write guard is released at the end of the statement.
\<close>

definition write_queued :: "('ch, 'gen, 'w) event_world \<Rightarrow> ('ch, 'gen, 'w) event_world" where
  "write_queued ew = ew\<lparr>ew_write_wanted := True\<rparr>"

definition channel_cleared :: "('ch, 'gen, 'w) event_world \<Rightarrow> ('ch, 'gen, 'w) event_world" where
  "channel_cleared ew = ew\<lparr>ew_amqp_channel := None, ew_write_wanted := False\<rparr>"

lemma cleared_simps [simp]:
  "ew_amqp_channel (write_queued ew) = ew_amqp_channel ew" "ew_outside (write_queued ew) = ew_outside ew"
  "ew_generator (write_queued ew) = ew_generator ew" "ew_readers (write_queued ew) = ew_readers ew"
  "ew_write_wanted (write_queued ew)"
  "ew_amqp_channel (channel_cleared ew) = None" "ew_outside (channel_cleared ew) = ew_outside ew"
  "ew_generator (channel_cleared ew) = ew_generator ew" "ew_readers (channel_cleared ew) = ew_readers ew"
  "\<not> ew_write_wanted (channel_cleared ew)"
  by (simp_all add: write_queued_def channel_cleared_def)

text \<open>
  What the broker client says of a message it was given: with publisher confirms on, that the
  broker took it or refused it, and otherwise that nobody asked.
\<close>

datatype confirmation = Ack | Nack | NotRequested

record ('ch, 'gen, 'w) event_env =
  gen_new :: "u64 \<Rightarrow> 'gen"
  gen_next :: "'gen \<Rightarrow> 'w \<Rightarrow> u64 \<times> 'gen \<times> 'w"
  since_epoch :: "'w \<Rightarrow> (string + nat \<times> nat) \<times> 'w"
  json_to_vec :: "json \<Rightarrow> string + u8 list"
  prost_encode :: "event_envelope \<Rightarrow> string + u8 list"
  basic_publish :: "'ch \<Rightarrow> string \<Rightarrow> string \<Rightarrow> u8 list \<Rightarrow> 'w \<Rightarrow> (string + nat) \<times> 'w"
  publisher_confirm :: "nat \<Rightarrow> 'w \<Rightarrow> (string + confirmation) \<times> 'w"

text \<open>A call that only concerns the outside.\<close>

definition outside :: "('w \<Rightarrow> 'r \<times> 'w) \<Rightarrow> ('ch, 'gen, 'w) event_world \<Rightarrow> 'r \<times> ('ch, 'gen, 'w) event_world" where
  "outside f ew = (case f (ew_outside ew) of (x, w) \<Rightarrow> (x, ew\<lparr>ew_outside := w\<rparr>))"

section \<open>Event identifiers\<close>

definition u16_from_be_bytes :: "u8 \<Rightarrow> u8 \<Rightarrow> u16" where
  "u16_from_be_bytes a b = push_bit 8 (ucast a) OR ucast b"

definition init_event_id_generator :: "('ch, 'gen, 'w) event_env \<Rightarrow> u8 list \<Rightarrow> (('ch, 'gen, 'w) event_world, unit) io" where
  "init_event_id_generator env node_id_bytes ew =
    (let len = length node_id_bytes in
     if len < 2 then (panic ''index out of bounds'', ew)
     else
       (let machine_bits = u16_from_be_bytes (node_id_bytes ! (len - 2)) (node_id_bytes ! (len - 1)) AND 0x3FF;
            generator = gen_new env (ucast machine_bits) in
        case ew_generator ew of
          Some _ \<Rightarrow> (panic ''EVENT_ID_GENERATOR already initialized'', ew)
        | None \<Rightarrow> (Inr (), ew\<lparr>ew_generator := Some generator\<rparr>)))"

definition next_event_id :: "('ch, 'gen, 'w) event_env \<Rightarrow> (('ch, 'gen, 'w) event_world, u64) io" where
  "next_event_id env ew =
    (case ew_generator ew of
       None \<Rightarrow> (panic ''expected EVENT_ID_GENERATOR to be initialized'', ew)
     | Some generator \<Rightarrow>
        (case gen_next env generator (ew_outside ew) of
           (event_id, generator', w) \<Rightarrow> (Inr event_id, ew\<lparr>ew_generator := Some generator', ew_outside := w\<rparr>)))"

definition new_envelope ::
  "('ch, 'gen, 'w) event_env \<Rightarrow> string \<Rightarrow> i32 \<Rightarrow> u8 list \<Rightarrow> string \<Rightarrow> json
    \<Rightarrow> (('ch, 'gen, 'w) event_world, event_envelope) io" where
  "new_envelope env event_type source_kind source_node_id producer_version payload =
    io_bind (io_lib (outside (since_epoch env))) (\<lambda>now.
    io_bind (next_event_id env) (\<lambda>event_id.
    io_bind (io_lift (from_lib (json_to_vec env payload))) (\<lambda>payload_json.
    io_return
      \<lparr>ee_envelope_version = 1,
       ee_event_id = event_id,
       ee_event_type = event_type,
       ee_emitted_at = Some \<lparr>ts_seconds = of_nat (fst now), ts_nanos = of_nat (snd now)\<rparr>,
       ee_source_kind = source_kind,
       ee_source_node_id = source_node_id,
       ee_producer_version = producer_version,
       ee_payload_json = payload_json\<rparr>)))"

definition encode_envelope :: "('ch, 'gen, 'w) event_env \<Rightarrow> event_envelope \<Rightarrow> u8 list result" where
  "encode_envelope env envelope = from_lib (prost_encode env envelope)"

section \<open>The broker\<close>

record message_broker =
  mb_exchange_name :: string
  mb_source_kind :: i32
  mb_source_node_id :: "u8 list"
  mb_producer_version :: string

text \<open>\<open>MessageBroker::new\<close>; the cell of the channel, which it shares, is in the world.\<close>

definition message_broker_new :: "string \<Rightarrow> i32 \<Rightarrow> u8 list \<Rightarrow> string \<Rightarrow> message_broker" where
  "message_broker_new exchange_name source_kind source_node_id producer_version =
    \<lparr>mb_exchange_name = exchange_name, mb_source_kind = source_kind,
     mb_source_node_id = source_node_id, mb_producer_version = producer_version\<rparr>"

declare message_broker_new_def [simp]

text \<open>
  The read guard lives until the function is left, over both calls of the client, and the
  confirmation that the second one returns is dropped. Here the handlers run one after
  the other and no writer is queued, so that the guard is had at once; where it has to be
  waited for is the subject of \<open>EventTasks\<close>.
\<close>

definition publish_with ::
  "('ch, 'gen, 'w) event_env \<Rightarrow> message_broker \<Rightarrow> u8 list \<Rightarrow> (('ch, 'gen, 'w) event_world, unit) io" where
  "publish_with env broker payload ew =
    (case ew_amqp_channel ew of
       None \<Rightarrow> (bail (''No AMQP channel available, cannot publish to '' @ mb_exchange_name broker), ew)
     | Some ch \<Rightarrow>
         io_bind (io_lib (outside (basic_publish env ch (mb_exchange_name broker) [] payload))) (\<lambda>confirm.
         io_bind (io_lib (outside (publisher_confirm env confirm))) (\<lambda>_.
         io_return ())) ew)"

definition publish_bytes ::
  "('ch, 'gen, 'w) event_env \<Rightarrow> message_broker \<Rightarrow> u8 list \<Rightarrow> (('ch, 'gen, 'w) event_world, unit) io" where
  "publish_bytes env broker payload ew =
    (case publish_with env broker payload (guard_taken ew) of (r, ew') \<Rightarrow> (r, guard_dropped ew'))"

lemma guard_simps [simp]:
  "ew_amqp_channel (guard_taken ew) = ew_amqp_channel ew" "ew_outside (guard_taken ew) = ew_outside ew"
  "ew_generator (guard_taken ew) = ew_generator ew" "ew_readers (guard_taken ew) = Suc (ew_readers ew)"
  "ew_write_wanted (guard_taken ew) = ew_write_wanted ew"
  "ew_amqp_channel (guard_dropped ew) = ew_amqp_channel ew" "ew_outside (guard_dropped ew) = ew_outside ew"
  "ew_generator (guard_dropped ew) = ew_generator ew" "ew_readers (guard_dropped ew) = ew_readers ew - 1"
  "ew_write_wanted (guard_dropped ew) = ew_write_wanted ew"
  by (simp_all add: guard_taken_def guard_dropped_def)

section \<open>The handlers\<close>

definition on_warning :: "json \<Rightarrow> (('ch, 'gen, 'w) event_world, unit) io" where
  "on_warning v = io_return ()"

definition publish_event ::
  "('ch, 'gen, 'w) event_env \<Rightarrow> message_broker \<Rightarrow> string \<Rightarrow> json \<Rightarrow> (('ch, 'gen, 'w) event_world, unit) io" where
  "publish_event env state event_type v =
    io_bind (new_envelope env event_type (mb_source_kind state) (mb_source_node_id state) (mb_producer_version state) v)
      (\<lambda>envelope. io_bind (io_lift (encode_envelope env envelope)) (publish_bytes env state))"

definition on_event ::
  "('ch, 'gen, 'w) event_env \<Rightarrow> message_broker \<Rightarrow> string \<Rightarrow> json \<Rightarrow> (('ch, 'gen, 'w) event_world, unit) io" where
  "on_event env state event_type v =
    (if event_type = ''warning'' then on_warning v else publish_event env state event_type v)"

text \<open>The error of the inner block is logged and dropped; a panic is not an error.\<close>

definition hook_htlc_accepted ::
  "('ch, 'gen, 'w) event_env \<Rightarrow> message_broker \<Rightarrow> json \<Rightarrow> (('ch, 'gen, 'w) event_world, json) io" where
  "hook_htlc_accepted env state v =
    io_catch (publish_event env state ''htlc_accepted_hook'' v) (\<lambda>r.
      case r of Inl (Panic msg) \<Rightarrow> io_lift (Inl (Panic msg)) | _ \<Rightarrow> io_return json_continue)"

interpretation event_htlc: observing_hook "hook_htlc_accepted env state" for env state
  by unfold_locales
     (auto simp: hook_htlc_accepted_def io_catch_def io_lift_eq io_return_eq split: prod.splits sum.splits error.splits)

section \<open>The machine number\<close>

text \<open>The node id as a number, big-endian.\<close>

definition be_nat :: "u8 list \<Rightarrow> nat" where
  "be_nat bs = foldl (\<lambda>n b. 256 * n + unat b) 0 bs"

lemma push_or_nat: "n < 256 \<Longrightarrow> push_bit 8 m OR n = 256 * m + (n :: nat)"
proof -
  assume n: "n < 256"
  then have "n = take_bit 8 n" by (simp add: take_bit_eq_mod)
  then have low: "k < 8" if "bit n k" for k using that by (metis bit_take_bit_iff)
  then have "push_bit 8 m AND n = 0" by (intro bit_eqI) (auto simp: bit_simps dest: low)
  then have "push_bit 8 m + n = push_bit 8 m OR n" by (rule disjunctive_add_eq_or)
  then show ?thesis by (simp add: push_bit_eq_mult)
qed

lemma unat_u16_from_be_bytes: "unat (u16_from_be_bytes a b) = 256 * unat a + unat b"
proof -
  have ab: "unat a < 256" "unat b < 256"
    using unsigned_less [of a, where ?'a = nat] unsigned_less [of b, where ?'a = nat] by simp_all
  have up: "unat (ucast a :: u16) = unat a" "unat (ucast b :: u16) = unat b"
    using ab by (simp_all add: unsigned_ucast_eq take_bit_nat_eq_self)
  have "unat (push_bit 8 (ucast a :: u16)) = push_bit 8 (unat a)"
    unfolding unsigned_push_bit_eq up using ab by (simp add: take_bit_nat_eq_self push_bit_eq_mult)
  then have "unat (u16_from_be_bytes a b) = push_bit 8 (unat a) OR unat b"
    unfolding u16_from_be_bytes_def unsigned_or_eq up by simp
  with ab show ?thesis by (simp add: push_or_nat)
qed

lemma machine_bits_nat: "unat (u16_from_be_bytes a b AND 0x3FF) = (256 * unat a + unat b) mod 1024"
proof -
  have "(0x3FF :: u16) = mask 10" by (simp add: mask_eq_exp_minus_1)
  then have "u16_from_be_bytes a b AND 0x3FF = take_bit 10 (u16_from_be_bytes a b)"
    by (simp only: take_bit_eq_mask)
  then have "unat (u16_from_be_bytes a b AND 0x3FF) = take_bit 10 (unat (u16_from_be_bytes a b))"
    by (simp only: unsigned_take_bit_eq)
  then show ?thesis by (simp add: unat_u16_from_be_bytes take_bit_eq_mod)
qed

lemma be_nat_snoc: "be_nat (bs @ [a, b]) = 65536 * be_nat bs + (256 * unat a + unat b)"
  by (simp add: be_nat_def algebra_simps)

lemma init_event_id_generator_eq:
  "init_event_id_generator env node_id ew =
    (if length node_id < 2 then (Inl (Panic ''index out of bounds''), ew)
     else if ew_generator ew \<noteq> None then (Inl (Panic ''EVENT_ID_GENERATOR already initialized''), ew)
     else (Inr (), ew\<lparr>ew_generator := Some (gen_new env (of_nat (be_nat node_id mod 1024)))\<rparr>))"
proof (cases "length node_id < 2")
  case False
  then obtain a b bs where ns: "node_id = bs @ [a, b]"
    by (cases node_id rule: rev_cases; cases "butlast node_id" rule: rev_cases) auto
  have "be_nat node_id mod 1024 = ((256 * unat a + unat b) + 1024 * (64 * be_nat bs)) mod 1024"
    unfolding ns be_nat_snoc by (rule arg_cong [where f = "\<lambda>x. x mod 1024"]) simp
  then have mod: "be_nat node_id mod 1024 = (256 * unat a + unat b) mod 1024"
    by (simp only: mod_mult_self2)
  have "ucast (u16_from_be_bytes a b AND 0x3FF) = (of_nat (unat (u16_from_be_bytes a b AND 0x3FF)) :: u64)"
    by simp
  also have "\<dots> = of_nat (be_nat node_id mod 1024)"
    by (simp only: machine_bits_nat mod)
  finally show ?thesis
    using False by (simp add: init_event_id_generator_def Let_def panic_def ns nth_append split: option.split)
qed (simp add: init_event_id_generator_def panic_def)

text \<open>
  The machine number of the generator is the node id, read as a big-endian number, modulo
  1024: the last ten bits of the key. An id of less than two bytes panics, and so does a
  second initialisation, which leaves the first generator in place.
\<close>

theorem machine_number:
  "init_event_id_generator env node_id ew =
    (if length node_id < 2 then (Inl (Panic ''index out of bounds''), ew)
     else if ew_generator ew \<noteq> None then (Inl (Panic ''EVENT_ID_GENERATOR already initialized''), ew)
     else (Inr (), ew\<lparr>ew_generator := Some (gen_new env (of_nat (be_nat node_id mod 1024)))\<rparr>))"
  by (rule init_event_id_generator_eq)

section \<open>Publishing\<close>

lemma outside_Inr: "outside f ew = (x, ew') \<longleftrightarrow> (\<exists>w. f (ew_outside ew) = (x, w) \<and> ew' = ew\<lparr>ew_outside := w\<rparr>)"
  by (auto simp: outside_def split: prod.splits)

lemma next_event_id_Inr:
  "next_event_id env ew = (Inr i, ew') \<Longrightarrow> ew_amqp_channel ew' = ew_amqp_channel ew"
  by (auto simp: next_event_id_def panic_def split: option.splits prod.splits)

lemma new_envelope_Inr:
  assumes "new_envelope env ty kind nid ver v ew = (Inr e, ew')"
  shows "ee_envelope_version e = 1 \<and> ee_event_type e = ty \<and> ee_source_kind e = kind \<and> ee_source_node_id e = nid \<and>
    ee_producer_version e = ver \<and> json_to_vec env v = Inr (ee_payload_json e) \<and> ew_amqp_channel ew' = ew_amqp_channel ew"
  using assms
  by (auto simp: new_envelope_def io_simps outside_Inr result_simps dest!: next_event_id_Inr)

text \<open>
  C23. A notification that is handled without error was given to the broker client exactly for the
  exchange of the configuration, over the current channel, and the client's own wait for the
  outcome ended without an error; the outcome itself (\<open>Ack\<close>, \<open>Nack\<close> or, since the plugin never
  turns publisher confirms on, \<open>NotRequested\<close>) is not looked at. What a consumer decodes
  carries the type of the event, the node's id, its kind and version, and the JSON text of
  the notification. Warnings are not published at all.
\<close>

theorem published_event:
  assumes "on_event env mb ty v ew = (Inr (), ew')"
    and law: "\<And>e bytes. prost_encode env e = Inr bytes \<Longrightarrow> decode bytes = Some e"
  shows "if ty = ''warning'' then ew' = ew
    else \<exists>ch bytes e w1 confirm w2 outcome. ew_amqp_channel ew = Some ch \<and>
      basic_publish env ch (mb_exchange_name mb) [] bytes w1 = (Inr confirm, w2) \<and>
      publisher_confirm env confirm w2 = (Inr outcome, ew_outside ew') \<and>
      decode bytes = Some e \<and> ee_envelope_version e = 1 \<and> ee_event_type e = ty \<and>
      ee_source_kind e = mb_source_kind mb \<and> ee_source_node_id e = mb_source_node_id mb \<and>
      ee_producer_version e = mb_producer_version mb \<and> json_to_vec env v = Inr (ee_payload_json e)"
proof (cases "ty = ''warning''")
  case True
  with assms(1) show ?thesis by (simp add: on_event_def on_warning_def io_simps)
next
  case False
  with assms(1) have "publish_event env mb ty v ew = (Inr (), ew')" by (simp add: on_event_def)
  then obtain e ew1 bytes where e: "new_envelope env ty (mb_source_kind mb) (mb_source_node_id mb) (mb_producer_version mb) v ew = (Inr e, ew1)"
    and bytes: "prost_encode env e = Inr bytes" and pub: "publish_bytes env mb bytes ew1 = (Inr (), ew')"
    by (auto simp: publish_event_def io_simps encode_envelope_def result_simps)
  from pub obtain ew2 where "publish_with env mb bytes (guard_taken ew1) = (Inr (), ew2)" "ew' = guard_dropped ew2"
    by (auto simp: publish_bytes_def split: prod.splits)
  then obtain ch w1 confirm w2 outcome where "ew_amqp_channel ew1 = Some ch"
    "basic_publish env ch (mb_exchange_name mb) [] bytes w1 = (Inr confirm, w2)"
    "publisher_confirm env confirm w2 = (Inr outcome, ew_outside ew')"
    by (auto simp: publish_with_def bail_def io_simps outside_Inr split: option.splits)
  moreover note new_envelope_Inr [OF e]
  moreover from calculation have "ew_amqp_channel ew = Some ch" by simp
  ultimately show ?thesis using law [OF bytes] unfolding if_not_P [OF False] by blast
qed

text \<open>A broker client whose world is the list of what it was sent.\<close>

definition sample_envelope :: event_envelope where
  "sample_envelope =
    \<lparr>ee_envelope_version = 1, ee_event_id = 4096, ee_event_type = ''connect'',
     ee_emitted_at = Some \<lparr>ts_seconds = 1700000000, ts_nanos = 5\<rparr>, ee_source_kind = 2,
     ee_source_node_id = [2, 3, 255], ee_producer_version = ''v25.12'', ee_payload_json = as_bytes ''null''\<rparr>"

definition sample_event_env :: "(nat, u64, (string \<times> u8 list) list) event_env" where
  "sample_event_env =
    \<lparr>gen_new = (\<lambda>machine. machine * 4096), gen_next = (\<lambda>g w. (g, g + 1, w)),
     since_epoch = (\<lambda>w. (Inr (1700000000, 5), w)),
     json_to_vec = (\<lambda>v. if v = JNull then Inr (as_bytes ''null'') else Inl ''not modelled''),
     prost_encode = (\<lambda>e. if e = sample_envelope then Inr [8, 1] else Inl ''not modelled''),
     basic_publish = (\<lambda>ch exchange key bytes w. (Inr 0, w @ [(exchange, bytes)])),
     publisher_confirm = (\<lambda>n w. (Inr NotRequested, w))\<rparr>"

definition sample_broker :: message_broker where
  "sample_broker = \<lparr>mb_exchange_name = ''cln.events'', mb_source_kind = 2, mb_source_node_id = [2, 3, 255],
     mb_producer_version = ''v25.12''\<rparr>"

definition sample_event_world :: "nat option \<Rightarrow> (nat, u64, (string \<times> u8 list) list) event_world" where
  "sample_event_world ch = 
    \<lparr>ew_amqp_channel = ch, ew_readers = 0, ew_write_wanted = False, ew_generator = Some 4096, ew_outside = []\<rparr>"

definition sample_decode :: "u8 list \<Rightarrow> event_envelope option" where
  "sample_decode bytes = (if bytes = [8, 1] then Some sample_envelope else None)"

lemma sample_decode_law: "prost_encode sample_event_env e = Inr bytes \<Longrightarrow> sample_decode bytes = Some e"
  by (auto simp: sample_event_env_def sample_decode_def split: if_splits)

lemma sample_published:
  "\<exists>ew'. on_event sample_event_env sample_broker ''connect'' JNull (sample_event_world (Some 7)) = (Inr (), ew')
     \<and> ew_outside ew' = [(''cln.events'', [8, 1])]"
  by (simp add: on_event_def publish_event_def new_envelope_def io_bind_def io_lib_def outside_def io_lift_eq io_return_eq
    next_event_id_def encode_envelope_def publish_bytes_def publish_with_def sample_event_world_def sample_event_env_def
    sample_broker_def sample_envelope_def)

theorem published_event_witness:
  "\<exists>ew' bytes e. on_event sample_event_env sample_broker ''connect'' JNull (sample_event_world (Some 7)) = (Inr (), ew') \<and>
     prost_encode sample_event_env e = Inr bytes \<and> ee_event_type e = ''connect'' \<and> ee_source_kind e = 2"
proof -
  obtain ew' where ew': "on_event sample_event_env sample_broker ''connect'' JNull (sample_event_world (Some 7)) = (Inr (), ew')"
    using sample_published by blast
  from published_event [OF ew', where decode = sample_decode, OF sample_decode_law] obtain bytes e where "sample_decode bytes = Some e"
      "ee_event_type e = ''connect''" "ee_source_kind e = 2"
    by (auto simp: sample_broker_def)
  moreover from this have "prost_encode sample_event_env e = Inr [8, 1]"
    by (auto simp: sample_event_env_def sample_decode_def split: if_splits)
  ultimately show ?thesis using ew' by blast
qed

text \<open>
  C35. Without a channel nothing reaches the broker, whatever its client would do, and every
  event but a warning is reported as an error that names the exchange: no loss is silent.
\<close>

theorem no_channel_no_publish:
  assumes "ew_amqp_channel ew = None"
  shows "on_event (env\<lparr>basic_publish := publish, publisher_confirm := confirm\<rparr>) mb ty v ew = on_event env mb ty v ew \<and>
    (ty \<noteq> ''warning'' \<longrightarrow> fst (on_event env mb ty v ew) \<noteq> Inr ())"
proof
  have keep: "ew_amqp_channel ew1 = None" if "new_envelope env ty k n ver v ew = (Inr e, ew1)" for k n ver e ew1
    using new_envelope_Inr [OF that] assms by simp
  have "next_event_id (env\<lparr>basic_publish := publish, publisher_confirm := confirm\<rparr>) = next_event_id env"
    by (rule ext) (simp add: next_event_id_def split: option.split)
  then have same: "new_envelope (env\<lparr>basic_publish := publish, publisher_confirm := confirm\<rparr>) = new_envelope env"
    "encode_envelope (env\<lparr>basic_publish := publish, publisher_confirm := confirm\<rparr>) = encode_envelope env"
    by (intro ext, simp add: new_envelope_def, intro ext, simp add: encode_envelope_def)
  show "on_event (env\<lparr>basic_publish := publish, publisher_confirm := confirm\<rparr>) mb ty v ew = on_event env mb ty v ew"
    using keep
    by (auto simp: on_event_def publish_event_def same io_bind_def io_lift_eq publish_bytes_def publish_with_def
      split: prod.splits sum.splits)
  show "ty \<noteq> ''warning'' \<longrightarrow> fst (on_event env mb ty v ew) \<noteq> Inr ()"
    using keep
    by (auto simp: on_event_def publish_event_def io_bind_def io_lift_eq publish_bytes_def publish_with_def bail_def
      split: prod.splits sum.splits)
qed

theorem no_channel_no_publish_witness:
  "fst (on_event sample_event_env sample_broker ''connect'' JNull (sample_event_world None)) \<noteq> Inr ()"
proof -
  have "ew_amqp_channel (sample_event_world None) = None" by (simp add: sample_event_world_def)
  from no_channel_no_publish [OF this, where env = sample_event_env and mb = sample_broker and ty = "''connect''" and v = JNull] show ?thesis by simp
qed

section \<open>A sequence of notifications\<close>

text \<open>
  The notifications lightningd sends, one after the other, with what each handler returned. A
  topic for which there is no callback is not handled.
\<close>

type_synonym ('ch, 'gen, 'w) event_callback = "message_broker \<Rightarrow> json \<Rightarrow> (('ch, 'gen, 'w) event_world, unit) io"

fun serve_notifications :: "(string \<Rightarrow> ('ch, 'gen, 'w) event_callback option) \<Rightarrow> message_broker \<Rightarrow> (string \<times> json) list
    \<Rightarrow> ('ch, 'gen, 'w) event_world \<Rightarrow> unit result list \<times> ('ch, 'gen, 'w) event_world" where
  "serve_notifications callback mb [] ew = ([], ew)"
| "serve_notifications callback mb ((topic, v) # ns) ew =
     (case callback topic of
        None \<Rightarrow> serve_notifications callback mb ns ew
      | Some cb \<Rightarrow>
          (case cb mb v ew of (r, ew1) \<Rightarrow>
           case serve_notifications callback mb ns ew1 of (rs, ew2) \<Rightarrow> (r # rs, ew2)))"

text \<open>These notifications, each handled once, in this order, under its own type.\<close>

fun handled_in_turn :: "('ch, 'gen, 'w) event_env \<Rightarrow> message_broker \<Rightarrow> (string \<times> json) list
    \<Rightarrow> ('ch, 'gen, 'w) event_world \<Rightarrow> unit result list \<Rightarrow> ('ch, 'gen, 'w) event_world \<Rightarrow> bool" where
  "handled_in_turn env mb [] ew rs ew' \<longleftrightarrow> rs = [] \<and> ew' = ew"
| "handled_in_turn env mb (n # ns) ew rs ew' \<longleftrightarrow>
    (\<exists>r rs' ew1. rs = r # rs' \<and> on_event env mb (fst n) (snd n) ew = (r, ew1) \<and> handled_in_turn env mb ns ew1 rs' ew')"

lemma outside_keeps:
  "outside f ew = (x, ew') \<Longrightarrow> ew_generator ew' = ew_generator ew \<and> ew_amqp_channel ew' = ew_amqp_channel ew \<and>
     ew_readers ew' = ew_readers ew"
  by (auto simp: outside_Inr)

lemma publish_event_keeps:
  assumes "ew_generator ew \<noteq> None"
  shows "ew_generator (snd (publish_event env mb ty v ew)) \<noteq> None \<and>
    ew_amqp_channel (snd (publish_event env mb ty v ew)) = ew_amqp_channel ew \<and>
    ew_readers (snd (publish_event env mb ty v ew)) = ew_readers ew \<and>
    (\<forall>msg. fst (publish_event env mb ty v ew) \<noteq> Inl (Panic msg))"
proof -
  have lib: "from_lib r \<noteq> Inl (Panic msg)" for r :: "string + 'a" and msg by (cases r) auto
  have env1: "ew_generator (snd (new_envelope env ty k n ver v ew)) \<noteq> None \<and>
      ew_amqp_channel (snd (new_envelope env ty k n ver v ew)) = ew_amqp_channel ew \<and>
      ew_readers (snd (new_envelope env ty k n ver v ew)) = ew_readers ew \<and>
      (\<forall>msg. fst (new_envelope env ty k n ver v ew) \<noteq> Inl (Panic msg))" for k n ver
    using assms
    by (auto simp: new_envelope_def io_bind_def io_lib_def outside_def io_lift_eq io_return_eq next_event_id_def
      split: prod.splits sum.splits elim: from_lib.elims)
  have pub: "ew_generator (snd (publish_bytes env mb bytes ew1)) = ew_generator ew1 \<and>
      ew_amqp_channel (snd (publish_bytes env mb bytes ew1)) = ew_amqp_channel ew1 \<and>
      ew_readers (snd (publish_bytes env mb bytes ew1)) = ew_readers ew1 \<and>
      (\<forall>msg. fst (publish_bytes env mb bytes ew1) \<noteq> Inl (Panic msg))" for bytes ew1
    by (auto simp: publish_bytes_def publish_with_def bail_def io_bind_def io_lib_def outside_def io_return_eq
      split: prod.splits sum.splits option.splits elim: from_lib.elims)
  obtain r ew1 where r: "new_envelope env ty (mb_source_kind mb) (mb_source_node_id mb) (mb_producer_version mb) v ew = (r, ew1)"
    by (cases "new_envelope env ty (mb_source_kind mb) (mb_source_node_id mb) (mb_producer_version mb) v ew")
  show ?thesis
    using env1 [of "mb_source_kind mb" "mb_source_node_id mb" "mb_producer_version mb"] pub
    by (cases r; cases "prost_encode env (projr r)")
       (auto simp: publish_event_def io_bind_def r io_lift_eq encode_envelope_def)
qed

lemma on_event_keeps:
  assumes "ew_generator ew \<noteq> None" and "on_event env mb ty v ew = (r, ew')"
  shows "ew_generator ew' \<noteq> None \<and> ew_amqp_channel ew' = ew_amqp_channel ew \<and> ew_readers ew' = ew_readers ew \<and>
    (\<forall>msg. r \<noteq> Inl (Panic msg))"
  using publish_event_keeps [OF assms(1), of env mb ty v] assms
  by (auto simp: on_event_def on_warning_def io_return_eq split: if_splits)

lemma handled_keeps:
  "ew_generator ew \<noteq> None \<Longrightarrow> handled_in_turn env mb ns ew rs ew' \<Longrightarrow>
     ew_generator ew' \<noteq> None \<and> ew_amqp_channel ew' = ew_amqp_channel ew \<and> ew_readers ew' = ew_readers ew \<and>
     (\<forall>msg. Inl (Panic msg) \<notin> set rs)"
proof (induction ns arbitrary: ew rs)
  case (Cons n ns)
  then obtain r rs' ew1 where r: "rs = r # rs'" "on_event env mb (fst n) (snd n) ew = (r, ew1)"
    "handled_in_turn env mb ns ew1 rs' ew'" by auto
  with on_event_keeps [OF Cons.prems(1) r(2)] Cons.IH [OF _ r(3)] show ?case by auto
qed simp

text \<open>
  Once the identifier generator is initialised, the HTLC hook answers \<open>continue\<close> whatever
  fails inside it, and takes neither the generator nor the channel away. The start-up does
  not register this handler: the source keeps it unused.
\<close>

theorem event_hook_never_blocks:
  assumes "ew_generator ew \<noteq> None"
  shows "\<exists>ew'. hook_htlc_accepted env mb v ew = (Inr json_continue, ew') \<and>
    ew_generator ew' \<noteq> None \<and> ew_amqp_channel ew' = ew_amqp_channel ew"
proof -
  obtain r ew1 where r: "publish_event env mb ''htlc_accepted_hook'' v ew = (r, ew1)"
    by (cases "publish_event env mb ''htlc_accepted_hook'' v ew")
  from publish_event_keeps [OF assms, of env mb "''htlc_accepted_hook''" v, unfolded r, simplified]
  show ?thesis
    by (auto simp: hook_htlc_accepted_def io_catch_def r io_return_eq split: sum.split error.split)
qed

theorem event_hook_never_blocks_witness:
  "fst (hook_htlc_accepted sample_event_env sample_broker JNull (sample_event_world None)) = Inr json_continue"
proof -
  have "ew_generator (sample_event_world None) \<noteq> None" by (simp add: sample_event_world_def)
  from event_hook_never_blocks [OF this, of sample_event_env sample_broker JNull] show ?thesis by auto
qed

end
