(* ===== verification/EventMain.thy ===== *)
theory EventMain
  imports Event Options
begin

text \<open>
  The event plugin's \<open>config.rs\<close> and \<open>main.rs\<close>: which notifications it subscribes to, the raw
  \<open>getinfo\<close> exchange over the RPC socket, the connection to RabbitMQ, and the start-up that
  puts them together. The \<open>config\<close>, \<open>cln_plugin\<close> and \<open>lapin\<close> crates, the socket and the
  decoders are fields of the environments. A start-up that never gets an answer from the
  socket does not return: it is the value \<open>None\<close>.
\<close>

section \<open>config.rs\<close>

definition ENV_PREFIX :: string where "ENV_PREFIX = ''EVENT_PLUGIN''"
definition CFG_EVENTS_KEY :: string where "CFG_EVENTS_KEY = ''events''"
definition CFG_CONFIG_KEY :: string where "CFG_CONFIG_KEY = ''config''"

definition DEFAULT_EVENTS :: "string list" where
  "DEFAULT_EVENTS =
    [''connect'', ''disconnect'', ''invoice_creation'', ''invoice_payment'', ''channel_opened'',
     ''channel_open_failed'', ''channel_state_changed'', ''forward_event'', ''block_added'',
     ''custommsg'', ''warning'', ''sendpay_success'', ''sendpay_failure'', ''coin_movement'',
     ''openchannel_peer_sigs'', ''onionmessage_forward_fail'', ''pay_part_start'', ''pay_part_end'']"

text \<open>
  The builder of the \<open>config\<close> crate. An \<open>env_source\<close> is the description of an \<open>Environment\<close>
  that the code builds up; a source is that or a file.
\<close>

record env_source =
  es_prefix :: string
  es_ignore_empty :: bool
  es_try_parsing :: bool
  es_list_separator :: "string option"
  es_list_parse_key :: "string option"

datatype config_source = From_env env_source | From_file string bool

record ('b, 'c) config_crate =
  cc_builder :: 'b
  cc_set_default :: "'b \<Rightarrow> string \<Rightarrow> string list \<Rightarrow> string + 'b"
  cc_add_source :: "'b \<Rightarrow> config_source \<Rightarrow> 'b"
  cc_build :: "'b \<Rightarrow> string + 'c"
  cc_get_string :: "'c \<Rightarrow> string \<Rightarrow> string + string"
  cc_get_list :: "'c \<Rightarrow> string \<Rightarrow> string + string list"

definition event_plugin_env :: env_source where
  "event_plugin_env = \<lparr>es_prefix = ENV_PREFIX, es_ignore_empty = True, es_try_parsing = False,
     es_list_separator = None, es_list_parse_key = None\<rparr>"

definition resolve_event_types :: "('b, 'c) config_crate \<Rightarrow> string list result" where
  "resolve_event_types cc =
    (let env = event_plugin_env in
     and_then (from_lib (cc_set_default cc (cc_builder cc) CFG_EVENTS_KEY DEFAULT_EVENTS)) (\<lambda>builder.
     and_then (from_lib (cc_build cc (cc_add_source cc (cc_builder cc) (From_env env)))) (\<lambda>pre.
     let builder = (case cc_get_string cc pre CFG_CONFIG_KEY of
                      Inr path \<Rightarrow> cc_add_source cc builder (From_file path False)
                    | Inl _ \<Rightarrow> builder) in
     and_then (from_lib (cc_build cc (cc_add_source cc builder
       (From_env (env\<lparr>es_try_parsing := True, es_list_separator := Some '','', es_list_parse_key := Some CFG_EVENTS_KEY\<rparr>))))) (\<lambda>config.
     and_then (from_lib (cc_get_list cc config CFG_EVENTS_KEY)) (\<lambda>events.
     Inr events)))))"

section \<open>The secret\<close>

datatype secret = Secret string

fun inner :: "secret \<Rightarrow> string" where
  "inner (Secret s) = s"

text \<open>\<open>Debug\<close> and \<open>Display\<close>.\<close>

definition secret_debug :: "secret \<Rightarrow> string" where
  "secret_debug s = ''*****''"

definition secret_display :: "secret \<Rightarrow> string" where
  "secret_display s = ''*****''"

section \<open>getinfo over the socket\<close>

record node_info =
  ni_node_id :: "u8 list"
  ni_version :: string

text \<open>The loop of reads: one chunk at a time, until what has come so far is a document.\<close>

partial_function (option) read_response ::
  "('w \<Rightarrow> (string + u8 list) \<times> 'w) \<Rightarrow> (u8 list \<Rightarrow> string + json) \<Rightarrow> u8 list \<Rightarrow> 'w \<Rightarrow> (json result \<times> 'w) option"
where
  "read_response read parse buf w =
    (case read w of
       (Inl e, w') \<Rightarrow> Some (Inl (Anyhow [e]), w')
     | (Inr chunk, w') \<Rightarrow>
         if chunk = [] then Some (bail ''RPC socket closed before response'', w')
         else
           (case parse (buf @ chunk) of
              Inr v \<Rightarrow> Some (Inr v, w')
            | Inl _ \<Rightarrow> read_response read parse (buf @ chunk) w'))"

record 'w socket_env =
  sk_connect :: "string \<Rightarrow> 'w \<Rightarrow> (string + unit) \<times> 'w"
  sk_write_all :: "u8 list \<Rightarrow> 'w \<Rightarrow> (string + unit) \<times> 'w"
  sk_read :: "'w \<Rightarrow> (string + u8 list) \<times> 'w"
  sk_shutdown :: "'w \<Rightarrow> (string + unit) \<times> 'w"
  sk_join_path :: "string \<Rightarrow> string \<Rightarrow> string"
  sk_to_vec :: "json \<Rightarrow> string + u8 list"
  sk_from_slice :: "u8 list \<Rightarrow> string + json"
  sk_hex_decode :: "string \<Rightarrow> string + u8 list"

definition getinfo_request :: json where
  "getinfo_request = JObject
    [(''id'', JNumber (PosInt 1)), (''jsonrpc'', JString ''2.0''), (''method'', JString ''getinfo''), (''params'', JObject [])]"

definition as_str :: "json \<Rightarrow> string option" where
  "as_str v = (case v of JString s \<Rightarrow> Some s | _ \<Rightarrow> None)"

definition node_info_of :: "(string \<Rightarrow> string + u8 list) \<Rightarrow> json \<Rightarrow> node_info result" where
  "node_info_of hex_decode response =
    and_then (ok_or ''getinfo response missing result.id''
      (Option.bind (json_at [Key ''result'', Key ''id''] response) as_str)) (\<lambda>id_hex.
    and_then (ok_or ''getinfo response missing field result.version''
      (Option.bind (json_at [Key ''result'', Key ''version''] response) as_str)) (\<lambda>version.
    and_then (with_context ''failed to decode node_id hex'' (from_lib (hex_decode id_hex))) (\<lambda>node_id.
    Inr \<lparr>ni_node_id = node_id, ni_version = version\<rparr>)))"

definition send_request :: "'w socket_env \<Rightarrow> string \<Rightarrow> ('w, unit) io" where
  "send_request sk socket_path =
    io_bind (io_context (''failed to connect to RPC socket at '' @ socket_path) (io_lib (sk_connect sk socket_path))) (\<lambda>_.
    io_bind (io_lift (from_lib (sk_to_vec sk getinfo_request))) (\<lambda>request_bytes.
    io_lib (sk_write_all sk (request_bytes @ as_bytes [CHR 0x0A, CHR 0x0A]))))"

definition rpc_getinfo_node_id ::
  "'w socket_env \<Rightarrow> string \<Rightarrow> string \<Rightarrow> 'w \<Rightarrow> (node_info result \<times> 'w) option" where
  "rpc_getinfo_node_id sk lightning_dir rpc_file w =
    (case send_request sk (sk_join_path sk lightning_dir rpc_file) w of
       (Inl e, w1) \<Rightarrow> Some (Inl e, w1)
     | (Inr _, w1) \<Rightarrow>
         (case read_response (sk_read sk) (sk_from_slice sk) [] w1 of
            None \<Rightarrow> None
          | Some (Inl e, w2) \<Rightarrow> Some (Inl e, w2)
          | Some (Inr response, w2) \<Rightarrow>
              (case sk_shutdown sk w2 of (_, w3) \<Rightarrow>
                Some (node_info_of (sk_hex_decode sk) response, w3))))"

section \<open>Options and RabbitMQ\<close>

datatype option_value =
    Opt_String string | Opt_Integer i64 | Opt_Boolean bool | Opt_StringArray "string list" | Opt_IntegerArray "i64 list"

definition get_configured_string_option :: "(string \<Rightarrow> string + option_value option) \<Rightarrow> string \<Rightarrow> string option" where
  "get_configured_string_option option_str option_name =
    (case option_str option_name of
       Inr (Some (Opt_String s)) \<Rightarrow> if s \<noteq> [] then Some s else None
     | _ \<Rightarrow> None)"

record ('conn, 'ch, 'w) rabbitmq =
  rb_connect :: "string \<Rightarrow> 'w \<Rightarrow> (string + 'conn) \<times> 'w"
  rb_create_channel :: "'conn \<Rightarrow> 'w \<Rightarrow> (string + 'ch) \<times> 'w"
  rb_exchange_declare_passive :: "'ch \<Rightarrow> string \<Rightarrow> 'w \<Rightarrow> (string + unit) \<times> 'w"
  rb_queue_declare_passive :: "'ch \<Rightarrow> string \<Rightarrow> 'w \<Rightarrow> (string + unit) \<times> 'w"
  rb_close :: "'conn \<Rightarrow> 'w \<Rightarrow> (string + unit) \<times> 'w"

definition connect_rabbitmq ::
  "('conn, 'ch, 'w) rabbitmq \<Rightarrow> secret \<Rightarrow> string \<Rightarrow> string \<Rightarrow> (('ch, 'gen, 'w) event_world, 'conn) io" where
  "connect_rabbitmq rb url exchange_name queue_name =
    io_bind (io_context (''failed to connect to rabbit_mq at '' @ secret_display url)
      (io_lib (outside (rb_connect rb (inner url))))) (\<lambda>conn.
    io_bind (io_lib (outside (rb_create_channel rb conn))) (\<lambda>ch.
    io_bind (io_context (''failed to verify exchange '' @ [CHR 0x27] @ exchange_name @ [CHR 0x27] @ '' in RabbitMQ'')
      (io_lib (outside (rb_exchange_declare_passive rb ch exchange_name)))) (\<lambda>_.
    io_bind (io_context (''failed to verify queue '' @ [CHR 0x27] @ queue_name @ [CHR 0x27] @ '' in RabbitMQ'')
      (io_lib (outside (rb_queue_declare_passive rb ch queue_name)))) (\<lambda>_.
    (\<lambda>ew. (Inr conn, ew\<lparr>ew_amqp_channel := Some ch\<rparr>))))))"

section \<open>main\<close>

definition DEFAULT_EXCHANGE_NAME :: string where "DEFAULT_EXCHANGE_NAME = ''cln.events''"
definition DEFAULT_QUEUE_NAME :: string where "DEFAULT_QUEUE_NAME = ''events''"

definition event_plugin :: "string list \<Rightarrow> declared_plugin" where
  "event_plugin event_types =
    \<lparr>dp_options = [''rabbitmq-url'', ''rabbitmq-exchange'', ''rabbitmq-queue'', ''source-kind''],
     dp_rpcmethods = [], dp_subscriptions = event_types, dp_hooks = [], dp_dynamic = True\<rparr>"

record configured_plugin =
  cp_option_str :: "string \<Rightarrow> string + option_value option"
  cp_lightning_dir :: string
  cp_rpc_file :: string

text \<open>
  \<open>em_configure\<close> is the handshake, which announces the declared plugin; \<open>em_dispatch\<close> is how
  \<open>cln_plugin\<close> finds the callback of a topic among the subscriptions; \<open>em_notifications\<close> are what
  lightningd sends between the start and the end of the plugin. No hook is registered.
\<close>

record ('conn, 'ch, 'gen, 'w) event_main_env =
  em_event :: "('ch, 'gen, 'w) event_env"
  em_socket :: "'w socket_env"
  em_rabbitmq :: "('conn, 'ch, 'w) rabbitmq"
  em_configure :: "declared_plugin \<Rightarrow> 'w \<Rightarrow> (string + configured_plugin option) \<times> 'w"
  em_disable :: "string \<Rightarrow> 'w \<Rightarrow> (string + unit) \<times> 'w"
  em_start :: "message_broker \<Rightarrow> 'w \<Rightarrow> (string + unit) \<times> 'w"
  em_dispatch :: "(string \<times> ('ch, 'gen, 'w) event_callback) list \<Rightarrow> string \<Rightarrow> ('ch, 'gen, 'w) event_callback option"
  em_notifications :: "(string \<times> json) list"
  em_join :: "'w \<Rightarrow> (string + unit) \<times> 'w"

datatype 'conn setup_outcome = Ready 'conn message_broker | Stopped

text \<open>\<open>_ = configured.disable(msg).await; bail!(msg)\<close> and \<open>configured.disable(msg).await?; return Ok(())\<close>.\<close>

definition disable_and_bail ::
  "('conn, 'ch, 'gen, 'w) event_main_env \<Rightarrow> string \<Rightarrow> (('ch, 'gen, 'w) event_world, 'conn setup_outcome) io" where
  "disable_and_bail env msg ew = (case outside (em_disable env msg) ew of (_, ew') \<Rightarrow> (bail msg, ew'))"

definition disable_and_return ::
  "('conn, 'ch, 'gen, 'w) event_main_env \<Rightarrow> string \<Rightarrow> (('ch, 'gen, 'w) event_world, 'conn setup_outcome) io" where
  "disable_and_return env msg = io_bind (io_lib (outside (em_disable env msg))) (\<lambda>_. io_return Stopped)"

definition event_connect ::
  "('conn, 'ch, 'gen, 'w) event_main_env \<Rightarrow> secret \<Rightarrow> string \<Rightarrow> string \<Rightarrow> i32 \<Rightarrow> node_info
    \<Rightarrow> (('ch, 'gen, 'w) event_world, 'conn setup_outcome) io" where
  "event_connect env url exchange_name queue_name source_kind node_info =
    io_bind (init_event_id_generator (em_event env) (ni_node_id node_info)) (\<lambda>_.
    io_catch (connect_rabbitmq (em_rabbitmq env) url exchange_name queue_name) (\<lambda>r.
      case r of
        Inr conn \<Rightarrow> io_return (Ready conn
          (message_broker_new exchange_name source_kind (ni_node_id node_info) (ni_version node_info)))
      | Inl (Anyhow chain) \<Rightarrow> disable_and_return env (join '': '' chain)
      | Inl (Panic msg) \<Rightarrow> io_lift (Inl (Panic msg))))"

definition event_source_kind ::
  "('conn, 'ch, 'gen, 'w) event_main_env \<Rightarrow> configured_plugin \<Rightarrow> secret \<Rightarrow> string \<Rightarrow> string \<Rightarrow> node_info
    \<Rightarrow> (('ch, 'gen, 'w) event_world, 'conn setup_outcome) io" where
  "event_source_kind env configured url exchange_name queue_name node_info =
    (case get_configured_string_option (cp_option_str configured) ''source-kind'' of
       None \<Rightarrow> disable_and_bail env ([CHR 0x27] @ ''source-kind'' @ [CHR 0x27] @ '' option is required but not set'')
     | Some source_kind_str \<Rightarrow>
         if source_kind_str = ''gateway'' then event_connect env url exchange_name queue_name 1 node_info
         else if source_kind_str = ''lsp'' then event_connect env url exchange_name queue_name 2 node_info
         else disable_and_return env ([CHR 0x27] @ ''source-kind'' @ [CHR 0x27] @ '' must be '' @ [CHR 0x27] @ ''gateway'' @ [CHR 0x27]
           @ '' or '' @ [CHR 0x27] @ ''lsp'' @ [CHR 0x27] @ '', got '' @ [CHR 0x27] @ source_kind_str @ [CHR 0x27]))"

definition event_setup ::
  "('conn, 'ch, 'gen, 'w) event_main_env \<Rightarrow> string list result \<Rightarrow> ('ch, 'gen, 'w) event_world
    \<Rightarrow> ('conn setup_outcome result \<times> ('ch, 'gen, 'w) event_world) option" where
  "event_setup env event_types ew =
    (case outside (em_configure env (event_plugin (case event_types of Inr types \<Rightarrow> types | Inl _ \<Rightarrow> []))) ew of
       (Inl e, ew1) \<Rightarrow> Some (Inl (Anyhow [e]), ew1)
     | (Inr None, ew1) \<Rightarrow> Some (bail ''failed to configure event-plugin'', ew1)
     | (Inr (Some configured), ew1) \<Rightarrow>
         (case event_types of
            Inl (Panic msg) \<Rightarrow> Some (Inl (Panic msg), ew1)
          | Inl (Anyhow chain) \<Rightarrow> Some (disable_and_bail env (join '': '' chain) ew1)
          | Inr _ \<Rightarrow>
              (case get_configured_string_option (cp_option_str configured) ''rabbitmq-url'' of
                 None \<Rightarrow> Some (disable_and_bail env ([CHR 0x27] @ ''rabbitmq-url'' @ [CHR 0x27] @ '' option is required but not set'') ew1)
               | Some url \<Rightarrow>
                   (let exchange_name = (case get_configured_string_option (cp_option_str configured) ''rabbitmq-exchange'' of
                          Some s \<Rightarrow> s | None \<Rightarrow> DEFAULT_EXCHANGE_NAME);
                        queue_name = (case get_configured_string_option (cp_option_str configured) ''rabbitmq-queue'' of
                          Some s \<Rightarrow> s | None \<Rightarrow> DEFAULT_QUEUE_NAME) in
                    case rpc_getinfo_node_id (em_socket env) (cp_lightning_dir configured) (cp_rpc_file configured) (ew_outside ew1) of
                      None \<Rightarrow> None
                    | Some (Inl e, w2) \<Rightarrow> Some (Inl e, ew1\<lparr>ew_outside := w2\<rparr>)
                    | Some (Inr node_info, w2) \<Rightarrow>
                        Some (event_source_kind env configured (Secret url) exchange_name queue_name node_info (ew1\<lparr>ew_outside := w2\<rparr>))))))"

text \<open>
  The loop of \<open>main\<close> over the configured types: each is subscribed with a closure that calls
  \<open>on_event\<close> with that type. Without a list of types there is no subscription.
\<close>

definition event_subscriptions ::
  "('ch, 'gen, 'w) event_env \<Rightarrow> string list result \<Rightarrow> (string \<times> ('ch, 'gen, 'w) event_callback) list" where
  "event_subscriptions env event_types =
    (case event_types of
       Inr types \<Rightarrow> map (\<lambda>event_type. (event_type, \<lambda>p v. on_event env p event_type v)) types
     | Inl _ \<Rightarrow> [])"

text \<open>
  \<open>main\<close>: the results of the handlers, which \<open>cln_plugin\<close> logs, its own result and the world it
  leaves. At its end no guard is alive, so that the write lock is had at once.
\<close>

definition event_main ::
  "('conn, 'ch, 'gen, 'w) event_main_env \<Rightarrow> string list result \<Rightarrow> 'w
    \<Rightarrow> (unit result list \<times> unit result \<times> ('ch, 'gen, 'w) event_world) option" where
  "event_main env event_types w =
    (case event_setup env event_types (event_world_new w) of
       None \<Rightarrow> None
     | Some (Inl e, ew) \<Rightarrow> Some ([], Inl e, ew)
     | Some (Inr Stopped, ew) \<Rightarrow> Some ([], Inr (), ew)
     | Some (Inr (Ready conn broker), ew) \<Rightarrow>
         (case outside (em_start env broker) ew of
            (Inl e, ew1) \<Rightarrow> Some ([], Inl (Anyhow [e]), ew1)
          | (Inr _, ew1) \<Rightarrow>
              (case serve_notifications (em_dispatch env (event_subscriptions (em_event env) event_types)) broker
                  (em_notifications env) ew1 of
                 (handled, ew2) \<Rightarrow>
                   (case outside (em_join env) ew2 of
                      (Inl e, ew3) \<Rightarrow> Some (handled, Inl (Anyhow [e]), ew3)
                    | (Inr _, ew3) \<Rightarrow>
                        (case outside (rb_close (em_rabbitmq env) conn) (channel_cleared (write_queued ew3)) of
                           (_, ew4) \<Rightarrow> Some (handled, Inr (), ew4))))))"

end
