(* ===== verification/EventTasks.thy ===== *)
theory EventTasks
  imports EventMain
begin

text \<open>
  The handlers of \<open>event-plugin/src/events.rs\<close> as tasks. The runtime runs a task per
  notification and may switch between them wherever one waits: at the generator of identifiers,
  for the read guard of the channel, and at the two calls of the broker client. A task is what
  is left to do of \<open>on_event\<close>; the system is the list of tasks, the stage of \<open>main\<close>, the
  shared cells and the outside. Run together, in any interleaving, the tasks publish each
  notification at most once and under an identifier of its own. What they do while \<open>main\<close>
  shuts the plugin down is in \<open>EventShutdown\<close>.
\<close>

section \<open>Identifiers\<close>

text \<open>The layout given to \<open>define_snowflake_id!\<close>, from the low bits up.\<close>

definition ID_SEQUENCE_BITS :: nat where "ID_SEQUENCE_BITS = 12"
definition ID_MACHINE_BITS :: nat where "ID_MACHINE_BITS = 10"

definition id_machine :: "u64 \<Rightarrow> nat" where
  "id_machine i = unat i div 2 ^ ID_SEQUENCE_BITS mod 2 ^ ID_MACHINE_BITS"

text \<open>
  What the generator documents: its identifiers are fresh (while there are fewer than \<open>2^40\<close> of
  them) and carry its machine number.
\<close>

definition generator_documented ::
  "('ch, 'gen, 'w) event_env \<Rightarrow> ('gen \<Rightarrow> u64 set) \<Rightarrow> ('gen \<Rightarrow> nat) \<Rightarrow> bool" where
  "generator_documented env issued machine \<longleftrightarrow>
    (\<forall>m. issued (gen_new env m) = {} \<and> (unat m < 2 ^ ID_MACHINE_BITS \<longrightarrow> machine (gen_new env m) = unat m)) \<and>
    (\<forall>g w i g' w'. gen_next env g w = (i, g', w') \<longrightarrow> card (issued g) < 2 ^ 40 \<longrightarrow>
      i \<notin> issued g \<and> issued g' = insert i (issued g) \<and> machine g' = machine g \<and> id_machine i = machine g)"

section \<open>Tasks\<close>

text \<open>
  Where a task stands: before the clock, the generator, the encoding, the read guard, the
  sending (with the guard) and the outcome (with the guard); at the end it keeps the envelope it
  made, if it made one, and its result.
\<close>

datatype event_task =
    Started string json
  | Stamped string json "nat \<times> nat"
  | Numbered string json "nat \<times> nat" u64
  | Encoded event_envelope "u8 list"
  | Guarded event_envelope "u8 list"
  | Sent event_envelope nat
  | Ended "event_envelope option" "unit result"

definition envelope_of :: "message_broker \<Rightarrow> string \<Rightarrow> nat \<times> nat \<Rightarrow> u64 \<Rightarrow> u8 list \<Rightarrow> event_envelope" where
  "envelope_of mb ty now event_id payload_json =
    \<lparr>ee_envelope_version = 1, ee_event_id = event_id, ee_event_type = ty,
     ee_emitted_at = Some \<lparr>ts_seconds = of_nat (fst now), ts_nanos = of_nat (snd now)\<rparr>,
     ee_source_kind = mb_source_kind mb, ee_source_node_id = mb_source_node_id mb,
     ee_producer_version = mb_producer_version mb, ee_payload_json = payload_json\<rparr>"

fun task_step :: "('ch, 'gen, 'w) event_env \<Rightarrow> message_broker \<Rightarrow> event_task
    \<Rightarrow> ('ch, 'gen, 'w) event_world \<Rightarrow> event_task \<times> ('ch, 'gen, 'w) event_world" where
  "task_step env mb (Started ty v) ew =
    (if ty = ''warning'' then (case on_warning v ew of (r, ew') \<Rightarrow> (Ended None r, ew'))
     else case io_lib (outside (since_epoch env)) ew of
       (Inl e, ew') \<Rightarrow> (Ended None (Inl e), ew')
     | (Inr now, ew') \<Rightarrow> (Stamped ty v now, ew'))"
| "task_step env mb (Stamped ty v now) ew =
    (case next_event_id env ew of
       (Inl e, ew') \<Rightarrow> (Ended None (Inl e), ew')
     | (Inr event_id, ew') \<Rightarrow> (Numbered ty v now event_id, ew'))"
| "task_step env mb (Numbered ty v now event_id) ew =
    (case from_lib (json_to_vec env v) of
       Inl e \<Rightarrow> (Ended None (Inl e), ew)
     | Inr payload \<Rightarrow>
         (let envelope = envelope_of mb ty now event_id payload in
          case encode_envelope env envelope of
            Inl e \<Rightarrow> (Ended None (Inl e), ew)
          | Inr bytes \<Rightarrow> (Encoded envelope bytes, ew)))"
| "task_step env mb (Encoded envelope bytes) ew = (Guarded envelope bytes, guard_taken ew)"
| "task_step env mb (Guarded envelope bytes) ew =
    (case ew_amqp_channel ew of
       None \<Rightarrow> (Ended (Some envelope) (bail (''No AMQP channel available, cannot publish to '' @ mb_exchange_name mb)),
         guard_dropped ew)
     | Some ch \<Rightarrow>
         (case io_lib (outside (basic_publish env ch (mb_exchange_name mb) [] bytes)) ew of
            (Inl e, ew') \<Rightarrow> (Ended (Some envelope) (Inl e), guard_dropped ew')
          | (Inr confirm, ew') \<Rightarrow> (Sent envelope confirm, ew')))"
| "task_step env mb (Sent envelope confirm) ew =
    (case io_lib (outside (publisher_confirm env confirm)) ew of
       (Inl e, ew') \<Rightarrow> (Ended (Some envelope) (Inl e), guard_dropped ew')
     | (Inr _, ew') \<Rightarrow> (Ended (Some envelope) (Inr ()), guard_dropped ew'))"
| "task_step env mb (Ended sent r) ew = (Ended sent r, ew)"

definition run_task :: "('ch, 'gen, 'w) event_env \<Rightarrow> message_broker \<Rightarrow> nat \<Rightarrow> event_task
    \<Rightarrow> ('ch, 'gen, 'w) event_world \<Rightarrow> event_task \<times> ('ch, 'gen, 'w) event_world" where
  "run_task env mb n t ew = ((\<lambda>(t, ew). task_step env mb t ew) ^^ n) (t, ew)"

lemma run_task_Suc: "run_task env mb (Suc n) t ew = (case task_step env mb t ew of (t', ew') \<Rightarrow> run_task env mb n t' ew')"
  by (simp add: run_task_def funpow_Suc_right case_prod_beta del: funpow.simps)

lemma run_task_0: "run_task env mb 0 t ew = (t, ew)"
  by (simp add: run_task_def)

lemma run_task_Ended: "run_task env mb n (Ended sent r) ew = (Ended sent r, ew)"
  by (induction n) (simp_all add: run_task_0 run_task_Suc)

text \<open>
  A task that is left alone is the handler: it ends after at most six steps, with the result of
  \<open>on_event\<close> and the world that \<open>on_event\<close> leaves.
\<close>

lemma task_alone:
  "\<exists>sent. run_task env mb 6 (Started ty v) ew =
     (Ended sent (fst (on_event env mb ty v ew)), snd (on_event env mb ty v ew))"
proof -
  have six: "run_task env mb 6 t ew' = (case task_step env mb t ew' of (t1, ew1) \<Rightarrow>
      case task_step env mb t1 ew1 of (t2, ew2) \<Rightarrow> case task_step env mb t2 ew2 of (t3, ew3) \<Rightarrow>
      case task_step env mb t3 ew3 of (t4, ew4) \<Rightarrow> case task_step env mb t4 ew4 of (t5, ew5) \<Rightarrow>
      task_step env mb t5 ew5)" for t ew'
    by (simp add: eval_nat_numeral run_task_Suc run_task_0 case_prod_beta)
  show ?thesis
  proof (cases "ty = ''warning''")
    case True
    then show ?thesis by (simp add: six on_event_def on_warning_def io_return_eq)
  next
    case False
    show ?thesis
      unfolding six on_event_def if_not_P [OF False] publish_event_def new_envelope_def publish_bytes_def publish_with_def
      by (simp add: False io_bind_def io_lift_eq io_return_eq envelope_of_def bail_def Let_def
        split: prod.split sum.split option.split)
  qed
qed

section \<open>The system\<close>

text \<open>
  The tasks, what was handed to the broker client so far (with the task that sent it; nothing
  reads it), the stage of \<open>main\<close> (in \<open>join\<close>, waiting for the write lock, past it), and the shared
  world. A move is a new notification, a step of some task, a step of \<open>main\<close>, or something
  outside.
\<close>

datatype main_stage = Joining | Clearing | Cleared

record ('ch, 'gen, 'w) event_system =
  es_tasks :: "event_task list"
  es_sent :: "(nat \<times> u8 list) list"
  es_main :: main_stage
  es_world :: "('ch, 'gen, 'w) event_world"

datatype event_move = Arrives string json | Runs nat | Closes | Clears | Outside

definition sends :: "('ch, 'gen, 'w) event_world \<Rightarrow> event_task \<Rightarrow> u8 list option" where
  "sends ew t = (case t of Guarded envelope bytes \<Rightarrow> if ew_amqp_channel ew = None then None else Some bytes | _ \<Rightarrow> None)"

definition log_send :: "nat \<Rightarrow> u8 list option \<Rightarrow> (nat \<times> u8 list) list \<Rightarrow> (nat \<times> u8 list) list" where
  "log_send i s log = (case s of Some bytes \<Rightarrow> log @ [(i, bytes)] | None \<Rightarrow> log)"

text \<open>
  A task can run when what it waits for is there: the answer of the outside, which \<open>ready\<close>
  decides, or the read guard, for which it queues behind a writer.
\<close>

definition can_run :: "(event_task \<Rightarrow> 'w \<Rightarrow> bool) \<Rightarrow> event_task \<Rightarrow> ('ch, 'gen, 'w) event_world \<Rightarrow> bool" where
  "can_run ready t ew =
    (case t of
       Stamped ty v now \<Rightarrow> ready t (ew_outside ew)
     | Encoded envelope bytes \<Rightarrow> \<not> ew_write_wanted ew
     | Guarded envelope bytes \<Rightarrow> ew_amqp_channel ew = None \<or> ready t (ew_outside ew)
     | Sent envelope confirm \<Rightarrow> ready t (ew_outside ew)
     | _ \<Rightarrow> True)"

inductive event_step :: "('ch, 'gen, 'w) event_env \<Rightarrow> message_broker \<Rightarrow> (event_task \<Rightarrow> 'w \<Rightarrow> bool) \<Rightarrow> event_move
    \<Rightarrow> ('ch, 'gen, 'w) event_system \<Rightarrow> ('ch, 'gen, 'w) event_system \<Rightarrow> bool" for env mb ready where
  arrives: "event_step env mb ready (Arrives ty v) s (s\<lparr>es_tasks := es_tasks s @ [Started ty v]\<rparr>)"
| runs: "i < length (es_tasks s) \<Longrightarrow> can_run ready (es_tasks s ! i) (es_world s) \<Longrightarrow>
    task_step env mb (es_tasks s ! i) (es_world s) = (t, ew) \<Longrightarrow>
    event_step env mb ready (Runs i) s
      (s\<lparr>es_tasks := (es_tasks s)[i := t], es_sent := log_send i (sends (es_world s) (es_tasks s ! i)) (es_sent s),
         es_world := ew\<rparr>)"
| closes: "es_main s = Joining \<Longrightarrow>
    event_step env mb ready Closes s (s\<lparr>es_main := Clearing, es_world := write_queued (es_world s)\<rparr>)"
| clears: "es_main s = Clearing \<Longrightarrow> ew_readers (es_world s) = 0 \<Longrightarrow>
    event_step env mb ready Clears s (s\<lparr>es_main := Cleared, es_world := channel_cleared (es_world s)\<rparr>)"
| outside: "event_step env mb ready Outside s (s\<lparr>es_world := (es_world s)\<lparr>ew_outside := w\<rparr>\<rparr>)"

inductive event_run :: "('ch, 'gen, 'w) event_env \<Rightarrow> message_broker \<Rightarrow> (event_task \<Rightarrow> 'w \<Rightarrow> bool)
    \<Rightarrow> ('ch, 'gen, 'w) event_system \<Rightarrow> event_move list \<Rightarrow> ('ch, 'gen, 'w) event_system \<Rightarrow> bool" for env mb ready s0 where
  start: "event_run env mb ready s0 [] s0"
| more: "event_run env mb ready s0 ms s \<Longrightarrow> event_step env mb ready m s s' \<Longrightarrow> event_run env mb ready s0 (ms @ [m]) s'"

inductive_cases event_stepE: "event_step env mb ready m s s'"

definition arrivals :: "event_move list \<Rightarrow> (string \<times> json) list" where
  "arrivals ms = List.map_filter (\<lambda>m. case m of Arrives ty v \<Rightarrow> Some (ty, v) | _ \<Rightarrow> None) ms"

lemma arrivals_snoc: "arrivals (ms @ [m]) = arrivals ms @ (case m of Arrives ty v \<Rightarrow> [(ty, v)] | _ \<Rightarrow> [])"
  by (simp add: arrivals_def List.map_filter_def split: event_move.split)

section \<open>The invariant\<close>

text \<open>The identifier a task holds, and what the task of a notification looks like.\<close>

definition carried :: "event_task \<Rightarrow> u64 option" where
  "carried t = (case t of
     Numbered ty v now event_id \<Rightarrow> Some event_id
   | Encoded e bytes \<Rightarrow> Some (ee_event_id e)
   | Guarded e bytes \<Rightarrow> Some (ee_event_id e)
   | Sent e confirm \<Rightarrow> Some (ee_event_id e)
   | Ended (Some e) r \<Rightarrow> Some (ee_event_id e)
   | _ \<Rightarrow> None)"

definition made_from :: "('ch, 'gen, 'w) event_env \<Rightarrow> message_broker \<Rightarrow> string \<times> json \<Rightarrow> event_envelope \<Rightarrow> bool" where
  "made_from env mb n e \<longleftrightarrow> fst n \<noteq> ''warning'' \<and> (\<exists>now payload. json_to_vec env (snd n) = Inr payload \<and>
     e = envelope_of mb (fst n) now (ee_event_id e) payload)"

fun task_for :: "('ch, 'gen, 'w) event_env \<Rightarrow> message_broker \<Rightarrow> string \<times> json \<Rightarrow> event_task \<Rightarrow> bool" where
  "task_for env mb n (Started ty v) \<longleftrightarrow> n = (ty, v)"
| "task_for env mb n (Stamped ty v now) \<longleftrightarrow> n = (ty, v) \<and> ty \<noteq> ''warning''"
| "task_for env mb n (Numbered ty v now event_id) \<longleftrightarrow> n = (ty, v) \<and> ty \<noteq> ''warning''"
| "task_for env mb n (Encoded e bytes) \<longleftrightarrow> made_from env mb n e \<and> prost_encode env e = Inr bytes"
| "task_for env mb n (Guarded e bytes) \<longleftrightarrow> made_from env mb n e \<and> prost_encode env e = Inr bytes"
| "task_for env mb n (Sent e confirm) \<longleftrightarrow> made_from env mb n e"
| "task_for env mb n (Ended (Some e) r) \<longleftrightarrow> made_from env mb n e"
| "task_for env mb n (Ended None r) \<longleftrightarrow> r = Inr () \<longrightarrow> fst n = ''warning''"

lemma made_from_new:
  "ty \<noteq> ''warning'' \<Longrightarrow> json_to_vec env v = Inr payload \<Longrightarrow> made_from env mb (ty, v) (envelope_of mb ty now event_id payload)"
  by (auto simp: made_from_def envelope_of_def)

lemma task_step_for:
  assumes "task_for env mb n t" and "task_step env mb t ew = (t', ew')"
  shows "task_for env mb n t'"
proof (cases t)
  case (Numbered ty v now event_id)
  with assms show ?thesis
    by (auto simp: encode_envelope_def Let_def intro: made_from_new split: sum.splits elim!: from_lib.elims)
next
  case (Ended sent r)
  with assms show ?thesis by simp
qed (use assms in \<open>auto simp: on_warning_def io_return_eq bail_def split: if_splits prod.splits sum.splits option.splits\<close>)

definition tasks_match :: "('ch, 'gen, 'w) event_env \<Rightarrow> message_broker \<Rightarrow> event_move list \<Rightarrow> ('ch, 'gen, 'w) event_system \<Rightarrow> bool" where
  "tasks_match env mb ms s \<longleftrightarrow> list_all2 (task_for env mb) (arrivals ms) (es_tasks s)"

lemma tasks_match_step:
  assumes "tasks_match env mb ms s" and "event_step env mb ready m s s'"
  shows "tasks_match env mb (ms @ [m]) s'"
  using assms(2)
proof (cases rule: event_step.cases)
  case (runs i t ew)
  then have "task_for env mb (arrivals ms ! i) t"
    using assms(1) by (auto simp: tasks_match_def list_all2_conv_all_nth intro: task_step_for)
  with runs assms(1) show ?thesis
    by (auto simp: tasks_match_def arrivals_snoc list_all2_conv_all_nth nth_list_update)
qed (use assms(1) in \<open>auto simp: tasks_match_def arrivals_snoc intro: list_all2_appendI\<close>)

text \<open>A step gives a task an identifier only at the generator, and takes none from another.\<close>

lemma carried_step:
  assumes "task_step env mb t ew = (t', ew')"
  shows "(carried t' = None \<or> carried t' = carried t) \<and> ew_generator ew' = ew_generator ew \<or>
    (\<exists>ty v now g event_id g' w. t = Stamped ty v now \<and> ew_generator ew = Some g \<and>
       gen_next env g (ew_outside ew) = (event_id, g', w) \<and> t' = Numbered ty v now event_id \<and> ew_generator ew' = Some g')"
  using assms
  by (cases t)
     (auto simp: carried_def on_warning_def io_return_eq io_lib_def outside_def next_event_id_def panic_def bail_def
       encode_envelope_def envelope_of_def Let_def split: if_splits prod.splits sum.splits option.splits)

definition past_generator :: "event_task \<Rightarrow> bool" where
  "past_generator t = (case t of Started ty v \<Rightarrow> False | Stamped ty v now \<Rightarrow> False | _ \<Rightarrow> True)"

lemma past_generator_step: "past_generator t \<Longrightarrow> task_step env mb t ew = (t', ew') \<Longrightarrow> past_generator t'"
  by (cases t) (auto simp: past_generator_def encode_envelope_def Let_def
    split: if_splits prod.splits sum.splits option.splits)

definition numbered_tasks :: "event_task list \<Rightarrow> nat set" where
  "numbered_tasks ts = {i. i < length ts \<and> past_generator (ts ! i)}"

definition ids_unique :: "('gen \<Rightarrow> u64 set) \<Rightarrow> ('gen \<Rightarrow> nat) \<Rightarrow> nat \<Rightarrow> ('ch, 'gen, 'w) event_system \<Rightarrow> bool" where
  "ids_unique issued machine m s \<longleftrightarrow>
    (\<exists>g. ew_generator (es_world s) = Some g \<and> machine g = m \<and> card (issued g) \<le> card (numbered_tasks (es_tasks s)) \<and>
      (\<forall>t\<in>set (es_tasks s). \<forall>x. carried t = Some x \<longrightarrow> x \<in> issued g \<and> id_machine x = m)) \<and>
    (\<forall>i<length (es_tasks s). \<forall>j<length (es_tasks s).
      i \<noteq> j \<longrightarrow> carried (es_tasks s ! i) \<noteq> None \<longrightarrow> carried (es_tasks s ! i) \<noteq> carried (es_tasks s ! j))"

lemma numbered_finite [simp]: "finite (numbered_tasks ts)"
  by (simp add: numbered_tasks_def)

lemma numbered_bound: "card (numbered_tasks ts) \<le> length ts"
proof -
  have "numbered_tasks ts \<subseteq> {..<length ts}" by (auto simp: numbered_tasks_def)
  from card_mono [OF _ this] show ?thesis by simp
qed

lemma numbered_append: "numbered_tasks (ts @ [Started ty v]) = numbered_tasks ts"
  by (auto simp: numbered_tasks_def nth_append past_generator_def less_Suc_eq)

lemma numbered_update:
  assumes "i < length ts" and "past_generator (ts ! i) \<longrightarrow> past_generator t"
  shows "numbered_tasks ts \<subseteq> numbered_tasks (ts[i := t])"
  using assms by (auto simp: numbered_tasks_def nth_list_update)

lemma numbered_new:
  assumes "i < length ts" and "ts ! i = Stamped ty v now"
  shows "card (numbered_tasks (ts[i := Numbered ty v now event_id])) = Suc (card (numbered_tasks ts))"
proof -
  have "numbered_tasks (ts[i := Numbered ty v now event_id]) = insert i (numbered_tasks ts)"
    using assms(1) by (auto simp: numbered_tasks_def nth_list_update past_generator_def split: if_splits)
  moreover have "i \<notin> numbered_tasks ts" using assms(2) by (simp add: numbered_tasks_def past_generator_def)
  ultimately show ?thesis by simp
qed

text \<open>A step that asks for no identifier keeps them apart, and so does one that gets a fresh one.\<close>

lemma ids_unique_quiet:
  assumes "ids_unique issued machine m s" and "i < length (es_tasks s)"
    and "carried t = None \<or> carried t = carried (es_tasks s ! i)" and "past_generator (es_tasks s ! i) \<longrightarrow> past_generator t"
    and "ew_generator ew = ew_generator (es_world s)"
  shows "ids_unique issued machine m (s\<lparr>es_tasks := (es_tasks s)[i := t], es_sent := log, es_world := ew\<rparr>)"
proof -
  let ?ts = "es_tasks s"
  obtain g where g: "ew_generator (es_world s) = Some g" "machine g = m" "card (issued g) \<le> card (numbered_tasks ?ts)"
    "\<forall>t\<in>set ?ts. \<forall>x. carried t = Some x \<longrightarrow> x \<in> issued g \<and> id_machine x = m"
    using assms(1) by (auto simp: ids_unique_def)
  have "card (numbered_tasks ?ts) \<le> card (numbered_tasks (?ts[i := t]))"
    by (rule card_mono [OF numbered_finite numbered_update [OF assms(2,4)]])
  with g(3) have "card (issued g) \<le> card (numbered_tasks (?ts[i := t]))" by linarith
  moreover have "\<forall>u\<in>set (?ts[i := t]). \<forall>x. carried u = Some x \<longrightarrow> x \<in> issued g \<and> id_machine x = m"
  proof (intro ballI allI impI)
    fix u x assume "u \<in> set (?ts[i := t])" and x: "carried u = Some x"
    then consider "u = t" | "u \<in> set ?ts" by (auto dest: set_update_subset_insert [THEN subsetD])
    then show "x \<in> issued g \<and> id_machine x = m"
    proof cases
      case 1
      with x assms(3) have "carried (?ts ! i) = Some x" by auto
      with g(4) assms(2) show ?thesis by (meson nth_mem)
    qed (use g(4) x in blast)
  qed
  moreover have "carried (?ts[i := t] ! k) \<noteq> carried (?ts[i := t] ! j)"
    if "k < length ?ts" "j < length ?ts" "k \<noteq> j" "carried (?ts[i := t] ! k) \<noteq> None" for k j
  proof -
    have apart: "carried (?ts ! a) \<noteq> carried (?ts ! b)" if "a < length ?ts" "b < length ?ts" "a \<noteq> b" "carried (?ts ! a) \<noteq> None" for a b
      using assms(1) that by (simp add: ids_unique_def)
    have old: "carried (?ts[i := t] ! a) = None \<or> carried (?ts[i := t] ! a) = carried (?ts ! a)" if "a < length ?ts" for a
      using assms(3) that by (cases "a = i") simp_all
    show ?thesis using old [OF that(1)] old [OF that(2)] apart [OF that(1-3)] that(4) by auto
  qed
  ultimately show ?thesis
    unfolding ids_unique_def using g(1,2) assms(5) by auto
qed

lemma ids_unique_fresh:
  assumes law: "generator_documented env issued machine" and inv: "ids_unique issued machine m s"
    and i: "i < length (es_tasks s)" "es_tasks s ! i = Stamped ty v now" and small: "length (es_tasks s) < 2 ^ 40"
    and g: "ew_generator (es_world s) = Some g" "gen_next env g w = (event_id, g', w')" "ew_generator ew = Some g'"
  shows "ids_unique issued machine m (s\<lparr>es_tasks := (es_tasks s)[i := Numbered ty v now event_id], es_sent := log, es_world := ew\<rparr>)"
proof -
  let ?ts = "es_tasks s" and ?t = "Numbered ty v now event_id"
  have old: "machine g = m" "card (issued g) \<le> card (numbered_tasks ?ts)"
    "\<forall>t\<in>set ?ts. \<forall>x. carried t = Some x \<longrightarrow> x \<in> issued g \<and> id_machine x = m"
    using inv g(1) by (auto simp: ids_unique_def)
  have "card (issued g) < 2 ^ 40" using old(2) numbered_bound [of ?ts] small by linarith
  then have new: "event_id \<notin> issued g" "issued g' = insert event_id (issued g)" "machine g' = m" "id_machine event_id = m"
    using law g(2) old(1) unfolding generator_documented_def by blast+
  have "finite (issued g)" by simp
  then have card: "card (issued g') \<le> card (numbered_tasks (?ts[i := ?t]))"
    using old(2) new(1,2) numbered_new [OF i] by simp
  have mine: "carried ?t = Some event_id" by (simp add: carried_def)
  have others: "carried (?ts ! k) \<noteq> Some event_id" if "k < length ?ts" for k
    using that old(3) new(1) by (metis nth_mem)
  have "\<forall>u\<in>set (?ts[i := ?t]). \<forall>x. carried u = Some x \<longrightarrow> x \<in> issued g' \<and> id_machine x = m"
  proof (intro ballI allI impI)
    fix u x assume "u \<in> set (?ts[i := ?t])" and x: "carried u = Some x"
    then consider "u = ?t" | "u \<in> set ?ts" by (auto dest: set_update_subset_insert [THEN subsetD])
    then show "x \<in> issued g' \<and> id_machine x = m"
      by cases (use old(3) x new mine in auto)
  qed
  moreover have "carried (?ts[i := ?t] ! k) \<noteq> carried (?ts[i := ?t] ! j)"
    if "k < length ?ts" "j < length ?ts" "k \<noteq> j" "carried (?ts[i := ?t] ! k) \<noteq> None" for k j
  proof (cases "k = i \<or> j = i")
    case True
    with that mine others [of k] others [of j] show ?thesis by (auto simp: nth_list_update)
  next
    case False
    with that inv show ?thesis by (simp add: ids_unique_def)
  qed
  ultimately show ?thesis
    unfolding ids_unique_def using g(3) new(3) card by auto
qed

lemma ids_unique_step:
  assumes law: "generator_documented env issued machine" and inv: "ids_unique issued machine m s"
    and small: "length (es_tasks s) < 2 ^ 40" and step: "event_step env mb ready mv s s'"
  shows "ids_unique issued machine m s'"
  using step
proof (cases rule: event_step.cases)
  case (arrives ty v)
  let ?ts = "es_tasks s"
  have new: "carried (Started ty v) = None" by (simp add: carried_def)
  have "\<forall>i<Suc (length ?ts). \<forall>j<Suc (length ?ts). i \<noteq> j \<longrightarrow> carried ((?ts @ [Started ty v]) ! i) \<noteq> None \<longrightarrow>
      carried ((?ts @ [Started ty v]) ! i) \<noteq> carried ((?ts @ [Started ty v]) ! j)"
    using inv new by (auto simp: ids_unique_def nth_append less_Suc_eq)
  with inv new show ?thesis
    unfolding arrives ids_unique_def by (simp add: numbered_append)
next
  case (runs i t ew)
  from carried_step [OF runs(5)] consider
    "carried t = None \<or> carried t = carried (es_tasks s ! i)" "ew_generator ew = ew_generator (es_world s)"
    | ty v now g event_id g' w where "es_tasks s ! i = Stamped ty v now" "ew_generator (es_world s) = Some g"
      "gen_next env g (ew_outside (es_world s)) = (event_id, g', w)" "t = Numbered ty v now event_id" "ew_generator ew = Some g'"
    by blast
  then show ?thesis
  proof cases
    case 1
    show ?thesis
      unfolding runs(2) by (rule ids_unique_quiet [OF inv runs(3) 1(1) _ 1(2)]) (use past_generator_step runs(5) in blast)
  next
    case 2
    show ?thesis
      unfolding runs(2) 2(4) by (rule ids_unique_fresh [OF law inv runs(3) 2(1) small 2(2,3,5)])
  qed
qed (use inv in \<open>simp_all add: ids_unique_def\<close>)

section \<open>The log of what was sent\<close>

fun envelope_sent :: "event_task \<Rightarrow> event_envelope option" where
  "envelope_sent (Sent e confirm) = Some e"
| "envelope_sent (Ended sent r) = sent"
| "envelope_sent t = None"

definition handed_over :: "event_task \<Rightarrow> bool" where
  "handed_over t \<longleftrightarrow> (\<exists>e confirm. t = Sent e confirm) \<or> (\<exists>e. t = Ended (Some e) (Inr ()))"

lemma sends_step:
  assumes "task_step env mb t ew = (t', ew')"
  shows "sends ew t = None \<Longrightarrow> envelope_sent t = Some e \<Longrightarrow> envelope_sent t' = Some e"
    and "sends ew t = None \<Longrightarrow> handed_over t' \<Longrightarrow> handed_over t"
    and "sends ew t = Some bytes \<Longrightarrow> \<exists>e. t = Guarded e bytes \<and> envelope_sent t' = Some e"
  using assms
  by (cases t; auto simp: sends_def handed_over_def on_warning_def encode_envelope_def bail_def Let_def
    split: if_splits prod.splits sum.splits option.splits)+

definition log_true :: "('ch, 'gen, 'w) event_env \<Rightarrow> ('ch, 'gen, 'w) event_system \<Rightarrow> bool" where
  "log_true env s \<longleftrightarrow>
    distinct (map fst (es_sent s)) \<and>
    (\<forall>(i, bytes)\<in>set (es_sent s). i < length (es_tasks s) \<and>
      (\<exists>e. envelope_sent (es_tasks s ! i) = Some e \<and> prost_encode env e = Inr bytes)) \<and>
    (\<forall>i<length (es_tasks s). handed_over (es_tasks s ! i) \<longrightarrow> i \<in> fst ` set (es_sent s))"

lemma log_true_step:
  assumes inv: "log_true env s" and match: "tasks_match env mb ms s" and step: "event_step env mb ready m s s'"
  shows "log_true env s'"
  using step
proof (cases rule: event_step.cases)
  case (arrives ty v)
  with inv show ?thesis
    by (fastforce simp: log_true_def nth_append less_Suc_eq handed_over_def)
next
  case (runs i t ew)
  show ?thesis
  proof (cases "sends (es_world s) (es_tasks s ! i)")
    case None
    with inv runs(1-3) sends_step(1,2) [OF runs(5)] show ?thesis
      by (fastforce simp: log_true_def log_send_def nth_list_update)
  next
    case (Some bytes)
    then obtain e where e: "es_tasks s ! i = Guarded e bytes" "envelope_sent t = Some e"
      using sends_step(3) [OF runs(5)] by blast
    then have "prost_encode env e = Inr bytes"
      using match runs(3) by (auto simp: tasks_match_def list_all2_conv_all_nth dest: spec [of _ i])
    moreover have "i \<notin> fst ` set (es_sent s)" using inv e(1) by (force simp: log_true_def)
    ultimately show ?thesis
      using inv runs(1-3) e Some by (fastforce simp: log_true_def log_send_def nth_list_update)
  qed
qed (use inv in \<open>simp_all add: log_true_def\<close>)

section \<open>Any interleaving\<close>

definition fresh_system :: "('ch, 'gen, 'w) event_env \<Rightarrow> u8 list \<Rightarrow> ('ch, 'gen, 'w) event_system \<Rightarrow> bool" where
  "fresh_system env node_id s \<longleftrightarrow> es_tasks s = [] \<and> es_sent s = [] \<and> es_main s = Joining \<and>
    ew_readers (es_world s) = 0 \<and> \<not> ew_write_wanted (es_world s) \<and>
    (\<exists>ew. init_event_id_generator env node_id ew = (Inr (), es_world s))"

lemma fresh_generator:
  "fresh_system env node_id s \<Longrightarrow> ew_generator (es_world s) = Some (gen_new env (of_nat (be_nat node_id mod 1024)))"
  by (auto simp: fresh_system_def init_event_id_generator_eq split: if_splits dest!: sym [of _ "es_world s"])

lemma fresh_ids:
  assumes "generator_documented env issued machine" and "fresh_system env node_id s"
  shows "ids_unique issued machine (be_nat node_id mod 1024) s"
proof -
  let ?m = "be_nat node_id mod 1024"
  have "unat (of_nat ?m :: u64) = ?m" by (simp add: unat_of_nat mod_less_divisor)
  then have "issued (gen_new env (of_nat ?m)) = {} \<and> machine (gen_new env (of_nat ?m)) = ?m"
    using assms(1) by (simp add: generator_documented_def ID_MACHINE_BITS_def)
  with fresh_generator [OF assms(2)] assms(2) show ?thesis
    by (simp add: ids_unique_def fresh_system_def)
qed

lemma run_invariants:
  assumes "event_run env mb ready s0 ms s" and law: "generator_documented env issued machine"
    and fresh: "fresh_system env node_id s0" and "length (arrivals ms) < 2 ^ 40"
  shows "tasks_match env mb ms s \<and> log_true env s \<and> ids_unique issued machine (be_nat node_id mod 1024) s"
  using assms(1,4)
proof (induction rule: event_run.induct)
  case start
  with fresh_ids [OF law fresh] fresh show ?case
    by (simp add: tasks_match_def log_true_def fresh_system_def arrivals_def List.map_filter_def)
next
  case (more ms s m s')
  have "length (arrivals ms) < 2 ^ 40" using more.prems by (simp add: arrivals_snoc split: event_move.splits)
  with more.IH have IH: "tasks_match env mb ms s" "log_true env s" "ids_unique issued machine (be_nat node_id mod 1024) s"
    by auto
  then have "length (es_tasks s) < 2 ^ 40"
    using \<open>length (arrivals ms) < 2 ^ 40\<close> by (simp add: tasks_match_def list_all2_lengthD)
  then show ?case
    using tasks_match_step [OF IH(1) more.hyps(2)] log_true_step [OF IH(2,1) more.hyps(2)]
      ids_unique_step [OF law IH(3) _ more.hyps(2)] by simp
qed

lemma sent_task: "envelope_sent t = Some e \<Longrightarrow> task_for env mb n t \<Longrightarrow> made_from env mb n e \<and> carried t = Some (ee_event_id e)"
  by (cases t rule: envelope_sent.cases) (auto simp: carried_def)

lemma delivered_facts:
  assumes run: "event_run env mb ready s0 ms s" and law: "generator_documented env issued machine"
    and fresh: "fresh_system env node_id s0" and small: "length (arrivals ms) < 2 ^ 40"
  obtains es where
    "list_all2 (\<lambda>(i, bytes) e. i < length (arrivals ms) \<and> made_from env mb (arrivals ms ! i) e \<and> prost_encode env e = Inr bytes)
       (es_sent s) es"
    and "distinct (map ee_event_id es)" and "\<forall>e\<in>set es. id_machine (ee_event_id e) = be_nat node_id mod 1024"
proof -
  have inv: "tasks_match env mb ms s" "log_true env s" "ids_unique issued machine (be_nat node_id mod 1024) s"
    using run_invariants [OF run law fresh small] by auto
  have len: "length (es_tasks s) = length (arrivals ms)" using inv(1) by (simp add: tasks_match_def list_all2_lengthD)
  define env_of where "env_of = (\<lambda>p :: nat \<times> u8 list. the (envelope_sent (es_tasks s ! fst p)))"
  have each: "fst p < length (es_tasks s) \<and> envelope_sent (es_tasks s ! fst p) = Some (env_of p) \<and>
      prost_encode env (env_of p) = Inr (snd p)" if "p \<in> set (es_sent s)" for p
    using inv(2) that by (fastforce simp: log_true_def env_of_def)
  have made: "made_from env mb (arrivals ms ! fst p) (env_of p) \<and> carried (es_tasks s ! fst p) = Some (ee_event_id (env_of p))"
    if "p \<in> set (es_sent s)" for p
    using each [OF that] inv(1) len sent_task by (fastforce simp: tasks_match_def list_all2_conv_all_nth)
  have "distinct (map (\<lambda>p. ee_event_id (env_of p)) (es_sent s))"
  proof -
    have fsts: "distinct (map fst (es_sent s))" using inv(2) by (simp add: log_true_def)
    have "inj_on (\<lambda>p. ee_event_id (env_of p)) (set (es_sent s))"
    proof (rule inj_onI)
      fix p q assume pq: "p \<in> set (es_sent s)" "q \<in> set (es_sent s)" "ee_event_id (env_of p) = ee_event_id (env_of q)"
      with made have "carried (es_tasks s ! fst p) = carried (es_tasks s ! fst q)" by simp
      then have "fst p = fst q"
        using inv(3) each [OF pq(1)] each [OF pq(2)] made [OF pq(1)] unfolding ids_unique_def by (metis option.distinct(1))
      with fsts pq(1,2) show "p = q" by (metis eq_key_imp_eq_value prod.collapse)
    qed
    moreover have "distinct (es_sent s)" using fsts by (simp add: distinct_map)
    ultimately show ?thesis by (simp add: distinct_map)
  qed
  moreover have "\<forall>e\<in>set (map env_of (es_sent s)). id_machine (ee_event_id e) = be_nat node_id mod 1024"
    using inv(3) each made by (fastforce simp: ids_unique_def)
  moreover have "list_all2 (\<lambda>(i, bytes) e. i < length (arrivals ms) \<and> made_from env mb (arrivals ms ! i) e \<and> prost_encode env e = Inr bytes)
      (es_sent s) (map env_of (es_sent s))"
    using each made len by (auto simp: list_all2_conv_all_nth case_prod_beta)
  ultimately show ?thesis by (intro that [of "map env_of (es_sent s)"]) (simp_all add: comp_def)
qed

text \<open>
  C10. Whatever the interleaving of the handlers, every notification is handed to the broker
  at most once, in an envelope made from that notification; no two envelopes have the same
  identifier, and each identifier carries the last ten bits of the node's key; and a
  handler that ended without an error, other than for a warning, did hand its notification over.
\<close>

theorem delivered_once:
  assumes run: "event_run env mb ready s0 ms s" and law: "generator_documented env issued machine"
    and fresh: "fresh_system env node_id s0" and small: "length (arrivals ms) < 2 ^ 40"
  shows "distinct (map fst (es_sent s)) \<and>
    (\<exists>es. list_all2 (\<lambda>(i, bytes) e. i < length (arrivals ms) \<and> made_from env mb (arrivals ms ! i) e \<and> prost_encode env e = Inr bytes)
         (es_sent s) es \<and>
       distinct (map ee_event_id es) \<and> (\<forall>e\<in>set es. id_machine (ee_event_id e) = be_nat node_id mod 1024)) \<and>
    length (es_tasks s) = length (arrivals ms) \<and>
    (\<forall>i<length (es_tasks s). \<forall>sent. es_tasks s ! i = Ended sent (Inr ()) \<longrightarrow>
       fst (arrivals ms ! i) \<noteq> ''warning'' \<longrightarrow> i \<in> fst ` set (es_sent s))"
proof -
  have inv: "tasks_match env mb ms s" "log_true env s" using run_invariants [OF assms] by auto
  have len: "length (es_tasks s) = length (arrivals ms)" using inv(1) by (simp add: tasks_match_def list_all2_lengthD)
  have "i \<in> fst ` set (es_sent s)"
    if "i < length (es_tasks s)" "es_tasks s ! i = Ended sent (Inr ())" "fst (arrivals ms ! i) \<noteq> ''warning''" for i sent
  proof -
    have "task_for env mb (arrivals ms ! i) (Ended sent (Inr ()))"
      using inv(1) that(1,2) len by (metis list_all2_nthD2 tasks_match_def)
    with that(3) obtain e where "sent = Some e" by (cases sent) auto
    with that(2) have "handed_over (es_tasks s ! i)" by (simp add: handed_over_def)
    with inv(2) that(1) show ?thesis by (simp add: log_true_def)
  qed
  moreover obtain es where "list_all2 (\<lambda>(i, bytes) e. i < length (arrivals ms) \<and> made_from env mb (arrivals ms ! i) e \<and>
      prost_encode env e = Inr bytes) (es_sent s) es" "distinct (map ee_event_id es)"
    "\<forall>e\<in>set es. id_machine (ee_event_id e) = be_nat node_id mod 1024"
    by (rule delivered_facts [OF assms])
  ultimately show ?thesis using inv(2) len by (auto simp: log_true_def)
qed

text \<open>
  C27. Two nodes whose keys differ in the last ten bits never use the same identifier, whatever
  their plugins do: a consumer of both can tell their events apart by the identifier alone.
\<close>

theorem fleet_ids_disjoint:
  assumes "event_run env1 mb1 ready1 s1 ms1 t1" and "generator_documented env1 issued1 machine1"
    and "fresh_system env1 node1 s1" and "length (arrivals ms1) < 2 ^ 40"
    and "event_run env2 mb2 ready2 s2 ms2 t2" and "generator_documented env2 issued2 machine2"
    and "fresh_system env2 node2 s2" and "length (arrivals ms2) < 2 ^ 40"
    and differ: "be_nat node1 mod 1024 \<noteq> be_nat node2 mod 1024"
  shows "\<exists>es1 es2. list_all2 (\<lambda>s e. prost_encode env1 e = Inr (snd s)) (es_sent t1) es1 \<and>
    list_all2 (\<lambda>s e. prost_encode env2 e = Inr (snd s)) (es_sent t2) es2 \<and>
    set (map ee_event_id es1) \<inter> set (map ee_event_id es2) = {}"
proof -
  obtain es1 where 1: "list_all2 (\<lambda>(i, bytes) e. i < length (arrivals ms1) \<and> made_from env1 mb1 (arrivals ms1 ! i) e \<and>
      prost_encode env1 e = Inr bytes) (es_sent t1) es1" "\<forall>e\<in>set es1. id_machine (ee_event_id e) = be_nat node1 mod 1024"
    by (rule delivered_facts [OF assms(1-4)])
  obtain es2 where 2: "list_all2 (\<lambda>(i, bytes) e. i < length (arrivals ms2) \<and> made_from env2 mb2 (arrivals ms2 ! i) e \<and>
      prost_encode env2 e = Inr bytes) (es_sent t2) es2" "\<forall>e\<in>set es2. id_machine (ee_event_id e) = be_nat node2 mod 1024"
    by (rule delivered_facts [OF assms(5-8)])
  have "ee_event_id e1 \<noteq> ee_event_id e2" if "e1 \<in> set es1" "e2 \<in> set es2" for e1 e2
    using 1(2) 2(2) that differ by metis
  then have "set (map ee_event_id es1) \<inter> set (map ee_event_id es2) = {}" by auto
  moreover have "list_all2 (\<lambda>s e. prost_encode env1 e = Inr (snd s)) (es_sent t1) es1"
    "list_all2 (\<lambda>s e. prost_encode env2 e = Inr (snd s)) (es_sent t2) es2"
    using 1(1) 2(1) by (auto elim!: list_all2_mono)
  ultimately show ?thesis by blast
qed

section \<open>A run\<close>

text \<open>A schedule can be executed; the outside is always ready and does nothing by itself.\<close>

definition always_ready :: "event_task \<Rightarrow> 'w \<Rightarrow> bool" where
  "always_ready t w = True"

fun event_exec :: "('ch, 'gen, 'w) event_env \<Rightarrow> message_broker \<Rightarrow> event_move list
    \<Rightarrow> ('ch, 'gen, 'w) event_system \<Rightarrow> ('ch, 'gen, 'w) event_system option" where
  "event_exec env mb [] s = Some s"
| "event_exec env mb (Arrives ty v # ms) s = event_exec env mb ms (s\<lparr>es_tasks := es_tasks s @ [Started ty v]\<rparr>)"
| "event_exec env mb (Runs i # ms) s =
    (if i < length (es_tasks s) \<and> can_run always_ready (es_tasks s ! i) (es_world s) then
       (case task_step env mb (es_tasks s ! i) (es_world s) of (t, ew) \<Rightarrow>
          event_exec env mb ms (s\<lparr>es_tasks := (es_tasks s)[i := t],
            es_sent := log_send i (sends (es_world s) (es_tasks s ! i)) (es_sent s), es_world := ew\<rparr>))
     else None)"
| "event_exec env mb (Closes # ms) s =
    (if es_main s = Joining then event_exec env mb ms (s\<lparr>es_main := Clearing, es_world := write_queued (es_world s)\<rparr>)
     else None)"
| "event_exec env mb (Clears # ms) s =
    (if es_main s = Clearing \<and> ew_readers (es_world s) = 0
     then event_exec env mb ms (s\<lparr>es_main := Cleared, es_world := channel_cleared (es_world s)\<rparr>) else None)"
| "event_exec env mb (Outside # ms) s = event_exec env mb ms s"

lemma event_exec_run:
  "event_exec env mb ms s = Some s' \<Longrightarrow> event_run env mb always_ready s0 ms0 s \<Longrightarrow> event_run env mb always_ready s0 (ms0 @ ms) s'"
proof (induction env mb ms s arbitrary: ms0 rule: event_exec.induct)
  case (2 env mb ty v ms s)
  then show ?case using event_run.more [OF 2(3) event_step.arrives] by fastforce
next
  case (3 env mb i ms s)
  obtain t ew where t: "task_step env mb (es_tasks s ! i) (es_world s) = (t, ew)"
    by (cases "task_step env mb (es_tasks s ! i) (es_world s)")
  from 3(2) have i: "i < length (es_tasks s) \<and> can_run always_ready (es_tasks s ! i) (es_world s)"
    by (auto split: if_splits)
  from event_run.more [OF 3(3) event_step.runs [OF conjunct1 [OF i] conjunct2 [OF i] t]] 3(1) [OF i t [symmetric]] 3(2) t i
  show ?case by fastforce
next
  case (4 env mb ms s)
  then have m: "es_main s = Joining" by (auto split: if_splits)
  from event_run.more [OF 4(3) event_step.closes [OF m]] 4(1) [OF m] 4(2) m show ?case by fastforce
next
  case (5 env mb ms s)
  then have m: "es_main s = Clearing \<and> ew_readers (es_world s) = 0" by (auto split: if_splits)
  from event_run.more [OF 5(3) event_step.clears [OF conjunct1 [OF m] conjunct2 [OF m]]] 5(1) [OF m] 5(2) m
  show ?case by fastforce
next
  case (6 env mb ms s)
  have "event_step env mb always_ready Outside s (s\<lparr>es_world := (es_world s)\<lparr>ew_outside := ew_outside (es_world s)\<rparr>\<rparr>)"
    by (rule event_step.outside)
  then have "event_run env mb always_ready s0 (ms0 @ [Outside]) s" using event_run.more [OF 6(3)] by simp
  with 6(1) [OF _ this] 6(2) show ?case by simp
qed simp

text \<open>A generator that counts, laid out as the identifiers are.\<close>

definition counted_id :: "nat \<Rightarrow> nat \<Rightarrow> nat" where
  "counted_id m n = n div 4096 * 2 ^ 22 + m mod 1024 * 4096 + n mod 4096"

definition counting_env :: "(nat, nat \<times> nat, (string \<times> u8 list) list) event_env" where
  "counting_env =
    \<lparr>gen_new = (\<lambda>m. (unat m, 0)), gen_next = (\<lambda>(m, n) w. (of_nat (counted_id m n), (m, Suc n), w)),
     since_epoch = (\<lambda>w. (Inr (1700000000, 5), w)), json_to_vec = (\<lambda>v. Inr []),
     prost_encode = (\<lambda>e. Inr [ucast (ee_event_id e)]),
     basic_publish = (\<lambda>ch exchange key bytes w. (Inr 0, w @ [(exchange, bytes)])),
     publisher_confirm = (\<lambda>n w. (Inr NotRequested, w))\<rparr>"

lemma div_mod_sum: "r < d \<Longrightarrow> (q * d + r) div d = q \<and> (q * d + r) mod d = r" for q d r :: nat
  by simp

lemma counted_id_parts:
  "counted_id m n mod 4096 = n mod 4096" "counted_id m n div 4096 mod 1024 = m mod 1024"
  "counted_id m n div 4096 div 1024 = n div 4096"
proof -
  have "counted_id m n = (n div 4096 * 1024 + m mod 1024) * 4096 + n mod 4096"
    by (simp add: counted_id_def algebra_simps)
  then have parts: "counted_id m n div 4096 = n div 4096 * 1024 + m mod 1024" "counted_id m n mod 4096 = n mod 4096"
    using div_mod_sum [of "n mod 4096" 4096 "n div 4096 * 1024 + m mod 1024"] by simp_all
  then show "counted_id m n mod 4096 = n mod 4096" by simp
  show "counted_id m n div 4096 mod 1024 = m mod 1024" "counted_id m n div 4096 div 1024 = n div 4096"
    using parts(1) div_mod_sum [of "m mod 1024" 1024 "n div 4096"] by simp_all
qed

lemma counted_id_bound:
  assumes "n < 2 ^ 40"
  shows "unat (of_nat (counted_id m n) :: u64) = counted_id m n"
proof -
  have "n div 4096 < 268435456" using assms by (simp add: less_mult_imp_div_less)
  moreover have "m mod 1024 < 1024" "n mod 4096 < 4096" by simp_all
  moreover have "counted_id m n = n div 4096 * 4194304 + m mod 1024 * 4096 + n mod 4096" by (simp add: counted_id_def)
  ultimately have "counted_id m n < 18446744073709551616" by linarith
  then show ?thesis by (simp add: unat_of_nat)
qed

definition counted_ids :: "nat \<times> nat \<Rightarrow> u64 set" where
  "counted_ids = (\<lambda>(m, n). (\<lambda>k. of_nat (counted_id m k)) ` {..<n})"

lemma counted_id_inj: "inj_on (\<lambda>k. of_nat (counted_id m k) :: u64) {..<2 ^ 40}"
proof (rule inj_onI)
  fix a b :: nat assume ab: "a \<in> {..<2 ^ 40}" "b \<in> {..<2 ^ 40}" "(of_nat (counted_id m a) :: u64) = of_nat (counted_id m b)"
  have "counted_id m a = unat (of_nat (counted_id m a) :: u64)" using counted_id_bound [of a m] ab(1) by simp
  also have "\<dots> = counted_id m b" unfolding ab(3) using counted_id_bound [of b m] ab(2) by simp
  finally have "counted_id m a = counted_id m b" .
  then have "a mod 4096 = b mod 4096" "a div 4096 = b div 4096"
    using counted_id_parts [of m a] counted_id_parts [of m b] by simp_all
  then show "a = b" by (metis div_mult_mod_eq)
qed

lemma counting_generator: "generator_documented counting_env counted_ids (\<lambda>(m, n). m mod 1024)"
proof -
  have "i \<notin> counted_ids g \<and> counted_ids g' = insert i (counted_ids g) \<and>
      (\<lambda>(m, n). m mod 1024) g' = (\<lambda>(m, n). m mod 1024) g \<and> id_machine i = (\<lambda>(m, n). m mod 1024) g"
    if made: "gen_next counting_env g w = (i, g', w')" and few: "card (counted_ids g) < 2 ^ 40" for g w i g' w'
  proof -
    obtain m n where g: "g = (m, n)" by (cases g)
    with made have i: "i = of_nat (counted_id m n)" "g' = (m, Suc n)" by (auto simp: counting_env_def)
    have n: "n < 2 ^ 40"
    proof (rule ccontr)
      assume "\<not> n < 2 ^ 40"
      then have sub: "(\<lambda>k. of_nat (counted_id m k) :: u64) ` {..<2 ^ 40} \<subseteq> counted_ids g" by (auto simp: counted_ids_def g)
      have "card ((\<lambda>k. of_nat (counted_id m k) :: u64) ` {..<2 ^ 40}) = 2 ^ 40"
        unfolding card_image [OF counted_id_inj] by (rule card_lessThan)
      with card_mono [OF _ sub] few show False by simp
    qed
    have "i \<notin> counted_ids g"
    proof
      assume "i \<in> counted_ids g"
      then obtain k where "k < n" "(of_nat (counted_id m k) :: u64) = of_nat (counted_id m n)"
        by (auto simp: counted_ids_def g i)
      with n inj_onD [OF counted_id_inj [of m], of k n] show False by simp
    qed
    moreover have "id_machine i = m mod 1024"
      using counted_id_bound [OF n, of m] counted_id_parts(2) [of m n]
      by (simp add: id_machine_def i ID_SEQUENCE_BITS_def ID_MACHINE_BITS_def)
    ultimately show ?thesis by (auto simp: counted_ids_def g i lessThan_Suc)
  qed
  then show ?thesis
    unfolding generator_documented_def
    by (auto simp: counting_env_def counted_ids_def ID_MACHINE_BITS_def)
qed

text \<open>Two notifications whose handlers are interleaved: the second overtakes the first.\<close>

definition sample_system :: "u64 \<Rightarrow> (nat, nat \<times> nat, (string \<times> u8 list) list) event_system" where
  "sample_system m = \<lparr>es_tasks = [], es_sent = [], es_main = Joining,
     es_world = \<lparr>ew_amqp_channel = Some 7, ew_readers = 0, ew_write_wanted = False, ew_generator = Some (gen_new counting_env m), ew_outside = []\<rparr>\<rparr>"

definition sample_moves :: "event_move list" where
  "sample_moves = [Arrives ''connect'' JNull, Runs 0, Arrives ''disconnect'' JNull, Runs 1, Runs 1, Runs 0,
     Runs 1, Runs 0, Runs 1, Runs 1, Runs 1, Outside, Runs 0, Runs 0, Runs 0]"

lemma sample_fresh:
  "fresh_system counting_env [2, 3, 255] (sample_system 1023)" "fresh_system counting_env [2, 0, 5] (sample_system 5)"
proof -
  have "be_nat [2, 3, 255] mod 1024 = 1023" "be_nat [2, 0, 5] mod 1024 = 5" by (simp_all add: be_nat_def)
  then have "init_event_id_generator counting_env nid \<lparr>ew_amqp_channel = Some 7, ew_readers = 0, ew_write_wanted = False, ew_generator = None, ew_outside = []\<rparr>
      = (Inr (), es_world (sample_system m))" if "(nid, m) \<in> {([2, 3, 255], 1023), ([2, 0, 5], 5)}" for nid m
    using that by (auto simp: init_event_id_generator_eq sample_system_def)
  then show "fresh_system counting_env [2, 3, 255] (sample_system 1023)" "fresh_system counting_env [2, 0, 5] (sample_system 5)"
    by (auto simp: fresh_system_def sample_system_def)
qed

lemma counting_steps:
  "ty \<noteq> ''warning'' \<Longrightarrow> task_step counting_env mb (Started ty v) ew = (Stamped ty v (1700000000, 5), ew)"
  "ew_generator ew = Some (m, n) \<Longrightarrow> task_step counting_env mb (Stamped ty v now) ew =
     (Numbered ty v now (of_nat (counted_id m n)), ew\<lparr>ew_generator := Some (m, Suc n)\<rparr>)"
  "task_step counting_env mb (Numbered ty v now i) ew = (Encoded (envelope_of mb ty now i []) [ucast i], ew)"
  "task_step counting_env mb (Encoded e bytes) ew = (Guarded e bytes, guard_taken ew)"
  "ew_amqp_channel ew = Some ch \<Longrightarrow> task_step counting_env mb (Guarded e bytes) ew =
     (Sent e 0, ew\<lparr>ew_outside := ew_outside ew @ [(mb_exchange_name mb, bytes)]\<rparr>)"
  "task_step counting_env mb (Sent e c) ew = (Ended (Some e) (Inr ()), guard_dropped ew)"
  by (simp_all add: counting_env_def io_lib_def outside_def next_event_id_def encode_envelope_def envelope_of_def Let_def)

lemma counting_new: "gen_new counting_env m = (unat m, 0)"
  by (simp add: counting_env_def)

lemma sample_exec:
  "\<exists>s. event_exec counting_env sample_broker sample_moves (sample_system m) = Some s \<and> map fst (es_sent s) = [1, 0]"
  by (simp add: sample_moves_def sample_system_def counting_new counting_steps sends_def log_send_def
    can_run_def always_ready_def guard_taken_def guard_dropped_def del: task_step.simps)

lemma sample_tasks_run:
  obtains s where "event_run counting_env sample_broker always_ready (sample_system m) sample_moves s" and "map fst (es_sent s) = [1, 0]"
proof -
  obtain s where s: "event_exec counting_env sample_broker sample_moves (sample_system m) = Some s" "map fst (es_sent s) = [1, 0]"
    using sample_exec [of m] by (elim exE conjE)
  have "event_run counting_env sample_broker always_ready (sample_system m) ([] @ sample_moves) s"
    by (rule event_exec_run [OF s(1) event_run.start])
  then show ?thesis using s(2) by (intro that) simp_all
qed

lemma sample_arrivals: "length (arrivals sample_moves) < 2 ^ 40"
  by (simp add: arrivals_def List.map_filter_def sample_moves_def)

theorem delivered_once_witness:
  "\<exists>s (es :: event_envelope list). event_run counting_env sample_broker always_ready (sample_system 1023) sample_moves s \<and> map fst (es_sent s) = [1, 0] \<and>
     length es = 2 \<and> distinct (map ee_event_id es)"
proof -
  obtain s where s: "event_run counting_env sample_broker always_ready (sample_system 1023) sample_moves s" "map fst (es_sent s) = [1, 0]"
    by (rule sample_tasks_run)
  from delivered_once [OF s(1) counting_generator sample_fresh(1) sample_arrivals]
  obtain es where "list_all2 (\<lambda>(i, bytes) e. i < length (arrivals sample_moves) \<and>
      made_from counting_env sample_broker (arrivals sample_moves ! i) e \<and> prost_encode counting_env e = Inr bytes) (es_sent s) es"
    "distinct (map ee_event_id es)" by blast
  moreover have "length (es_sent s) = 2" using arg_cong [OF s(2), of length] by simp
  ultimately have "length es = 2" "distinct (map ee_event_id es)" by (auto dest: list_all2_lengthD)
  with s show ?thesis
    by - (rule exI [of _ s], rule exI [of _ es], simp)
qed

theorem fleet_ids_disjoint_witness:
  "\<exists>s t es1 es2. event_run counting_env sample_broker always_ready (sample_system 1023) sample_moves s \<and> map fst (es_sent s) = [1, 0] \<and>
     event_run counting_env sample_broker always_ready (sample_system 5) sample_moves t \<and> map fst (es_sent t) = [1, 0] \<and>
     list_all2 (\<lambda>s e. prost_encode counting_env e = Inr (snd s)) (es_sent s) es1 \<and>
     list_all2 (\<lambda>s e. prost_encode counting_env e = Inr (snd s)) (es_sent t) es2 \<and>
     set (map ee_event_id es1) \<inter> set (map ee_event_id es2) = {}"
proof -
  obtain s where s: "event_run counting_env sample_broker always_ready (sample_system 1023) sample_moves s" "map fst (es_sent s) = [1, 0]"
    by (rule sample_tasks_run)
  obtain t where t: "event_run counting_env sample_broker always_ready (sample_system 5) sample_moves t" "map fst (es_sent t) = [1, 0]"
    by (rule sample_tasks_run)
  have "be_nat [2, 3, 255] mod 1024 \<noteq> be_nat [2, 0, 5] mod 1024" by (simp add: be_nat_def)
  from fleet_ids_disjoint [OF s(1) counting_generator sample_fresh(1) sample_arrivals
      t(1) counting_generator sample_fresh(2) sample_arrivals this]
  obtain es1 es2 where "list_all2 (\<lambda>s e. prost_encode counting_env e = Inr (snd s)) (es_sent s) es1 \<and>
     list_all2 (\<lambda>s e. prost_encode counting_env e = Inr (snd s)) (es_sent t) es2 \<and>
     set (map ee_event_id es1) \<inter> set (map ee_event_id es2) = {}" by blast
  with s t show ?thesis
    by (intro exI [of _ s] exI [of _ t] exI [of _ es1] exI [of _ es2] conjI) auto
qed

end
