(* ===== verification/EventShutdown.thy ===== *)
theory EventShutdown
  imports EventTasks
begin

text \<open>
  The end of the event plugin, when \<open>main\<close> has left \<open>join\<close> and takes the channel away with the
  write lock while handlers may still be at work: what the lock protects, and that neither
  the handlers nor \<open>main\<close> wait for each other for ever.
\<close>

section \<open>The lock\<close>

definition holds_guard :: "event_task \<Rightarrow> bool" where
  "holds_guard t = (case t of Guarded e bytes \<Rightarrow> True | Sent e confirm \<Rightarrow> True | _ \<Rightarrow> False)"

definition lock_counts :: "('ch, 'gen, 'w) event_system \<Rightarrow> bool" where
  "lock_counts s \<longleftrightarrow>
    ew_readers (es_world s) = length (filter holds_guard (es_tasks s)) \<and>
    (ew_write_wanted (es_world s) \<longleftrightarrow> es_main s = Clearing) \<and>
    (es_main s = Cleared \<longrightarrow> ew_amqp_channel (es_world s) = None)"

lemma task_step_lock:
  assumes "task_step env mb t ew = (t', ew')" and "holds_guard t \<longrightarrow> 0 < ew_readers ew"
  shows "ew_readers ew' + (if holds_guard t then 1 else 0) = ew_readers ew + (if holds_guard t' then 1 else 0) \<and>
    ew_write_wanted ew' = ew_write_wanted ew \<and> ew_amqp_channel ew' = ew_amqp_channel ew"
  using assms
  by (cases t)
     (auto simp: holds_guard_def on_warning_def io_return_eq io_lib_def outside_def next_event_id_def panic_def
       encode_envelope_def Let_def split: if_splits prod.splits sum.splits option.splits)

lemma filter_update_length:
  "i < length xs \<Longrightarrow> length (filter P (xs[i := x])) + (if P (xs ! i) then 1 else 0) =
     length (filter P xs) + (if P x then 1 else 0)"
proof (induction xs arbitrary: i)
  case (Cons a xs)
  then show ?case by (cases i) auto
qed simp

lemma lock_counts_step:
  assumes inv: "lock_counts s" and step: "event_step env mb ready m s s'"
  shows "lock_counts s'"
  using step
proof (cases rule: event_step.cases)
  case (runs i t ew)
  have "es_tasks s ! i \<in> set (es_tasks s)" using runs(3) by simp
  then have "holds_guard (es_tasks s ! i) \<longrightarrow> 0 < ew_readers (es_world s)"
    using inv by (auto simp: lock_counts_def filter_empty_conv)
  from task_step_lock [OF runs(5) this] filter_update_length [OF runs(3), of holds_guard t] inv runs(2) show ?thesis
    by (auto simp: lock_counts_def split: if_splits)
qed (use inv in \<open>auto simp: lock_counts_def holds_guard_def\<close>)

lemma lock_counts_run:
  assumes "event_run env mb ready s0 ms s" and "lock_counts s0"
  shows "lock_counts s"
  using assms by (induction rule: event_run.induct) (auto intro: lock_counts_step)

lemma lock_counts_fresh: "fresh_system env node_id s \<Longrightarrow> lock_counts s"
  by (simp add: fresh_system_def lock_counts_def)

section \<open>After the channel is taken away\<close>

lemma cleared_step:
  assumes "event_step env mb ready m s s'"
    and "es_main s = Cleared \<and> ew_amqp_channel (es_world s) = None \<and> (\<forall>t\<in>set (es_tasks s). \<forall>e c. t \<noteq> Sent e c)"
  shows "es_main s' = Cleared \<and> ew_amqp_channel (es_world s') = None \<and> (\<forall>t\<in>set (es_tasks s'). \<forall>e c. t \<noteq> Sent e c) \<and>
    es_sent s' = es_sent s \<and> length (es_tasks s) \<le> length (es_tasks s') \<and>
    (\<forall>i<length (es_tasks s'). \<forall>e. es_tasks s' ! i = Ended (Some e) (Inr ()) \<longrightarrow>
       i < length (es_tasks s) \<and> es_tasks s ! i = Ended (Some e) (Inr ()))"
  using assms(1)
proof (cases rule: event_step.cases)
  case (runs i t ew)
  let ?u = "es_tasks s ! i"
  have u: "?u \<in> set (es_tasks s)" using runs(3) by simp
  have "sends (es_world s) ?u = None" using assms(2) by (auto simp: sends_def split: event_task.split)
  moreover have "ew_amqp_channel ew = None \<and> (\<forall>e c. t \<noteq> Sent e c) \<and> (\<forall>e. t = Ended (Some e) (Inr ()) \<longrightarrow> ?u = t)"
    using runs(5) assms(2) u
    by (cases ?u)
       (auto simp: on_warning_def io_return_eq io_lib_def outside_def next_event_id_def panic_def bail_def
         encode_envelope_def Let_def split: if_splits prod.splits sum.splits option.splits)
  moreover have "\<forall>u\<in>set ((es_tasks s)[i := t]). \<forall>e c. u \<noteq> Sent e c"
  proof
    fix u assume "u \<in> set ((es_tasks s)[i := t])"
    then have "u = t \<or> u \<in> set (es_tasks s)" using set_update_subset_insert [of "es_tasks s" i t] by auto
    then show "\<forall>e c. u \<noteq> Sent e c" using calculation(2) assms(2) by (elim disjE) simp_all
  qed
  ultimately show ?thesis
    using assms(2) runs(2,3) by (simp add: log_send_def nth_list_update)
qed (use assms(2) in \<open>auto simp: nth_append less_Suc_eq split: if_splits\<close>)

text \<open>
  C16. The channel is taken away from nobody, and nothing is sent afterwards. Whatever the
  interleaving, when \<open>main\<close> clears the channel no handler is between taking it and the
  end of its sending; from then on nothing more is given to the broker client, and a handler
  that ends without an error with an envelope in its hands had ended before, so that every
  notification that comes too late ends in an error or unsent, but never as if it were sent.
\<close>

theorem channel_taken_safely:
  assumes run: "event_run env mb ready s0 ms s1" and fresh: "fresh_system env node_id s0"
    and clear: "event_step env mb ready Clears s1 s2" and after: "event_run env mb ready s2 ms' s3"
  shows "(\<forall>t\<in>set (es_tasks s1). \<not> holds_guard t) \<and> es_sent s3 = es_sent s1 \<and>
    (\<forall>i<length (es_tasks s3). \<forall>e. es_tasks s3 ! i = Ended (Some e) (Inr ()) \<longrightarrow>
       i < length (es_tasks s1) \<and> es_tasks s1 ! i = Ended (Some e) (Inr ()))"
proof -
  have "lock_counts s1" by (rule lock_counts_run [OF run lock_counts_fresh [OF fresh]])
  moreover from clear have s2: "ew_readers (es_world s1) = 0"
    "s2 = s1\<lparr>es_main := Cleared, es_world := channel_cleared (es_world s1)\<rparr>"
    by (auto elim: event_stepE)
  ultimately have free: "\<forall>t\<in>set (es_tasks s1). \<not> holds_guard t" by (simp add: lock_counts_def filter_empty_conv)
  have "es_main s3 = Cleared \<and> ew_amqp_channel (es_world s3) = None \<and> (\<forall>t\<in>set (es_tasks s3). \<forall>e c. t \<noteq> Sent e c) \<and>
    es_sent s3 = es_sent s1 \<and> (\<forall>i<length (es_tasks s3). \<forall>e. es_tasks s3 ! i = Ended (Some e) (Inr ()) \<longrightarrow>
       i < length (es_tasks s1) \<and> es_tasks s1 ! i = Ended (Some e) (Inr ()))"
    using after
  proof (induction rule: event_run.induct)
    case start
    from free show ?case by (auto simp: s2(2) holds_guard_def)
  next
    case (more ms' s m s')
    from cleared_step [OF more.hyps(2)] more.IH show ?case by (metis (no_types, lifting))
  qed
  with free show ?thesis by blast
qed

section \<open>Everybody can end\<close>

definition has_ended :: "event_task \<Rightarrow> bool" where
  "has_ended t = (case t of Ended sent r \<Rightarrow> True | _ \<Rightarrow> False)"

text \<open>How many steps a task has left at most, and the whole system.\<close>

fun steps_left :: "event_task \<Rightarrow> nat" where
  "steps_left (Started ty v) = 6"
| "steps_left (Stamped ty v now) = 5"
| "steps_left (Numbered ty v now event_id) = 4"
| "steps_left (Encoded e bytes) = 3"
| "steps_left (Guarded e bytes) = 2"
| "steps_left (Sent e confirm) = 1"
| "steps_left (Ended sent r) = 0"

definition work_left :: "('ch, 'gen, 'w) event_system \<Rightarrow> nat" where
  "work_left s = sum_list (map steps_left (es_tasks s)) + (if es_main s = Clearing then 1 else 0)"

lemma steps_left_0: "steps_left t = 0 \<longleftrightarrow> has_ended t"
  by (cases t) (simp_all add: has_ended_def)

lemma steps_left_step: "task_step env mb t ew = (t', ew') \<Longrightarrow> \<not> has_ended t \<Longrightarrow> steps_left t' < steps_left t"
  by (cases t)
     (auto simp: has_ended_def on_warning_def Let_def split: if_splits prod.splits sum.splits option.splits)

lemma sum_list_update_less:
  "i < length xs \<Longrightarrow> f x < f (xs ! i) \<Longrightarrow> sum_list (map f (xs[i := x])) < sum_list (map f xs)" for f :: "'a \<Rightarrow> nat"
proof (induction xs arbitrary: i)
  case (Cons a xs)
  then show ?case by (cases i) auto
qed simp

text \<open>
  While work is left, the outside needs to answer one call at the most for somebody to do
  a part of it: a task, or \<open>main\<close>.
\<close>

lemma somebody_works:
  assumes inv: "lock_counts s" and work: "0 < work_left s" and answers: "\<And>t. \<exists>w. ready t w"
  obtains m s1 s2 where "event_step env mb ready Outside s s1" and "event_step env mb ready m s1 s2"
    and "work_left s2 < work_left s" and "m = Clears \<or> (\<exists>i. m = Runs i)"
    and "length (es_tasks s2) = length (es_tasks s)" and "es_main s2 = es_main s \<or> es_main s = Clearing \<and> es_main s2 = Cleared"
proof (cases "\<exists>i<length (es_tasks s). \<not> has_ended (es_tasks s ! i) \<and>
    (ew_write_wanted (es_world s) \<longrightarrow> (\<forall>e bytes. es_tasks s ! i \<noteq> Encoded e bytes))")
  case True
  then obtain i where i: "i < length (es_tasks s)" "\<not> has_ended (es_tasks s ! i)"
    "ew_write_wanted (es_world s) \<longrightarrow> (\<forall>e bytes. es_tasks s ! i \<noteq> Encoded e bytes)" by blast
  obtain w where w: "ready (es_tasks s ! i) w" using answers by blast
  let ?s1 = "s\<lparr>es_world := (es_world s)\<lparr>ew_outside := w\<rparr>\<rparr>"
  obtain t ew where t: "task_step env mb (es_tasks ?s1 ! i) (es_world ?s1) = (t, ew)" by (metis surj_pair)
  have run: "can_run ready (es_tasks ?s1 ! i) (es_world ?s1)"
    using i(3) w by (cases "es_tasks s ! i") (auto simp: can_run_def)
  have "steps_left t < steps_left (es_tasks s ! i)" using steps_left_step [OF t] i(2) by simp
  then have "sum_list (map steps_left ((es_tasks s)[i := t])) < sum_list (map steps_left (es_tasks s))"
    by (rule sum_list_update_less [OF i(1)])
  then show thesis
    using that [OF event_step.outside event_step.runs [OF _ run t]] i(1) by (simp add: work_left_def)
next
  case False
  have main: "es_main s = Clearing"
  proof (rule ccontr)
    assume "es_main s \<noteq> Clearing"
    with inv False have "\<forall>t\<in>set (es_tasks s). has_ended t" by (auto simp: lock_counts_def in_set_conv_nth)
    then have "\<forall>t\<in>set (es_tasks s). steps_left t = 0" by (simp add: steps_left_0)
    then have "sum_list (map steps_left (es_tasks s)) = 0" by (induction "es_tasks s") auto
    with work \<open>es_main s \<noteq> Clearing\<close> show False by (simp add: work_left_def)
  qed
  have "\<not> holds_guard t" if "t \<in> set (es_tasks s)" for t
    using False that inv main
    by (cases t) (fastforce simp: in_set_conv_nth lock_counts_def holds_guard_def has_ended_def)+
  then have "ew_readers (es_world s) = 0" using inv by (simp add: lock_counts_def filter_empty_conv)
  moreover have same: "event_step env mb ready Outside s s"
    using event_step.outside [of env mb ready s "ew_outside (es_world s)"] by simp
  ultimately show thesis
    using that [OF same event_step.clears [OF main]] main by (simp add: work_left_def)
qed

text \<open>Done again and again, this leaves no work.\<close>

lemma work_can_be_done:
  assumes run: "event_run env mb ready s0 ms s" and fresh: "fresh_system env node_id s0"
    and answers: "\<And>t. \<exists>w. ready t w"
  shows "\<exists>ms' s'. event_run env mb ready s0 (ms @ ms') s' \<and>
    (\<forall>m\<in>set ms'. m = Outside \<or> m = Clears \<or> (\<exists>i. m = Runs i)) \<and>
    length (filter (\<lambda>m. m \<noteq> Outside) ms') \<le> work_left s \<and>
    length (es_tasks s') = length (es_tasks s) \<and> work_left s' = 0 \<and>
    (es_main s' = es_main s \<or> es_main s = Clearing \<and> es_main s' = Cleared)"
  using run
proof (induction "work_left s" arbitrary: s ms rule: less_induct)
  case less
  have inv: "lock_counts s" by (rule lock_counts_run [OF less.prems lock_counts_fresh [OF fresh]])
  show ?case
  proof (cases "work_left s = 0")
    case True
    with less.prems show ?thesis by (intro exI [of _ "[]"] exI [of _ s]) simp
  next
    case False
    then have pos: "0 < work_left s" by simp
    obtain m s1 s2 where w: "event_step env mb ready Outside s s1" "event_step env mb ready m s1 s2"
      "work_left s2 < work_left s" "m = Clears \<or> (\<exists>i. m = Runs i)" "length (es_tasks s2) = length (es_tasks s)"
      "es_main s2 = es_main s \<or> es_main s = Clearing \<and> es_main s2 = Cleared"
      by (rule somebody_works [OF inv pos answers])
    have "event_run env mb ready s0 ((ms @ [Outside]) @ [m]) s2"
      by (rule event_run.more [OF event_run.more [OF less.prems w(1)] w(2)])
    from less.hyps [OF w(3) this] obtain ms' s' where "event_run env mb ready s0 (((ms @ [Outside]) @ [m]) @ ms') s'"
      "\<forall>m\<in>set ms'. m = Outside \<or> m = Clears \<or> (\<exists>i. m = Runs i)"
      "length (filter (\<lambda>m. m \<noteq> Outside) ms') \<le> work_left s2"
      "length (es_tasks s') = length (es_tasks s2)" "work_left s' = 0"
      "es_main s' = es_main s2 \<or> es_main s2 = Clearing \<and> es_main s' = Cleared" by blast
    note rest = this
    from rest(1) have "event_run env mb ready s0 (ms @ ([Outside, m] @ ms')) s'" by simp
    moreover from rest(2) w(4) have "\<forall>m\<in>set ([Outside, m] @ ms'). m = Outside \<or> m = Clears \<or> (\<exists>i. m = Runs i)"
      by simp
    moreover from rest(3) w(3) have "length (filter (\<lambda>m. m \<noteq> Outside) ([Outside, m] @ ms')) \<le> work_left s"
      by simp
    moreover from rest(4) w(5) have "length (es_tasks s') = length (es_tasks s)" by simp
    moreover from rest(6) w(6) have "es_main s' = es_main s \<or> es_main s = Clearing \<and> es_main s' = Cleared"
      by (elim disjE conjE) simp_all
    ultimately show ?thesis using rest(5) by (intro exI conjI)
  qed
qed

text \<open>
  C26. Neither a handler nor the shutdown is ever stuck. A handler waits for the outside and for
  the lock, \<open>main\<close> for the handlers that hold the lock, and new readers for \<open>main\<close>; still, from
  any state that the system can reach, as long as the outside can answer each call that waits, all
  handlers can end and \<open>main\<close>, if it is shutting down, can take the channel away, in at
  most six steps of each handler and one of \<open>main\<close>, without new notifications; and then
  nobody holds the lock.
\<close>

theorem handlers_can_end:
  assumes run: "event_run env mb ready s0 ms s" and fresh: "fresh_system env node_id s0"
    and answers: "\<And>t. \<exists>w. ready t w"
  shows "\<exists>ms' s'. event_run env mb ready s0 (ms @ ms') s' \<and>
    (\<forall>m\<in>set ms'. m = Outside \<or> m = Clears \<or> (\<exists>i. m = Runs i)) \<and>
    length (filter (\<lambda>m. m \<noteq> Outside) ms') \<le> 6 * length (es_tasks s) + 1 \<and>
    length (es_tasks s') = length (es_tasks s) \<and> (\<forall>t\<in>set (es_tasks s'). has_ended t) \<and>
    es_main s' = (if es_main s = Joining then Joining else Cleared) \<and> ew_readers (es_world s') = 0"
proof -
  obtain ms' s' where e: "event_run env mb ready s0 (ms @ ms') s'"
    "\<forall>m\<in>set ms'. m = Outside \<or> m = Clears \<or> (\<exists>i. m = Runs i)"
    "length (filter (\<lambda>m. m \<noteq> Outside) ms') \<le> work_left s"
    "length (es_tasks s') = length (es_tasks s)" "work_left s' = 0"
    "es_main s' = es_main s \<or> es_main s = Clearing \<and> es_main s' = Cleared"
    using work_can_be_done [OF run fresh answers] by blast
  have ended: "\<forall>t\<in>set (es_tasks s'). has_ended t" "es_main s' \<noteq> Clearing"
    using e(5) by (auto simp: work_left_def steps_left_0 split: if_splits)
  have "lock_counts s'" by (rule lock_counts_run [OF e(1) lock_counts_fresh [OF fresh]])
  then have "ew_readers (es_world s') = 0"
    using ended(1) by (auto simp: lock_counts_def filter_empty_conv holds_guard_def has_ended_def split: event_task.splits)
  moreover have "work_left s \<le> 6 * length (es_tasks s) + 1"
  proof -
    have "sum_list (map steps_left ts) \<le> 6 * length ts" for ts
    proof (induction ts)
      case (Cons t ts)
      then show ?case by (cases t) auto
    qed simp
    from this [of "es_tasks s"] show ?thesis by (simp add: work_left_def)
  qed
  moreover have "es_main s' = (if es_main s = Joining then Joining else Cleared)"
    using e(6) ended(2) by (cases "es_main s"; cases "es_main s'") auto
  ultimately show ?thesis using e(1-4) ended(1) by (intro exI [of _ ms'] exI [of _ s']) auto
qed

section \<open>A shutdown\<close>

text \<open>The plugin shuts down while one handler is sending and another comes too late.\<close>

definition sample_closing :: "event_move list" where
  "sample_closing = [Arrives ''connect'' JNull, Runs 0, Runs 0, Runs 0, Runs 0, Runs 0, Closes,
     Arrives ''disconnect'' JNull, Runs 1, Runs 1, Runs 1, Runs 0]"

lemma sample_closing_exec:
  "\<exists>s. event_exec counting_env sample_broker sample_closing (sample_system m) = Some s \<and> map fst (es_sent s) = [0] \<and>
     es_main s = Clearing \<and> ew_readers (es_world s) = 0 \<and> length (es_tasks s) = 2"
  by (simp add: sample_closing_def sample_system_def counting_new counting_steps sends_def log_send_def
    can_run_def always_ready_def guard_taken_def guard_dropped_def write_queued_def del: task_step.simps)

lemma sample_closing_run:
  obtains s where "event_run counting_env sample_broker always_ready (sample_system m) sample_closing s"
    and "map fst (es_sent s) = [0]" and "es_main s = Clearing" and "ew_readers (es_world s) = 0" and "length (es_tasks s) = 2"
proof -
  obtain s where s: "event_exec counting_env sample_broker sample_closing (sample_system m) = Some s"
    "map fst (es_sent s) = [0]" "es_main s = Clearing" "ew_readers (es_world s) = 0" "length (es_tasks s) = 2"
    using sample_closing_exec [of m] by (elim exE conjE)
  have "event_run counting_env sample_broker always_ready (sample_system m) ([] @ sample_closing) s"
    by (rule event_exec_run [OF s(1) event_run.start])
  then show ?thesis using s(2-5) by (intro that) simp_all
qed

theorem channel_taken_safely_witness:
  "\<exists>s s'. event_run counting_env sample_broker always_ready (sample_system 5) sample_closing s \<and>
     event_step counting_env sample_broker always_ready Clears s s' \<and> map fst (es_sent s') = [0] \<and>
     (\<forall>t\<in>set (es_tasks s). \<not> holds_guard t)"
proof -
  obtain s where s: "event_run counting_env sample_broker always_ready (sample_system 5) sample_closing s"
    "map fst (es_sent s) = [0]" "es_main s = Clearing" "ew_readers (es_world s) = 0" "length (es_tasks s) = 2"
    by (rule sample_closing_run)
  have clear: "event_step counting_env sample_broker always_ready Clears s
      (s\<lparr>es_main := Cleared, es_world := channel_cleared (es_world s)\<rparr>)"
    by (rule event_step.clears [OF s(3,4)])
  from channel_taken_safely [OF s(1) sample_fresh(2) clear event_run.start] s(1,2) clear show ?thesis
    by (intro exI [of _ s] exI [of _ "s\<lparr>es_main := Cleared, es_world := channel_cleared (es_world s)\<rparr>"]) auto
qed

theorem handlers_can_end_witness:
  "\<exists>s ms' s'. event_run counting_env sample_broker always_ready (sample_system 5) sample_closing s \<and> es_main s = Clearing \<and>
     event_run counting_env sample_broker always_ready (sample_system 5) (sample_closing @ ms') s' \<and>
     (\<forall>t\<in>set (es_tasks s'). has_ended t) \<and> es_main s' = Cleared"
proof -
  obtain s where s: "event_run counting_env sample_broker always_ready (sample_system 5) sample_closing s"
    "map fst (es_sent s) = [0]" "es_main s = Clearing" "ew_readers (es_world s) = 0" "length (es_tasks s) = 2"
    by (rule sample_closing_run)
  have answers: "\<exists>w. always_ready t w" for t by (simp add: always_ready_def)
  from handlers_can_end [OF s(1) sample_fresh(2) answers] s(1,3) show ?thesis by fastforce
qed

end
