(* ===== verification/UnitTests.thy ===== *)
theory UnitTests
  imports RpcLog Statement Auth EventRun
begin

text \<open>
  The unit tests of the repository, asked of the model. Every \<open>#[test]\<close> of the sources is a
  predicate with the name of the test, and holds. What a test takes from a library (the
  base64 decoder, the JSON parser and printer, the router, the sources of the \<open>config\<close>
  crate, the formatting of a time) is an argument here too; where a test depends on what that library
  answers, the lemma names the answer.
\<close>

text \<open>A string in double quotes, as in the raw strings of the tests.\<close>

definition quoted :: "string \<Rightarrow> string" where
  "quoted s = CHR 0x22 # s @ [CHR 0x22]"

section \<open>rpc-log-plugin: rune.rs\<close>

definition example_rune :: string where
  "example_rune = ''_A7OO-xeVLnHX-zRLOhNGg3DDDMCvET1DZN-72WkbkVvcGVyYXRvciNPbGVn''"

definition test_parse_rune_operator :: "b64_decoder \<Rightarrow> bool" where
  "test_parse_rune_operator decode \<longleftrightarrow> rune_tag decode example_rune = Inr (Some ''Oleg'')"

text \<open>
  The alphabet of RFC 4648, section 5, and a decoder for input without padding: four
  characters of six bits are three bytes.
\<close>

definition url_safe_alphabet :: string where
  "url_safe_alphabet = ''ABCDEFGHIJKLMNOPQRSTUVWXYZabcdefghijklmnopqrstuvwxyz0123456789-_''"

definition sextet :: "char \<Rightarrow> nat option" where
  "sextet c = (if c \<in> set url_safe_alphabet then Some (length (takeWhile (\<lambda>d. d \<noteq> c) url_safe_alphabet)) else None)"

fun decode_groups :: "nat list \<Rightarrow> u8 list option" where
  "decode_groups [] = Some []"
| "decode_groups (a # b # c # d # rest) =
    map_option (\<lambda>bytes. of_nat (4 * a + b div 16) # of_nat (16 * (b mod 16) + c div 4) # of_nat (64 * (c mod 4) + d) # bytes)
      (decode_groups rest)"
| "decode_groups _ = None"

definition url_safe_decode :: b64_decoder where
  "url_safe_decode s =
    (case those (map sextet s) of
       None \<Rightarrow> Inl ''Invalid symbol''
     | Some sextets \<Rightarrow> (case decode_groups sextets of None \<Rightarrow> Inl ''Invalid length'' | Some bytes \<Rightarrow> Inr bytes))"

lemma example_sextets:
  "those (map sextet example_rune) = Some
    [63, 0, 59, 14, 14, 62, 49, 30, 21, 11, 39, 7, 23, 62, 51, 17, 11, 14, 33, 13, 6, 32, 55, 3, 3,
     3, 12, 2, 47, 4, 19, 53, 3, 25, 13, 62, 59, 54, 22, 36, 27, 36, 21, 47, 28, 6, 21, 50, 24, 23,
     17, 47, 28, 34, 13, 15, 27, 6, 21, 39]"
  by code_simp

lemma example_bytes: "\<exists>code. length code = 32 \<and> url_safe_decode example_rune = Inr (code @ as_bytes ''operator#Oleg'')"
proof -
  have "as_bytes ''operator#Oleg'' = [111, 112, 101, 114, 97, 116, 111, 114, 35, 79, 108, 101, 103]"
    by (simp add: as_bytes_def)
  then show ?thesis
    by (intro exI [of _ "take 32 (projr (url_safe_decode example_rune))"])
       (simp add: url_safe_decode_def example_sextets)
qed

lemma example_rune_tag: "rune_tag url_safe_decode example_rune = Inr (Some ''Oleg'')"
proof -
  obtain code where code: "length code = 32" "url_safe_decode example_rune = Inr (code @ as_bytes ''operator#Oleg'')"
    using example_bytes by blast
  have "rune_metadata (code @ as_bytes ''operator#Oleg'') = Some ''operator#Oleg''"
    using code(1) by (simp add: rune_metadata_prefix RUNE_PREFIX_BYTES_def from_utf8_as_bytes is_ascii_def)
  from rune_tag_metadata [of url_safe_decode, OF code(2) this] show ?thesis
    by (simp add: OPERATOR_RUNE_TAG_def rune_sep_def strip_prefix_def)
qed

lemma passes_test_parse_rune_operator: "test_parse_rune_operator url_safe_decode"
  by (simp add: test_parse_rune_operator_def example_rune_tag)

section \<open>rpc-log-plugin: main.rs\<close>

text \<open>The shape of the three tests of the sanitizer: parse, sanitize, print.\<close>

definition sanitizes_to ::
  "lower_table \<Rightarrow> (string \<Rightarrow> string + json) \<Rightarrow> (json \<Rightarrow> string) \<Rightarrow> string \<Rightarrow> string \<Rightarrow> bool" where
  "sanitizes_to tbl from_str to_string example expected \<longleftrightarrow>
     (case from_str example of Inl e \<Rightarrow> False | Inr v \<Rightarrow> to_string (sanitize_json_value tbl [] v) = expected)"

definition test_sanitize_json where
  "test_sanitize_json tbl from_str to_string \<longleftrightarrow>
     sanitizes_to tbl from_str to_string
       (''{'' @ quoted ''rune'' @ '':'' @ quoted ''12345'' @ ''}'')
       (''{'' @ quoted ''rune'' @ '':'' @ quoted ''***'' @ ''}'')"

definition test_sanitize_json_arr where
  "test_sanitize_json_arr tbl from_str to_string \<longleftrightarrow>
     sanitizes_to tbl from_str to_string
       (''{'' @ quoted ''key'' @ '':[{'' @ quoted ''rune_1'' @ '':'' @ quoted ''12345'' @ ''},{''
          @ quoted ''rune_2'' @ '':'' @ quoted ''12345'' @ ''}]}'')
       (''{'' @ quoted ''key'' @ '':[{'' @ quoted ''rune_1'' @ '':'' @ quoted ''***'' @ ''},{''
          @ quoted ''rune_2'' @ '':'' @ quoted ''***'' @ ''}]}'')"

definition test_sanitize_json_full_object where
  "test_sanitize_json_full_object tbl from_str to_string \<longleftrightarrow>
     sanitizes_to tbl from_str to_string
       (''{'' @ quoted ''secret'' @ '':{'' @ quoted ''key'' @ '':'' @ quoted ''value'' @ ''}}'')
       (''{'' @ quoted ''secret'' @ '':'' @ quoted ''***'' @ ''}'')"

lemma test_keys:
  "is_sensitive_key tbl ''rune''" "is_sensitive_key tbl ''rune_1''" "is_sensitive_key tbl ''rune_2''"
  "is_sensitive_key tbl ''secret''" "\<not> is_sensitive_key tbl ''key''" "\<not> is_sensitive_key tbl ''params''"
  by (simp_all add: is_sensitive_key_def DANGER_FIELDS_def to_lowercase_def ascii_lower_def sublist_Cons_right)

lemma test_documents:
  "sanitize_json_value tbl [] (JObject [(''rune'', JString a)]) = JObject [(''rune'', JString ''***'')]"
  "sanitize_json_value tbl [] (JObject [(''key'', JArray [JObject [(''rune_1'', JString a)], JObject [(''rune_2'', JString b)]])]) =
     JObject [(''key'', JArray [JObject [(''rune_1'', JString ''***'')], JObject [(''rune_2'', JString ''***'')]])]"
  "sanitize_json_value tbl [] (JObject [(''secret'', v)]) = JObject [(''secret'', JString ''***'')]"
  by (simp_all add: redact.rewrite_object redact.rewrite_array redact.rewrite_hit test_keys redacted_def)

lemma passes_sanitizer_tests:
  "from_str (''{'' @ quoted ''rune'' @ '':'' @ quoted ''12345'' @ ''}'') = Inr (JObject [(''rune'', JString ''12345'')]) \<Longrightarrow>
   to_string (JObject [(''rune'', JString ''***'')]) = ''{'' @ quoted ''rune'' @ '':'' @ quoted ''***'' @ ''}'' \<Longrightarrow>
     test_sanitize_json tbl from_str to_string"
  "from_str (''{'' @ quoted ''key'' @ '':[{'' @ quoted ''rune_1'' @ '':'' @ quoted ''12345'' @ ''},{''
       @ quoted ''rune_2'' @ '':'' @ quoted ''12345'' @ ''}]}'') =
     Inr (JObject [(''key'', JArray [JObject [(''rune_1'', JString ''12345'')], JObject [(''rune_2'', JString ''12345'')]])]) \<Longrightarrow>
   to_string (JObject [(''key'', JArray [JObject [(''rune_1'', JString ''***'')], JObject [(''rune_2'', JString ''***'')]])]) =
     ''{'' @ quoted ''key'' @ '':[{'' @ quoted ''rune_1'' @ '':'' @ quoted ''***'' @ ''},{''
       @ quoted ''rune_2'' @ '':'' @ quoted ''***'' @ ''}]}'' \<Longrightarrow>
     test_sanitize_json_arr tbl from_str to_string"
  "from_str (''{'' @ quoted ''secret'' @ '':{'' @ quoted ''key'' @ '':'' @ quoted ''value'' @ ''}}'') =
     Inr (JObject [(''secret'', JObject [(''key'', JString ''value'')])]) \<Longrightarrow>
   to_string (JObject [(''secret'', JString ''***'')]) = ''{'' @ quoted ''secret'' @ '':'' @ quoted ''***'' @ ''}'' \<Longrightarrow>
     test_sanitize_json_full_object tbl from_str to_string"
  by (simp_all only: test_sanitize_json_def test_sanitize_json_arr_def test_sanitize_json_full_object_def
      sanitizes_to_def sum.case test_documents)

definition finds_operator ::
  "b64_decoder \<Rightarrow> lower_table \<Rightarrow> (string \<Rightarrow> string + json) \<Rightarrow> string \<Rightarrow> string option \<Rightarrow> bool" where
  "finds_operator decode tbl from_str example expected \<longleftrightarrow>
     (case from_str example of Inl e \<Rightarrow> False | Inr v \<Rightarrow> rune_from_json_value decode tbl [] v = expected)"

definition test_find_operator where
  "test_find_operator decode tbl from_str \<longleftrightarrow>
     finds_operator decode tbl from_str
       (''{'' @ quoted ''params'' @ '':{'' @ quoted ''rune'' @ '':'' @ quoted example_rune @ ''}}'')
       (Some ''Oleg'')"

definition test_find_operator_in_arr where
  "test_find_operator_in_arr decode tbl from_str \<longleftrightarrow>
     finds_operator decode tbl from_str
       (''{'' @ quoted ''params'' @ '':[{'' @ quoted ''rune'' @ '':'' @ quoted example_rune @ ''}]}'')
       (Some ''Oleg'')"

lemma rune_under_its_key: "rune_from_json_value url_safe_decode tbl ''rune'' (JString example_rune) = Some ''Oleg''"
  by (simp add: rune_from_string rune_here_def to_lowercase_def ascii_lower_def RUNE_KEY_def example_rune_tag)

lemma passes_operator_tests:
  "from_str (''{'' @ quoted ''params'' @ '':{'' @ quoted ''rune'' @ '':'' @ quoted example_rune @ ''}}'') =
     Inr (JObject [(''params'', JObject [(''rune'', JString example_rune)])]) \<Longrightarrow>
     test_find_operator url_safe_decode tbl from_str"
  "from_str (''{'' @ quoted ''params'' @ '':[{'' @ quoted ''rune'' @ '':'' @ quoted example_rune @ ''}]}'') =
     Inr (JObject [(''params'', JArray [JObject [(''rune'', JString example_rune)]])]) \<Longrightarrow>
     test_find_operator_in_arr url_safe_decode tbl from_str"
  by (simp_all only: test_find_operator_def test_find_operator_in_arr_def finds_operator_def sum.case)
     (simp_all add: rune_from_containers rune_under_its_key)

section \<open>reserves-attestor-plugin: statement.rs\<close>

text \<open>The time of the fixture is what \<open>parse_from_rfc3339\<close> makes of its text.\<close>

definition base_inputs :: "(string \<Rightarrow> 't) \<Rightarrow> 't statement_inputs" where
  "base_inputs parse_from_rfc3339 =
    \<lparr>node_id = ''02aabb'', network = ''bitcoin'', statement_time = parse_from_rfc3339 ''2026-09-17T12:00:00Z'',
     block_height = 900000, onchain_confirmed_msat = 100000000, onchain_unconfirmed_msat = 0,
     onchain_reserved_msat = 0, onchain_immature_msat = 0, lightning_open_msat = 50000000,
     lightning_pending_msat = 0\<rparr>"

text \<open>The fixture with caveats, which two tests make of it.\<close>

definition caveats :: "'t statement_inputs \<Rightarrow> 't statement_inputs" where
  "caveats inputs = inputs\<lparr>onchain_unconfirmed_msat := 1000, onchain_reserved_msat := 2000,
     onchain_immature_msat := 3000, lightning_pending_msat := 4000\<rparr>"

text \<open>A test over the message block: it fails when building it panics.\<close>

definition of_message :: "string result \<Rightarrow> (string \<Rightarrow> bool) \<Rightarrow> bool" where
  "of_message built test = (case built of Inl e \<Rightarrow> False | Inr msg \<Rightarrow> test msg)"

definition service_name_selects_heading where
  "service_name_selects_heading prof parse fmt \<longleftrightarrow>
     of_message (build_message_block prof fmt ''Example Service'' (base_inputs parse))
       (prefix ''Example Service node balance statement'')"

definition total_sums_only_confirmed_and_open where
  "total_sums_only_confirmed_and_open prof parse \<longleftrightarrow>
     total_msat prof (caveats (base_inputs parse)) = Inr 150000000"

definition message_block_contains_required_fields_and_zeroed_exclusions_when_clean where
  "message_block_contains_required_fields_and_zeroed_exclusions_when_clean prof parse fmt \<longleftrightarrow>
     of_message (build_message_block prof fmt ''Core Lightning'' (base_inputs parse)) (\<lambda>msg.
       prefix ''Core Lightning node balance statement'' msg \<and>
       list_all (\<lambda>s. sublist s msg)
         [''Statement version:    1'', ''Node ID:              02aabb'', ''Network:              bitcoin'',
          ''Statement time:       2026-09-17T12:00:00Z'', ''Block height:         900000'',
          ''On-chain balance:     100000000 msats'', ''Lightning balance:    50000000 msats'',
          ''Total under control:  150000000 msats'', ''Accounting data:      none'', ''Excluded from totals:'',
          ''Unconfirmed on-chain:'', ''Reserved on-chain UTXOs:'', ''Immature on-chain, e.g. coinbase:'',
          ''Pending channels, opening/closing:''] \<and>
       \<not> sublist BEGIN_MESSAGE msg)"

definition message_block_reports_caveats_on_separate_lines_excluded_from_total where
  "message_block_reports_caveats_on_separate_lines_excluded_from_total prof parse fmt \<longleftrightarrow>
     of_message (build_message_block prof fmt ''Core Lightning'' (caveats (base_inputs parse))) (\<lambda>msg.
       list_all (\<lambda>s. sublist s msg)
         [''Excluded from totals:'', ''Unconfirmed on-chain:'', ''1000 msats'', ''Reserved on-chain UTXOs:'',
          ''2000 msats'', ''Immature on-chain, e.g. coinbase:'', ''3000 msats'',
          ''Pending channels, opening/closing:'', ''4000 msats'', ''On-chain balance:     100000000 msats'',
          ''Lightning balance:    50000000 msats'', ''Total under control:  150000000 msats''])"

definition signed_statement_wraps_exact_message_with_armor where
  "signed_statement_wraps_exact_message_with_armor prof parse fmt \<longleftrightarrow>
     of_message (build_message_block prof fmt ''Core Lightning'' (base_inputs parse)) (\<lambda>msg.
       let signed = build_signed_statement msg ''ZBASE32SIGNATURE'' in
       signed = BEGIN_MESSAGE @ [newline] @ msg @ [newline] @ BEGIN_SIGNATURE @ [newline] @ ''ZBASE32SIGNATURE''
         @ [newline] @ END_SIGNATURE @ [newline] \<and>
       (case strip_prefix BEGIN_MESSAGE signed of
          None \<Rightarrow> False
        | Some rest \<Rightarrow> prefix msg (dropWhile (\<lambda>c. c = newline) rest)))"

lemma fixture_total: "total_msat prof (base_inputs parse) = Inr 150000000"
  using add_i64_exact(1) [of 100000000 50000000 prof] by (simp add: total_msat_def base_inputs_def)

lemma passes_total_sums_only_confirmed_and_open: "total_sums_only_confirmed_and_open prof parse"
  using fixture_total [of prof parse]
  by (simp add: total_sums_only_confirmed_and_open_def total_msat_def caveats_def)

lemma passes_service_name_selects_heading: "service_name_selects_heading prof parse fmt"
  by (simp add: service_name_selects_heading_def of_message_def build_message_block_def fixture_total
      message_lines_def)

lemma fixture_message:
  assumes "fmt (parse ''2026-09-17T12:00:00Z'') = ''2026-09-17T12:00:00Z''"
  shows "build_message_block prof fmt ''Core Lightning'' (base_inputs parse) =
      Inr (join [newline] (message_lines (\<lambda>t. t) ''Core Lightning'' (base_inputs (\<lambda>t. t)) 150000000))"
    and "build_message_block prof fmt ''Core Lightning'' (caveats (base_inputs parse)) =
      Inr (join [newline] (message_lines (\<lambda>t. t) ''Core Lightning'' (caveats (base_inputs (\<lambda>t. t))) 150000000))"
  using fixture_total [of prof parse] assms
  by (simp_all add: build_message_block_def total_msat_def message_lines_def caveats_def base_inputs_def)

text \<open>A word without a line break stands in a text exactly when it stands in one of its lines.\<close>

lemma sublist_lines:
  assumes "newline \<notin> set s" and "s \<noteq> []"
  shows "sublist s (join [newline] ls) \<longleftrightarrow> list_ex (sublist s) ls"
proof (induction ls rule: induct_list012)
  case (3 l k ls)
  have "sublist s (l @ newline # rest) \<longleftrightarrow> sublist s l \<or> sublist s rest" for rest
  proof
    assume "sublist s (l @ newline # rest)"
    then consider "sublist s l" | "sublist s (newline # rest)"
      | u v where "s = u @ v" "suffix u l" "prefix v (newline # rest)"
      by (auto simp: sublist_append)
    then show "sublist s l \<or> sublist s rest"
    proof cases
      case 2
      with assms show ?thesis by (auto simp: sublist_Cons_right prefix_Cons)
    next
      case (3 u v)
      with assms have "v = []" by (auto simp: prefix_Cons)
      with 3 show ?thesis by auto
    qed simp
  qed (auto simp: sublist_append sublist_Cons_right)
  then show ?case using 3 by simp
qed (use assms in simp_all)

definition clean_lines :: "string list" where
  "clean_lines =
    [''Core Lightning node balance statement'', [],
     ''Statement version:    1'', ''Node ID:              02aabb'', ''Network:              bitcoin'',
     ''Statement time:       2026-09-17T12:00:00Z'', ''Block height:         900000'', [],
     ''On-chain balance:     100000000 msats  (confirmed, spendable by this node)'',
     ''Lightning balance:    50000000 msats  (this node'' @ [CHR 0x27] @ ''s side of open channels)'',
     ''Total under control:  150000000 msats'', [], ''Accounting data:      none'', [], ''Excluded from totals:'',
     ''  - Unconfirmed on-chain:               0 msats'', ''  - Reserved on-chain UTXOs:            0 msats'',
     ''  - Immature on-chain, e.g. coinbase:   0 msats'', ''  - Pending channels, opening/closing:  0 msats'']"

lemma printed_numbers:
  "show_u32 900000 = ''900000''" "show_u32 STATEMENT_VERSION = ''1''" "show_i64 0 = ''0''"
  "show_i64 100000000 = ''100000000''" "show_i64 50000000 = ''50000000''" "show_i64 150000000 = ''150000000''"
  "show_i64 1000 = ''1000''" "show_i64 2000 = ''2000''" "show_i64 3000 = ''3000''" "show_i64 4000 = ''4000''"
  by (simp_all add: show_i64_def show_u32_def STATEMENT_VERSION_def show_nat.simps digit_def)

lemma clean_lines: "message_lines (\<lambda>t. t) ''Core Lightning'' (base_inputs (\<lambda>t. t)) 150000000 = clean_lines"
  by (simp add: message_lines_def base_inputs_def printed_numbers clean_lines_def excluded_line_def pad_right_def
      numeral_eq_Suc)

lemma clean_fields:
  "list_all (\<lambda>s. list_ex (sublist s) clean_lines)
         [''Statement version:    1'', ''Node ID:              02aabb'', ''Network:              bitcoin'',
          ''Statement time:       2026-09-17T12:00:00Z'', ''Block height:         900000'',
          ''On-chain balance:     100000000 msats'', ''Lightning balance:    50000000 msats'',
          ''Total under control:  150000000 msats'', ''Accounting data:      none'', ''Excluded from totals:'',
          ''Unconfirmed on-chain:'', ''Reserved on-chain UTXOs:'', ''Immature on-chain, e.g. coinbase:'',
          ''Pending channels, opening/closing:'']"
  by code_simp

lemma clean_no_armor: "\<not> list_ex (sublist BEGIN_MESSAGE) clean_lines"
  by code_simp

lemma needles_one_line:
  "list_all (\<lambda>s. newline \<notin> set s \<and> s \<noteq> [])
         [''Statement version:    1'', ''Node ID:              02aabb'', ''Network:              bitcoin'',
          ''Statement time:       2026-09-17T12:00:00Z'', ''Block height:         900000'',
          ''On-chain balance:     100000000 msats'', ''Lightning balance:    50000000 msats'',
          ''Total under control:  150000000 msats'', ''Accounting data:      none'', ''Excluded from totals:'',
          ''Unconfirmed on-chain:'', ''Reserved on-chain UTXOs:'', ''Immature on-chain, e.g. coinbase:'',
          ''Pending channels, opening/closing:'', BEGIN_MESSAGE,
          ''1000 msats'', ''2000 msats'', ''3000 msats'', ''4000 msats'']"
  by code_simp

lemma passes_message_block_contains_required_fields_and_zeroed_exclusions_when_clean:
  assumes "fmt (parse ''2026-09-17T12:00:00Z'') = ''2026-09-17T12:00:00Z''"
  shows "message_block_contains_required_fields_and_zeroed_exclusions_when_clean prof parse fmt"
proof -
  have head: "prefix ''Core Lightning node balance statement'' (join [newline] clean_lines)"
    by (simp add: clean_lines_def)
  show ?thesis
    using clean_fields clean_no_armor needles_one_line head
    unfolding message_block_contains_required_fields_and_zeroed_exclusions_when_clean_def fixture_message(1) [where fmt = fmt and parse = parse, OF assms] of_message_def sum.case clean_lines
    by (simp only: list.pred_inject sublist_lines simp_thms)
qed

definition caveat_lines :: "string list" where
  "caveat_lines = take 15 clean_lines @
    [''  - Unconfirmed on-chain:               1000 msats'', ''  - Reserved on-chain UTXOs:            2000 msats'',
     ''  - Immature on-chain, e.g. coinbase:   3000 msats'', ''  - Pending channels, opening/closing:  4000 msats'']"

lemma caveat_lines: "message_lines (\<lambda>t. t) ''Core Lightning'' (caveats (base_inputs (\<lambda>t. t))) 150000000 = caveat_lines"
  by (simp add: message_lines_def base_inputs_def caveats_def printed_numbers clean_lines_def caveat_lines_def
      excluded_line_def pad_right_def numeral_eq_Suc)

lemma caveat_fields:
  "list_all (\<lambda>s. list_ex (sublist s) caveat_lines)
         [''Excluded from totals:'', ''Unconfirmed on-chain:'', ''1000 msats'', ''Reserved on-chain UTXOs:'',
          ''2000 msats'', ''Immature on-chain, e.g. coinbase:'', ''3000 msats'',
          ''Pending channels, opening/closing:'', ''4000 msats'', ''On-chain balance:     100000000 msats'',
          ''Lightning balance:    50000000 msats'', ''Total under control:  150000000 msats'']"
  by code_simp

lemma passes_message_block_reports_caveats_on_separate_lines_excluded_from_total:
  assumes "fmt (parse ''2026-09-17T12:00:00Z'') = ''2026-09-17T12:00:00Z''"
  shows "message_block_reports_caveats_on_separate_lines_excluded_from_total prof parse fmt"
  using caveat_fields needles_one_line
  unfolding message_block_reports_caveats_on_separate_lines_excluded_from_total_def fixture_message(2) [where fmt = fmt and parse = parse, OF assms] of_message_def sum.case caveat_lines
  by (simp only: list.pred_inject sublist_lines simp_thms)

lemma passes_signed_statement_wraps_exact_message_with_armor: "signed_statement_wraps_exact_message_with_armor prof parse fmt"
proof -
  obtain c cs where "build_message_block prof fmt ''Core Lightning'' (base_inputs parse) = Inr (c # cs)" "c \<noteq> newline"
    by (simp add: build_message_block_def fixture_total message_lines_def newline_def)
  then show ?thesis
    by (simp add: signed_statement_wraps_exact_message_with_armor_def of_message_def build_signed_statement_def Let_def
        del: append.simps) (simp add: newline_def)
qed

section \<open>metrics-plugin: main.rs\<close>

definition trims_whitespace_and_trailing_newline :: bool where
  "trims_whitespace_and_trailing_newline \<longleftrightarrow>
     validate_token (''  a-long-enough-token'' @ [newline]) = Inr ''a-long-enough-token''"

text \<open>\<open>unwrap_err().to_string()\<close>: the head of the chain.\<close>

definition error_contains :: "'a result \<Rightarrow> string \<Rightarrow> bool" where
  "error_contains r text \<longleftrightarrow> (case r of Inl (Anyhow (msg # chain)) \<Rightarrow> sublist text msg | _ \<Rightarrow> False)"

definition rejects_empty_value :: bool where
  "rejects_empty_value \<longleftrightarrow> error_contains (validate_token (''   '' @ [newline])) ''is empty''"

definition rejects_token_shorter_than_minimum :: bool where
  "rejects_token_shorter_than_minimum \<longleftrightarrow> error_contains (validate_token (''short'' @ [newline])) ''shorter than''"

definition accepts_token_at_exactly_the_minimum_length :: bool where
  "accepts_token_at_exactly_the_minimum_length \<longleftrightarrow>
     (let token = replicate MIN_TOKEN_LEN (CHR ''a'') in validate_token token = Inr token)"

lemma passes_token_tests:
  "trims_whitespace_and_trailing_newline" "rejects_empty_value" "rejects_token_shorter_than_minimum"
  "accepts_token_at_exactly_the_minimum_length"
  by code_simp+

section \<open>metrics-plugin: metrics.rs\<close>

definition protected_app :: "('r, 'w) axum \<Rightarrow> (u8 list \<Rightarrow> string option) \<Rightarrow> ('w, 'fam) exporter \<Rightarrow> 'r" where
  "protected_app ax to_str ex =
    ax_route_layer ax (ax_route_get ax (ax_new ax) ''/metrics'' (metrics_handler ex)) (require_bearer_token to_str ''secret'')"

definition get_metrics :: "('r, 'w) axum \<Rightarrow> 'r \<Rightarrow> string option \<Rightarrow> 'w \<Rightarrow> nat" where
  "get_metrics ax app auth_header w =
    rs_status (fst (ax_call ax app
      \<lparr>rq_method = GET, rq_path = ''/metrics'', rq_authorization = map_option as_bytes auth_header\<rparr> w))"

definition rejects_missing_authorization_header where
  "rejects_missing_authorization_header ax to_str ex w \<longleftrightarrow> get_metrics ax (protected_app ax to_str ex) None w = 401"

definition rejects_wrong_token where
  "rejects_wrong_token ax to_str ex w \<longleftrightarrow> get_metrics ax (protected_app ax to_str ex) (Some ''Bearer wrong'') w = 401"

definition accepts_correct_token where
  "accepts_correct_token ax to_str ex w \<longleftrightarrow> get_metrics ax (protected_app ax to_str ex) (Some ''Bearer secret'') w = 200"

definition unprotected_app_serves_without_authorization where
  "unprotected_app_serves_without_authorization ax ex w \<longleftrightarrow>
     get_metrics ax (ax_route_get ax (ax_new ax) ''/metrics'' (metrics_handler ex)) None w = 200"

text \<open>The gathered families of a test can be encoded; the header value is visible ASCII.\<close>

lemma passes_server_tests:
  assumes "axum_documented ax" and "\<And>fam. \<exists>bytes. ex_encode ex fam = Inr bytes"
  shows "rejects_missing_authorization_header ax visible_to_str ex w" and "rejects_wrong_token ax visible_to_str ex w"
    and "accepts_correct_token ax visible_to_str ex w" and "unprotected_app_serves_without_authorization ax ex w"
proof -
  have ok: "rs_status (fst (metrics_handler ex q v)) = 200" for q v
    using assms(2) [of "fst (ex_gather ex v)"] by (auto simp: metrics_handler_def split: prod.split)
  note calls = assms(1) [unfolded axum_documented_def] ok
  show "rejects_missing_authorization_header ax visible_to_str ex w"
    using calls by (simp add: rejects_missing_authorization_header_def get_metrics_def protected_app_def
      require_bearer_token_def is_authorized_iff unauthorized_def routed_def body_removed_def)
  show "rejects_wrong_token ax visible_to_str ex w"
    using calls by (simp add: rejects_wrong_token_def get_metrics_def protected_app_def visible_to_str_as_bytes
      require_bearer_token_def is_authorized_iff unauthorized_def routed_def body_removed_def)
  show "accepts_correct_token ax visible_to_str ex w"
    using calls by (simp add: accepts_correct_token_def get_metrics_def protected_app_def visible_to_str_as_bytes
      visible_def require_bearer_token_def is_authorized_iff routed_def method_router_def body_removed_def)
  show "unprotected_app_serves_without_authorization ax ex w"
    using calls by (simp add: unprotected_app_serves_without_authorization_def get_metrics_def routed_def method_router_def body_removed_def)
qed

section \<open>event-plugin: config.rs\<close>

text \<open>
  What a test sees of the operating system: the environment of the process and the files. The
  \<open>config\<close> crate over it is \<open>layered_config\<close>: a variable of the prefix is found under its name in
  lower case, an empty one is ignored, the list key is split at the separator; a
  file that is missing holds nothing. \<open>toml_events\<close> reads the list of a TOML file.
\<close>

record test_os =
  os_vars :: "string \<Rightarrow> string option"
  os_files :: "string \<Rightarrow> string option"

definition ENV_CONFIG_VAR :: string where "ENV_CONFIG_VAR = ''EVENT_PLUGIN_CONFIG''"
definition ENV_EVENTS_VAR :: string where "ENV_EVENTS_VAR = ''EVENT_PLUGIN_EVENTS''"

definition clear_environment :: "test_os \<Rightarrow> test_os" where
  "clear_environment os = os\<lparr>os_vars := (os_vars os)(ENV_CONFIG_VAR := None, ENV_EVENTS_VAR := None)\<rparr>"

definition set_environment :: "string \<Rightarrow> string \<Rightarrow> test_os \<Rightarrow> test_os" where
  "set_environment key val os = os\<lparr>os_vars := (os_vars os)(key \<mapsto> val)\<rparr>"

definition test_config_path :: string where
  "test_config_path = ''/tmp/event-plugin-config-test.toml''"

definition test_config_file :: "string \<Rightarrow> test_os \<Rightarrow> test_os" where
  "test_config_file contents os = os\<lparr>os_files := (os_files os)(test_config_path \<mapsto> contents)\<rparr>"

definition upper_ascii :: "char \<Rightarrow> char" where
  "upper_ascii c = (let b = (of_char c :: nat) in if 97 \<le> b \<and> b \<le> 122 then char_of (b - 32) else c)"

definition env_lookup :: "test_os \<Rightarrow> env_source \<Rightarrow> string \<Rightarrow> string option" where
  "env_lookup os e key =
    (case os_vars os (es_prefix e @ ''_'' @ map upper_ascii key) of
       Some v \<Rightarrow> if es_ignore_empty e \<and> v = [] then None else Some v
     | None \<Rightarrow> None)"

definition os_string :: "test_os \<Rightarrow> config_source \<Rightarrow> string \<Rightarrow> string option" where
  "os_string os src key = (case src of From_env e \<Rightarrow> env_lookup os e key | From_file path required \<Rightarrow> None)"

definition os_list :: "(string \<Rightarrow> string list option) \<Rightarrow> test_os \<Rightarrow> config_source \<Rightarrow> string \<Rightarrow> string list option" where
  "os_list toml_events os src key =
    (case src of
       From_file path required \<Rightarrow> if key = ''events'' then Option.bind (os_files os path) toml_events else None
     | From_env e \<Rightarrow>
         map_option (\<lambda>v. case es_list_separator e of
             Some [sep] \<Rightarrow> if es_try_parsing e \<and> es_list_parse_key e = Some key then split_on (\<lambda>c. c = sep) v else [v]
           | _ \<Rightarrow> [v]) (env_lookup os e key))"

definition resolve_in :: "(string \<Rightarrow> string list option) \<Rightarrow> test_os \<Rightarrow> string list result" where
  "resolve_in toml_events os = resolve_event_types (layered_config (os_list toml_events os) (os_string os))"

lemma variable_names:
  "''EVENT_PLUGIN'' @ ''_'' @ map upper_ascii ''events'' = ''EVENT_PLUGIN_EVENTS''"
  "''EVENT_PLUGIN'' @ ''_'' @ map upper_ascii ''config'' = ''EVENT_PLUGIN_CONFIG''"
  by code_simp+

lemma env_lookup_vars:
  assumes "es_prefix e = ''EVENT_PLUGIN''" and "es_ignore_empty e"
  shows "env_lookup os e ''events'' =
      (case os_vars os ''EVENT_PLUGIN_EVENTS'' of Some v \<Rightarrow> if v = [] then None else Some v | None \<Rightarrow> None)"
    and "env_lookup os e ''config'' =
      (case os_vars os ''EVENT_PLUGIN_CONFIG'' of Some v \<Rightarrow> if v = [] then None else Some v | None \<Rightarrow> None)"
  unfolding env_lookup_def assms(1) variable_names by (simp_all add: assms(2) split: option.split)

text \<open>What the function gives over an environment and files, by the priorities of the sources.\<close>

definition nonempty_var :: "test_os \<Rightarrow> string \<Rightarrow> string option" where
  "nonempty_var os name = (case os_vars os name of Some v \<Rightarrow> if v = [] then None else Some v | None \<Rightarrow> None)"

lemma resolve_in_eq:
  "resolve_in toml_events os = Inr
    (case nonempty_var os ''EVENT_PLUGIN_EVENTS'' of
       Some v \<Rightarrow> split_on (\<lambda>c. c = CHR '','') v
     | None \<Rightarrow> (case nonempty_var os ''EVENT_PLUGIN_CONFIG'' of
         Some path \<Rightarrow> (case Option.bind (os_files os path) toml_events of Some l \<Rightarrow> l | None \<Rightarrow> DEFAULT_EVENTS)
       | None \<Rightarrow> DEFAULT_EVENTS))"
proof -
  obtain events where events: "resolve_in toml_events os = Inr events"
    unfolding resolve_in_def using layered_config_resolves by blast
  let ?e = "\<lparr>es_prefix = ''EVENT_PLUGIN'', es_ignore_empty = True, es_try_parsing = True,
        es_list_separator = Some '','', es_list_parse_key = Some ''events''\<rparr>"
  have from_env: "os_list toml_events os (From_env ?e) ''events'' =
      map_option (split_on (\<lambda>c. c = CHR '','')) (nonempty_var os ''EVENT_PLUGIN_EVENTS'')"
    using env_lookup_vars(1) [of ?e os] by (simp add: os_list_def nonempty_var_def)
  have path: "os_string os (From_env event_plugin_env) ''config'' = nonempty_var os ''EVENT_PLUGIN_CONFIG''"
    using env_lookup_vars(2) [of event_plugin_env os]
    by (simp add: os_string_def nonempty_var_def event_plugin_env_def ENV_PREFIX_def)
  have from_file: "os_list toml_events os (From_file path False) ''events'' = Option.bind (os_files os path) toml_events" for path
    by (simp add: os_list_def)
  show ?thesis
    unfolding events event_types_facts [OF layered_config_documented events [unfolded resolve_in_def]] from_env path from_file
    by (cases "nonempty_var os ''EVENT_PLUGIN_EVENTS''") simp_all
qed

definition defaults_when_sources_do_not_configure_events where
  "defaults_when_sources_do_not_configure_events toml os \<longleftrightarrow>
     resolve_in toml (clear_environment os) = Inr DEFAULT_EVENTS"

definition reads_events_from_toml_file where
  "reads_events_from_toml_file toml os \<longleftrightarrow>
     resolve_in toml (set_environment ENV_CONFIG_VAR test_config_path (test_config_file
       (''events = ['' @ quoted ''connect'' @ '', '' @ quoted ''disconnect'' @ '', '' @ quoted ''invoice_payment'' @ '']'')
       (clear_environment os))) = Inr [''connect'', ''disconnect'', ''invoice_payment'']"

definition environment_overrides_toml_and_parses_the_list where
  "environment_overrides_toml_and_parses_the_list toml os \<longleftrightarrow>
     resolve_in toml (set_environment ENV_EVENTS_VAR ''disconnect,invoice_payment''
       (set_environment ENV_CONFIG_VAR test_config_path (test_config_file (''events = ['' @ quoted ''connect'' @ '']'')
         (clear_environment os)))) = Inr [''disconnect'', ''invoice_payment'']"

definition ignores_an_empty_events_environment_variable where
  "ignores_an_empty_events_environment_variable toml os \<longleftrightarrow>
     resolve_in toml (set_environment ENV_EVENTS_VAR [] (set_environment ENV_CONFIG_VAR test_config_path
       (test_config_file (''events = ['' @ quoted ''connect'' @ '', '' @ quoted ''warning'' @ '']'')
         (clear_environment os)))) = Inr [''connect'', ''warning'']"

definition missing_optional_config_file_falls_back_to_defaults where
  "missing_optional_config_file_falls_back_to_defaults toml os \<longleftrightarrow>
     resolve_in toml (set_environment ENV_CONFIG_VAR ''/tmp/missing-event-plugin-config.toml'' (clear_environment os))
       = Inr DEFAULT_EVENTS"

lemmas os_defs = clear_environment_def set_environment_def test_config_file_def test_config_path_def
  ENV_CONFIG_VAR_def ENV_EVENTS_VAR_def nonempty_var_def

lemma passes_config_tests:
  "defaults_when_sources_do_not_configure_events toml os"
  "toml (''events = ['' @ quoted ''connect'' @ '', '' @ quoted ''disconnect'' @ '', '' @ quoted ''invoice_payment'' @ '']'')
     = Some [''connect'', ''disconnect'', ''invoice_payment''] \<Longrightarrow> reads_events_from_toml_file toml os"
  "environment_overrides_toml_and_parses_the_list toml os"
  "toml (''events = ['' @ quoted ''connect'' @ '', '' @ quoted ''warning'' @ '']'') = Some [''connect'', ''warning''] \<Longrightarrow>
     ignores_an_empty_events_environment_variable toml os"
  "os_files os ''/tmp/missing-event-plugin-config.toml'' = None \<Longrightarrow>
     missing_optional_config_file_falls_back_to_defaults toml os"
  by (simp_all add: defaults_when_sources_do_not_configure_events_def reads_events_from_toml_file_def
      environment_overrides_toml_and_parses_the_list_def ignores_an_empty_events_environment_variable_def
      missing_optional_config_file_falls_back_to_defaults_def resolve_in_eq os_defs)

section \<open>event-plugin: main.rs\<close>

definition test_secret_display :: bool where
  "test_secret_display \<longleftrightarrow> (let secret = Secret ''foobar'' in secret_display secret = ''*****'')"

definition test_secret_debug :: bool where
  "test_secret_debug \<longleftrightarrow> (let secret = Secret ''foobar'' in secret_debug secret = ''*****'')"

lemma passes_secret_tests: "test_secret_display" "test_secret_debug"
  by (simp_all add: test_secret_display_def test_secret_debug_def secret_display_def secret_debug_def)

end
