(* ===== verification/Spec2Isabelle.thy ===== *)
theory Spec2Isabelle
  imports RpcSession Attestation Registration RefreshTimer EventShutdown UnitTests
begin

text \<open>
  A model of the four Core Lightning plugins of this repository, with the properties that make
  them correct. The properties are the theorems under the paragraphs numbered C1 to C40.

  \<^bold>\<open>The program.\<close> Four processes, each started by lightningd and talking to it over its standard
  input and output:

  \<^item> \<open>rpc-log-plugin\<close> sees every RPC call through the \<open>rpc_command\<close> hook and writes the selected
    ones to a storage bucket, without the secrets in their parameters and with the name of the
    operator found in a rune;
  \<^item> \<open>reserves-attestor-plugin\<close> answers \<open>get-signed-balance\<close> with a statement of the node's
    balance, signed by the node and checked before it leaves;
  \<^item> \<open>metrics-plugin\<close> polls the node into a cache, counts its events, and serves both to
    Prometheus over HTTP behind a bearer token;
  \<^item> \<open>event-plugin\<close> wraps the notifications it subscribes to in an envelope and publishes them
    to RabbitMQ.

  \<^bold>\<open>The theories\<close>, in the order in which they import each other:

  \<^item> \<open>Prelude\<close>: results (an \<open>anyhow\<close> chain, or a panic, or a value), code with effects as
    functions on the world, loops that stop at an error. \<open>?\<close> is \<open>and_then\<close> or \<open>io_bind\<close>;
    \<open>.context(..)\<close> is \<open>with_context\<close>; \<open>unwrap\<close> and \<open>expect\<close> are panics.
  \<^item> \<open>RustStr\<close>, \<open>RustInt\<close>, \<open>RustFloat\<close>, \<open>Json\<close>: the parts of \<open>std\<close> and the public data of
    \<open>serde_json\<close> that the sources use. \<open>Cln\<close>: the answers of lightningd, field by field.
    \<open>Options\<close>: what a plugin declares to \<open>cln_plugin\<close>, and how it reads its options.
  \<^item> \<open>Rune\<close> is \<open>rpc-log-plugin/src/rune.rs\<close>; \<open>Sanitize\<close> and \<open>RpcLog\<close> are its \<open>main.rs\<close>: the
    sensitive keys and the rewriting, then the caller, the hook, and the start-up. \<open>RpcSession\<close>
    holds the properties of the start-up, the stored documents and a session.
  \<^item> \<open>Hook\<close>: what lightningd relies on from a hook handler, as two interfaces.
  \<^item> \<open>Statement\<close> is \<open>reserves-attestor-plugin/src/statement.rs\<close>; \<open>Reserves\<close> is \<open>rpc.rs\<close>,
    \<open>lib.rs\<close> and \<open>main.rs\<close>; \<open>Attestation\<close> is what the reader of an answer can check.
  \<^item> \<open>Cache\<close> is \<open>metrics-plugin/src/cache.rs\<close>; \<open>Auth\<close> is the HTTP server and the token check of
    \<open>metrics.rs\<close> and \<open>main.rs\<close>; \<open>Prometheus\<close> is the interface of the metrics library;
    \<open>Collector\<close> and \<open>Scrape\<close> are the \<open>DerivedCollector\<close> of \<open>metrics.rs\<close> and what it reports;
    \<open>MetricsPlugin\<close> is the registry part of \<open>metrics.rs\<close>, \<open>events.rs\<close> and \<open>main.rs\<close>;
    \<open>MetricsRun\<close> holds the properties of the running plugin, \<open>Registration\<close> those of its
    start-up, \<open>Observer\<close> an abstract plugin that it refines, \<open>PollTask\<close> the refresh loop as a
    task that is interrupted at every call to the node, and \<open>RefreshTimer\<close> the loop with the
    timer that starts its polls.
  \<^item> \<open>Event\<close> is \<open>event-plugin/src/events.rs\<close> and \<open>broker.rs\<close>; \<open>EventMain\<close> is \<open>config.rs\<close> and
    \<open>main.rs\<close>; \<open>EventRun\<close> holds the properties of the process; \<open>EventTasks\<close> are the handlers as
    tasks that the runtime interleaves, \<open>EventShutdown\<close> is the end of \<open>main\<close> among them.
  \<^item> \<open>UnitTests\<close>: the \<open>#[test]\<close> functions of the sources, asked of the model. They hold.
  \<^item> This theory relates components: the poll to the scrape, the metrics to the attestor.

  \<^bold>\<open>State.\<close> The structs are records with a prefix per type. The world \<open>'w\<close> of a component is
  everything outside the process; a library call is a function from the world to a result and
  a world, and the fields of an environment record (\<open>log_env\<close>, \<open>attestor_env\<close>, \<open>cln_env\<close>,
  \<open>metrics_env\<close>, \<open>event_main_env\<close>) are the calls a component makes. What the process itself
  shares between its tasks is explicit: the cache behind its lock with the poison flag
  (\<open>rw_lock\<close>), the counters and the health gauges are the fields of \<open>metrics_state\<close>; the AMQP
  channel, the readers and the waiting writer of its lock, and the once-set generator of
  identifiers are fields of \<open>event_world\<close>.

  \<^bold>\<open>Interfaces.\<close> \<open>key_rewriting\<close> (a rewriting of documents directed by keys) is interpreted by
  the sanitizer; \<open>observing_hook\<close> by all three hook handlers and \<open>infallible_hook\<close> by the one of
  the metrics; \<open>accumulator\<close> and \<open>bucket\<close> (loops that sum amounts) by the on-chain and the
  channel loop of the attestor, once per bucket, and by the sums of the poll; the tally of
  \<open>Cache\<close> by the two hash maps of the poll. Their lemmas are proved once, over the laws.

  \<^bold>\<open>What is shown.\<close>

  \<^item> Secrecy of the log: two requests have the same sanitized parameters exactly when they agree
    outside the sensitive keys (C1), so that over a whole session the storage cannot tell them
    apart, if their operator tags agree (C5). Nothing else is altered (C31); at any depth a sensitive value becomes \<open>***\<close>
    (C30). The stored document is well formed and its keys are known (C39). The caller is
    an operator tag of a rune that is redacted where it was found (C32), the search for it is
    exhaustive (C33), and the tag is read as it was written (C34). What the hook does on every
    branch is C13; what an operator gets by default is C38, how the list
    is read is \<open>parse_rpc_list_roundtrip\<close>.
  \<^item> The attested balance: an answer carries a signature that the node has just verified for the
    very text in the answer (C2); the amounts are the exact sums over the node's outputs
    and channels, each counted once (C3); the text determines every field as printed (C12), a verifier
    gets message and signature back from the armor (C29), and the signed lines carry the
    numbers of the JSON fields, as signed integers (C9).
  \<^item> The metrics: the start-up registers thirty-two metrics with distinct names and runs to the
    end (C18); only the token opens the endpoint (C4, C25, C40); the cache is the last successful
    poll, also in the middle of the next one (C6), and a failed poll is counted and keeps it; the
    plugin refines an observer that remembers the last answer and counts the events (C7),
    however its handlers and its refresh loop interleave; the polls start at least the period
    apart, and the loop does not end (C17); a scrape succeeds and reports
    every channel, peer and total of the cache (C19 to C22), which are those the node
    listed (C8, C14, C15); the gauge of the on-chain amount is not what the attestor attests
    as available (C28).
  \<^item> The events: an envelope carries the notification (C23); the process serves only when it
    is configured, and then each subscribed notification runs the handler with its own type, once,
    without a panic (C11, C24); in every interleaving of the handlers each
    notification is sent at most once under an identifier of its own (C10), which no other
    node uses either if their keys differ in the last ten bits (C27); the shutdown takes the
    channel from no handler that uses it, and nothing is sent afterwards (C16); handlers
    and shutdown do not wait for each other for ever (C26); without a channel the loss is
    reported (C35); the answer of the node is read whole, in whatever pieces it comes (C36);
    which source of the configuration wins is C37.

  \<^bold>\<open>What is assumed of code outside the repository.\<close> A property says so in a hypothesis:
  \<open>prometheus_documented\<close> (metric constructors accept what their documentation says, a vector
  keeps one value per label tuple, \<open>set\<close> replaces and \<open>inc_by\<close> adds, and a counter is collected
  as a double), \<open>counter_documented\<close>,
  \<open>registry_documented\<close> (a registration fails only for an invalid or a known description),
  \<open>generator_documented\<close> (an identifier is fresh and carries the machine number),
  \<open>axum_documented\<close> (a \<open>get\<close> route calls its handler for \<open>GET\<close> and \<open>HEAD\<close>, without the body for
  the latter, and answers 405 to other methods; a route layer runs only for a matching path),
  \<open>dispatch_documented\<close> (a notification runs the callback registered for its type),
  \<open>timer_documented\<close> (deadlines of an interval, and the behaviours for missed ticks),
  \<open>config_documented\<close> (a later source overrides an earlier one, an environment list is split at
  commas), \<open>options_documented\<close> (a declared option can be read), \<open>answers_one_line\<close>
  (identifiers, signatures and times are single lines), and that the iteration order of a hash map is
  some order of its entries. Each is witnessed by a plain instance (\<open>plain_prometheus\<close>,
  \<open>plain_registry\<close>, \<open>naming_registry\<close>, \<open>counting_env\<close>, \<open>plain_axum\<close>, \<open>plain_timer\<close>, \<open>plain_config\<close>,
  \<open>bucket_only\<close>, \<open>sample_attestor\<close>). The base64 decoder, the clock, the random identifiers, the
  JSON and protobuf printers and the Unicode table of lower-case letters beyond ASCII are
  arguments, with nothing assumed.

  \<^bold>\<open>Bounds.\<close> Amounts are 64-bit words at their width. An addition depends on the build profile:
  \<open>Debug\<close> panics where the signed sum does not fit, \<open>Release\<close> wraps. The exactness properties
  ask for sums below 2^63, which all bitcoin in millisatoshis (2.1 * 10^18) satisfy. A gauge is
  an \<open>f64\<close>: the integer rounded to 53 bits, ties to even, so the readings are exact below 2^53
  (C22); so is a counter when it is collected (C21). Identifiers are fresh for 2^40
  notifications. No definition has fuel: the loops are structural, and the reading loop of the event plugin, which may wait for ever, is a
  \<open>partial_function\<close> whose value is then \<open>None\<close>; C36 proves that it returns as soon as the
  answer is complete. \<open>refresh_loop\<close> takes the number of its rounds, which C17 leaves open. A
  handler takes at most six steps (C26). The timer is described for periods up to thirty years.

  \<^bold>\<open>Simplifications.\<close> The handlers, the status method and the scrapes of the metrics plugin have no
  point at which they wait and run whole; \<open>PollTask\<close> runs them between the steps of a poll,
  \<open>metrics_run\<close> (used by C8) between whole polls. \<open>event_main\<close> runs the
  notifications one after the other, so that the lock of the channel is always free;
  \<open>EventTasks\<close> and \<open>EventShutdown\<close> interleave them, with the lock. The hook calls of the log
  plugin come one after the other. Log output is left out. Strings are their UTF-8 bytes.

  \<^bold>\<open>Not modelled.\<close> The generated protobuf code, the Python harness of the integration tests, and
  the inside of the libraries. Comparing tokens in constant time is a property of the
  machine code.

  \<^bold>\<open>To be extended.\<close> The monotonicity of the conversion to \<open>f64\<close>; concurrent hook
  calls of the log plugin; a reconnection of the broker, when the plugin has one.
\<close>

section \<open>Properties that span components\<close>

text \<open>A scrape of the cache of a running plugin: the lock is read, nothing can overflow.\<close>

lemma scrape_of_run:
  assumes doc: "prometheus_documented describe p" and created: "derived_collector_new p nid = Inr dc"
    and run: "metrics_run Release p r np cln clock (s0, True, w0) evs (s, alive, w)"
    and initial: "ms_cache s0 = \<lparr>lk_poisoned = False, lk_content = default_cache\<rparr>"
  obtains fams where "collect Release p dc (ms_cache s) = Inr fams"
    and "map mf_opts fams = all_opts (derived_opts nid)"
    and "\<forall>i<9. mf_samples (fams ! i) = [([], Gauge_value (scalar_values (last_fetch evs) ! i))]"
    and "\<forall>i<3. map_of (mf_samples (fams ! (22 + i))) = apply_updates set_act
      (map (\<lambda>pr. ([pr_id pr], (peer_gauge_fields ! i) pr)) (cd_peers (last_fetch evs)))"
proof -
  have cache: "ms_cache s = \<lparr>lk_poisoned = False, lk_content = last_fetch evs\<rparr>"
    using run_cache [OF run initial] by (simp add: cache_tracks_def)
  show ?thesis
    by (rule collect_run [OF doc created, of "ms_cache s" Release]) (auto simp: cache intro: that)
qed

text \<open>A peer that is listed once: its gauge is its own value.\<close>

lemma filter_unique: "distinct (map f xs) \<Longrightarrow> x \<in> set xs \<Longrightarrow> filter (\<lambda>y. f y = f x) xs = [x]"
proof (induction xs)
  case (Cons a xs)
  show ?case
  proof (cases "f a = f x")
    case True
    with Cons.prems have "a = x" by (auto simp: image_iff)
    moreover have "filter (\<lambda>y. f y = f x) xs = []"
      using Cons.prems True by (auto simp: filter_empty_conv image_iff)
    ultimately show ?thesis by simp
  qed (use Cons in auto)
qed simp

lemma peer_gauge_value:
  assumes "distinct (map pr_id prs)" and "pr \<in> set prs"
  shows "apply_updates set_act (map (\<lambda>pr. ([pr_id pr], f pr)) prs) [pr_id pr] = Some (Gauge_value (f pr))"
proof -
  have "filter (\<lambda>y. pr_id y = pr_id pr) prs = [pr]" by (rule filter_unique [OF assms])
  then show ?thesis by (simp add: apply_set)
qed

text \<open>
  C8. What a scrape shows of the peers is what the node said at the last poll. In a release
  build, after any sequence of events that ends with a poll the node answered, a scrape
  succeeds; it counts the channels and the peers that have one, and for every such peer its
  channels, its connected channels, and whether one is connected, all from that one answer.
\<close>

theorem scrape_shows_last_poll:
  assumes "prometheus_documented describe p" and "derived_collector_new p nid = Inr dc"
    and "metrics_run Release p r np cln clock (s0, True, w0) (evs @ [Tick (fst (fetch Release cln w1))]) (s, alive, w)"
    and "ms_cache s0 = \<lparr>lk_poisoned = False, lk_content = default_cache\<rparr>"
    and "\<And>m. mset (map_order cln m) = mset m"
    and "cln_connect cln w1 = (Inr (), w2)" and "cln_getinfo cln w2 = (Inr info, w3)"
    and "cln_listpeerchannels cln w3 = (Inr cs, w4)" and "cln_listfunds cln w4 = (Inr funds, w5)"
  shows "\<exists>fams. collect Release p dc (ms_cache s) = Inr fams \<and>
    reading fams ''lightning_channels'' [] = Some (Gauge_value (usize_as_f64 (length cs))) \<and>
    reading fams ''lightning_peers'' [] = Some (Gauge_value (usize_as_f64 (card (set (map pc_peer_id cs))))) \<and>
    (\<forall>peer\<in>set (map pc_peer_id cs).
      reading fams ''lightning_peer_channels'' [peer] =
        Some (Gauge_value (usize_as_f64 (length (filter (\<lambda>c. pc_peer_id c = peer) cs)))) \<and>
      reading fams ''lightning_peer_channel_connected'' [peer] =
        Some (Gauge_value (usize_as_f64 (length (filter (\<lambda>c. pc_peer_id c = peer \<and> pc_peer_connected c) cs)))) \<and>
      reading fams ''lightning_peer_connected'' [peer] =
        Some (Gauge_value (if \<exists>c\<in>set cs. pc_peer_id c = peer \<and> pc_peer_connected c then 1 else 0)))"
proof -
  obtain data w' where data: "fetch Release cln w1 = (Inr data, w')"
    using assms(6-9) by (auto simp: fetch_def io_simps io_lib_def io_bind_def sum_i64_Release Let_def)
  let ?evs = "evs @ [Tick (fst (fetch Release cln w1))]"
  have last: "last_fetch ?evs = data" by (simp add: last_fetch_snoc data)
  obtain fams where fams: "collect Release p dc (ms_cache s) = Inr fams"
    "map mf_opts fams = all_opts (derived_opts nid)"
    "\<forall>i<9. mf_samples (fams ! i) = [([], Gauge_value (scalar_values data ! i))]"
    "\<forall>i<3. map_of (mf_samples (fams ! (22 + i))) = apply_updates set_act
      (map (\<lambda>pr. ([pr_id pr], (peer_gauge_fields ! i) pr)) (cd_peers data))"
    by (rule scrape_of_run [OF assms(1-4), unfolded last])
  note peers = fetch_peers_facts [OF assms(5-8) data]
  have channels: "cd_channels data = map channel_snapshot_of cs"
    using assms(6-8) by (auto intro: fetch_Inr [OF data])
  have "reading fams (metric_names ! 7) [] = Some (Gauge_value (usize_as_f64 (length (cd_peers data))))"
    "reading fams (metric_names ! 8) [] = Some (Gauge_value (usize_as_f64 (length (cd_channels data))))"
    using reading_index [OF fams(2), of 7] reading_index [OF fams(2), of 8] fams(3)
    by (simp_all add: scalar_values_def)
  then have totals: "reading fams ''lightning_peers'' [] = Some (Gauge_value (usize_as_f64 (card (set (map pc_peer_id cs)))))"
    "reading fams ''lightning_channels'' [] = Some (Gauge_value (usize_as_f64 (length cs)))"
    using peers channels by (simp_all add: metric_names_eq)
  have gauge: "reading fams (metric_names ! (22 + i)) [pr_id pr] = Some (Gauge_value ((peer_gauge_fields ! i) pr))"
    if "i < 3" "pr \<in> set (cd_peers data)" for i pr
    using reading_index [OF fams(2), of "22 + i"] fams(4) that peers peer_gauge_value [of "cd_peers data" pr]
    by simp
  have each: "reading fams ''lightning_peer_channels'' [peer] =
        Some (Gauge_value (usize_as_f64 (length (filter (\<lambda>c. pc_peer_id c = peer) cs)))) \<and>
      reading fams ''lightning_peer_channel_connected'' [peer] =
        Some (Gauge_value (usize_as_f64 (length (filter (\<lambda>c. pc_peer_id c = peer \<and> pc_peer_connected c) cs)))) \<and>
      reading fams ''lightning_peer_connected'' [peer] =
        Some (Gauge_value (if \<exists>c\<in>set cs. pc_peer_id c = peer \<and> pc_peer_connected c then 1 else 0))"
    if "peer \<in> set (map pc_peer_id cs)" for peer
  proof -
    from that peers have "peer \<in> set (map pr_id (cd_peers data))" by simp
    then obtain pr where pr: "pr \<in> set (cd_peers data)" "pr_id pr = peer" by auto
    with gauge [of 0 pr] gauge [of 1 pr] gauge [of 2 pr] peers show ?thesis
      by (simp add: metric_names_eq peer_gauge_fields_def)
  qed
  with fams(1) totals show ?thesis by blast
qed

theorem scrape_shows_last_poll_witness:
  "\<exists>s w fams. metrics_run Release plain_prometheus plain_registry sample_parsers sample_cln (\<lambda>n. (Inr 99, n))
      (sample_state, True, 0) ([] @ [Tick (fst (fetch Release sample_cln 0))]) (s, True, w) \<and>
     collect Release plain_prometheus sample_collector (ms_cache s) = Inr fams \<and>
     reading fams ''lightning_channels'' [] = Some (Gauge_value 3) \<and>
     reading fams ''lightning_peer_channels'' [''bob''] = Some (Gauge_value 2)"
proof -
  obtain data where data: "fetch Release sample_cln 0 = (Inr data, 4)"
    by (simp add: fetch_def io_simps io_lib_def sample_cln_def sum_i64_Release Let_def io_bind_def)
  have "\<exists>s. refresh_tick Release plain_prometheus plain_registry sample_cln (\<lambda>n. (Inr 99, n)) sample_state 0 = (Inr s, 4)"
    by (simp add: refresh_tick_def data lock_write_def sample_state_def Let_def)
  then obtain s where s: "refresh_tick Release plain_prometheus plain_registry sample_cln (\<lambda>n. (Inr 99, n)) sample_state 0 = (Inr s, 4)"
    by blast
  have run: "metrics_run Release plain_prometheus plain_registry sample_parsers sample_cln (\<lambda>n. (Inr 99, n))
      (sample_state, True, 0) ([] @ [Tick (fst (fetch Release sample_cln 0))]) (s, True, 4)"
    by (rule metrics_run.more [OF metrics_run.start metrics_step.tick [OF s]])
  have "\<exists>fams. collect Release plain_prometheus sample_collector (ms_cache s) = Inr fams \<and>
     reading fams ''lightning_channels'' [] = Some (Gauge_value (usize_as_f64 (length polled_channels))) \<and>
     reading fams ''lightning_peers'' [] = Some (Gauge_value (usize_as_f64 (card (set (map pc_peer_id polled_channels))))) \<and>
     (\<forall>peer\<in>set (map pc_peer_id polled_channels).
      reading fams ''lightning_peer_channels'' [peer] =
        Some (Gauge_value (usize_as_f64 (length (filter (\<lambda>c. pc_peer_id c = peer) polled_channels)))) \<and>
      reading fams ''lightning_peer_channel_connected'' [peer] =
        Some (Gauge_value (usize_as_f64 (length (filter (\<lambda>c. pc_peer_id c = peer \<and> pc_peer_connected c) polled_channels)))) \<and>
      reading fams ''lightning_peer_connected'' [peer] =
        Some (Gauge_value (if \<exists>c\<in>set polled_channels. pc_peer_id c = peer \<and> pc_peer_connected c then 1 else 0)))"
    by (rule scrape_shows_last_poll [OF plain_prometheus_documented sample_collector_new run])
       (simp_all add: sample_state_def sample_cln_def)
  then obtain fams where fams: "collect Release plain_prometheus sample_collector (ms_cache s) = Inr fams"
    "reading fams ''lightning_channels'' [] = Some (Gauge_value (usize_as_f64 (length polled_channels)))"
    and peers: "\<forall>peer\<in>set (map pc_peer_id polled_channels). reading fams ''lightning_peer_channels'' [peer] =
      Some (Gauge_value (usize_as_f64 (length (filter (\<lambda>c. pc_peer_id c = peer) polled_channels))))"
    by blast
  have "reading fams ''lightning_peer_channels'' [''bob''] = Some (Gauge_value (usize_as_f64 (length (filter (\<lambda>c. pc_peer_id c = ''bob'') polled_channels))))"
    by (rule bspec [OF peers]) (simp add: polled_channels_def polled_channel_def)
  moreover have "length polled_channels = 3" "length (filter (\<lambda>c. pc_peer_id c = ''bob'') polled_channels) = 2"
    by (simp_all add: polled_channels_def polled_channel_def)
  moreover have "usize_as_f64 3 = 3" "usize_as_f64 2 = 2" by (simp_all add: usize_as_f64_def f64_exact)
  ultimately have "reading fams ''lightning_channels'' [] = Some (Gauge_value 3)"
    "reading fams ''lightning_peer_channels'' [''bob''] = Some (Gauge_value 2)"
    using fams(2) by simp_all
  with run fams(1) show ?thesis by blast
qed

lemma output_sum_partition:
  "output_sum (\<lambda>_. True) outs = output_sum spendable outs + output_sum locked outs +
     output_sum (with_status UNCONFIRMED) outs + output_sum (with_status IMMATURE) outs + output_sum (with_status SPENT) outs"
proof (induction outs)
  case (Cons out outs)
  then show ?case
    by (cases "fo_status out")
       (simp_all add: output_sum_def spendable_def locked_def with_status_def)
qed (simp add: output_sum_def)

text \<open>
  C28. Two plugins on one node that see the same wallet: the on-chain gauge of the metrics is
  what the attestor would attest as available, plus the reserved, unconfirmed and immature
  amounts that it attests as excluded, plus spent outputs where the node lists them. The
  gauge agrees with the attested balance exactly when the wallet has nothing but confirmed,
  unreserved outputs.
\<close>

theorem metrics_against_attestor:
  assumes poll: "fetch prof cln v = (Inr data, v5)"
    and calls: "cln_connect cln v = (Inr (), v1)" "cln_getinfo cln v1 = (Inr info, v2)"
      "cln_listpeerchannels cln v2 = (Inr cs, v3)" "cln_listfunds cln v3 = (Inr funds, v4)"
    and attest: "rpc_getinfo env w1 = (Inr info', w2)" "rpc_listfunds env w2 = (Inr funds, w3)"
      "rpc_listpeerchannels env w3 = (Inr cs', w4)" "utc_now env w4 = (now, w5)"
    and small: "output_sum (\<lambda>_. True) (lf_outputs funds) < 2 ^ 63" "sum_list (map channel_weight cs') < 2 ^ 63"
  shows "\<exists>i. fetch_inputs prof env w1 = (Inr i, w5) \<and>
    unat (fn_output_msat (cd_funds data)) = unat (onchain_confirmed_msat i) + unat (onchain_reserved_msat i) +
      unat (onchain_unconfirmed_msat i) + unat (onchain_immature_msat i) + output_sum (with_status SPENT) (lf_outputs funds) \<and>
    (unat (fn_output_msat (cd_funds data)) = unat (onchain_confirmed_msat i) \<longleftrightarrow>
      (\<forall>out\<in>set (lf_outputs funds). spendable out \<or> fo_amount_msat out = 0))"
proof -
  let ?outs = "lf_outputs funds"
  have "sum_i64 prof (map (\<lambda>x. as_i64 (fo_amount_msat x)) ?outs) = Inr (fn_output_msat (cd_funds data))"
    using calls by (auto intro: fetch_Inr [OF poll])
  then have total: "unat (fn_output_msat (cd_funds data)) = output_sum (\<lambda>_. True) ?outs"
    using sum_i64_exact [of "map (\<lambda>x. as_i64 (fo_amount_msat x)) ?outs" prof] small(1)
    by (auto simp: output_sum_def comp_def)
  have "sum_list (map output_weight xs) \<le> output_sum (\<lambda>_. True) xs" for xs
    by (induction xs) (auto simp: output_sum_def output_weight_def)
  from this [of ?outs]
  have "sum_list (map output_weight ?outs) < 2 ^ 63" using small(1) by simp
  with small(2) obtain i where i: "fetch_inputs prof env w1 = (Inr i, w5)"
    "unat (onchain_confirmed_msat i) = output_sum spendable ?outs"
    "unat (onchain_reserved_msat i) = output_sum locked ?outs"
    "unat (onchain_unconfirmed_msat i) = output_sum (with_status UNCONFIRMED) ?outs"
    "unat (onchain_immature_msat i) = output_sum (with_status IMMATURE) ?outs"
    using fetch_inputs_exact [OF attest, of prof] by auto
  have "output_sum (\<lambda>_. True) ?outs = output_sum spendable ?outs \<longleftrightarrow>
      (\<forall>out\<in>set ?outs. spendable out \<or> fo_amount_msat out = 0)"
  proof -
    have "output_sum (\<lambda>_. True) xs = output_sum spendable xs + output_sum (\<lambda>out. \<not> spendable out) xs" for xs
      by (induction xs) (simp_all add: output_sum_def)
    moreover have "output_sum (\<lambda>out. \<not> spendable out) ?outs = 0 \<longleftrightarrow>
        (\<forall>out\<in>set ?outs. spendable out \<or> fo_amount_msat out = 0)"
      by (auto simp: output_sum_def unsigned_eq_0_iff)
    ultimately show ?thesis by simp
  qed
  with i total output_sum_partition [of ?outs] show ?thesis by simp
qed

theorem metrics_against_attestor_witness:
  "\<exists>data i. fetch Release sample_cln 0 = (Inr data, 4) \<and>
     fetch_inputs Release ((sample_attestor True)\<lparr>rpc_listfunds := \<lambda>w. (Inr sample_funds, w)\<rparr>) () = (Inr i, ()) \<and>
     unat (fn_output_msat (cd_funds data)) \<noteq> unat (onchain_confirmed_msat i)"
proof -
  let ?env = "(sample_attestor True)\<lparr>rpc_listfunds := \<lambda>w. (Inr sample_funds, w)\<rparr>"
  obtain data where data: "fetch Release sample_cln 0 = (Inr data, 4)"
    by (simp add: fetch_def io_simps io_lib_def sample_cln_def sum_i64_Release Let_def io_bind_def)
  have "\<exists>i. fetch_inputs Release ?env () = (Inr i, ()) \<and>
    unat (fn_output_msat (cd_funds data)) = unat (onchain_confirmed_msat i) + unat (onchain_reserved_msat i) +
      unat (onchain_unconfirmed_msat i) + unat (onchain_immature_msat i) + output_sum (with_status SPENT) (lf_outputs sample_funds) \<and>
    (unat (fn_output_msat (cd_funds data)) = unat (onchain_confirmed_msat i) \<longleftrightarrow>
      (\<forall>out\<in>set (lf_outputs sample_funds). spendable out \<or> fo_amount_msat out = 0))"
    by (rule metrics_against_attestor [OF data, where cs' = sample_channels and info' = sample_info and now = "()"])
       (simp_all add: sample_cln_def sample_attestor_def sample_funds_def output_sum_def sample_channels_def
         sample_channel_def channel_weight_def msat_amount_def)
  moreover have "\<not> (\<forall>out\<in>set (lf_outputs sample_funds). spendable out \<or> fo_amount_msat out = 0)"
    by (simp add: sample_funds_def spendable_def)
  ultimately show ?thesis using data by blast
qed

end
